(* ===== verification/Prelude.thy ===== *)
theory Prelude
  imports "HOL-Library.Word" "HOL-Library.Multiset"
begin

text \<open>
  Shared vocabulary of the development. A Go function that can panic is a HOL function into
  \<open>'a go\<close>: \<open>Inl p\<close> is the panic value and \<open>Inr x\<close> the normal result; \<open>go_bind\<close> sequences
  two such computations, \<open>go_fold\<close> is a \<open>for\<close> loop whose body may panic. A Go \<open>int\<close> is 64 bits
  wide on the platforms the server is built for: \<open>wrap64\<close> writes its wrap-around out. A Go map
  is an association list with distinct keys; the order of the list is one iteration order of
  \<open>range\<close>, and a theorem that holds for every list holds for every order Go may choose.
\<close>

named_theorems go_simps \<open>equations of the panic monad and of its loops\<close>
named_theorems go_elims \<open>inversion of computations that did not panic\<close>

section \<open>Panics\<close>

datatype go_panic =
    NilDeref
  | IndexOutOfRange
  | SliceBounds
  | MakeSliceLen
  | TypeAssertion
  | IntnArgument
  | StackOverflow
  | Panic string

type_synonym 'a go = "go_panic + 'a"

definition go_bind :: "'a go \<Rightarrow> ('a \<Rightarrow> 'b go) \<Rightarrow> 'b go" where
  "go_bind m f = (case m of Inl p \<Rightarrow> Inl p | Inr x \<Rightarrow> f x)"

primrec go_fold :: "('a \<Rightarrow> 's \<Rightarrow> 's go) \<Rightarrow> 'a list \<Rightarrow> 's \<Rightarrow> 's go" where
  "go_fold f [] s = Inr s"
| "go_fold f (x # xs) s = go_bind (f x s) (go_fold f xs)"

primrec go_map :: "('a \<Rightarrow> 'b go) \<Rightarrow> 'a list \<Rightarrow> 'b list go" where
  "go_map f [] = Inr []"
| "go_map f (x # xs) = go_bind (f x) (\<lambda>y. go_bind (go_map f xs) (\<lambda>ys. Inr (y # ys)))"

definition go_ok :: "'a go \<Rightarrow> bool" where
  "go_ok m = (case m of Inl _ \<Rightarrow> False | Inr _ \<Rightarrow> True)"

section \<open>Integers\<close>

type_synonym goint = int

definition wrap64 :: "int \<Rightarrow> int" where
  "wrap64 x = (x + 2 ^ 63) mod 2 ^ 64 - 2 ^ 63"

definition int64 :: "int \<Rightarrow> bool" where
  "int64 x = (- (2 ^ 63) \<le> x \<and> x < 2 ^ 63)"

section \<open>Maps\<close>

fun map_put :: "'k \<Rightarrow> 'v \<Rightarrow> ('k \<times> 'v) list \<Rightarrow> ('k \<times> 'v) list" where
  "map_put k v [] = [(k, v)]"
| "map_put k v ((k', v') # m) = (if k' = k then (k, v) # m else (k', v') # map_put k v m)"

definition map_del :: "'k \<Rightarrow> ('k \<times> 'v) list \<Rightarrow> ('k \<times> 'v) list" where
  "map_del k m = filter (\<lambda>e. fst e \<noteq> k) m"

definition map_get :: "('k \<times> 'v) list \<Rightarrow> 'k \<Rightarrow> 'v \<Rightarrow> 'v" where
  "map_get m k zero = (case map_of m k of None \<Rightarrow> zero | Some v \<Rightarrow> v)"

definition keys :: "('k \<times> 'v) list \<Rightarrow> 'k list" where
  "keys m = map fst m"

section \<open>Lemmas on panics\<close>

lemma go_bind_simps [simp, go_simps]:
  "go_bind (Inl p) f = Inl p"
  "go_bind (Inr x) f = f x"
  by (simp_all add: go_bind_def)

lemma go_bind_Inr [go_elims]: "go_bind m f = Inr y \<longleftrightarrow> (\<exists>x. m = Inr x \<and> f x = Inr y)"
  by (cases m) simp_all

lemma go_bind_Inl: "go_bind m f = Inl p \<longleftrightarrow> m = Inl p \<or> (\<exists>x. m = Inr x \<and> f x = Inl p)"
  by (cases m) simp_all

lemma go_bind_assoc [go_simps]: "go_bind (go_bind m f) g = go_bind m (\<lambda>x. go_bind (f x) g)"
  by (cases m) simp_all

lemma go_ok_simps [simp]: "go_ok (Inr x)" "\<not> go_ok (Inl p)"
  by (simp_all add: go_ok_def)

lemma go_ok_iff: "go_ok m \<longleftrightarrow> (\<exists>x. m = Inr x)"
  by (cases m) simp_all

lemma go_bind_cong [fundef_cong]:
  "m = m' \<Longrightarrow> (\<And>x. m' = Inr x \<Longrightarrow> f x = f' x) \<Longrightarrow> go_bind m f = go_bind m' f'"
  by (cases m') simp_all

lemma go_fold_append [go_simps]:
  "go_fold f (xs @ ys) s = go_bind (go_fold f xs s) (go_fold f ys)"
proof (induction xs arbitrary: s)
  case (Cons x xs)
  then show ?case by (cases "f x s") simp_all
qed simp

lemma go_fold_total:
  "(\<And>x s. x \<in> set xs \<Longrightarrow> f x s = Inr (g x s)) \<Longrightarrow> go_fold f xs s = Inr (fold g xs s)"
  by (induction xs arbitrary: s) simp_all

lemma go_fold_invariant:
  assumes "go_fold f xs s = Inr t" and "P s"
    and "\<And>x s t. x \<in> set xs \<Longrightarrow> P s \<Longrightarrow> f x s = Inr t \<Longrightarrow> P t"
  shows "P t"
  using assms
proof (induction xs arbitrary: s)
  case Nil
  then show ?case by simp
next
  case (Cons x xs)
  from Cons.prems(1) obtain u where u: "f x s = Inr u" "go_fold f xs u = Inr t"
    by (auto simp: go_bind_Inr)
  show ?case
  proof (rule Cons.IH [OF u(2)])
    show "P u" using Cons.prems(2,3) u(1) by auto
    show "\<And>y s t. y \<in> set xs \<Longrightarrow> P s \<Longrightarrow> f y s = Inr t \<Longrightarrow> P t"
      using Cons.prems(3) by auto
  qed
qed

lemma go_fold_cases:
  assumes "\<And>x s. x \<in> set xs \<Longrightarrow> (\<exists>t. f x s = Inr t) \<or> (\<exists>p. f x s = Inl p \<and> Q x p)"
  shows "(\<exists>t. go_fold f xs s = Inr t) \<or> (\<exists>p. go_fold f xs s = Inl p \<and> (\<exists>x \<in> set xs. Q x p))"
  using assms
proof (induction xs arbitrary: s)
  case (Cons x xs)
  have "(\<exists>t. f x s = Inr t) \<or> (\<exists>p. f x s = Inl p \<and> Q x p)" by (rule Cons.prems) simp
  then show ?case
  proof (elim disjE exE)
    fix t assume "f x s = Inr t"
    with Cons.IH [of t] Cons.prems show ?thesis by auto
  qed auto
qed simp

lemma go_fold_step: "go_fold f xs s = Inr t \<Longrightarrow> x \<in> set xs \<Longrightarrow> \<exists>u v. f x u = Inr v"
  by (induction xs arbitrary: s) (auto simp: go_bind_Inr)

lemma go_fold_mono:
  assumes "go_fold f xs s = Inr t" and "\<And>x s t. x \<in> set xs \<Longrightarrow> f x s = Inr t \<Longrightarrow> g x s = Inr t"
  shows "go_fold g xs s = Inr t"
  using assms by (induction xs arbitrary: s) (auto simp: go_bind_Inr)

lemma go_fold_extends:
  assumes "go_fold f xs ms = Inr ms'" and "\<And>x u v. x \<in> set xs \<Longrightarrow> f x u = Inr v \<Longrightarrow> set u \<subseteq> set v"
  shows "set ms \<subseteq> set ms'"
  using go_fold_invariant [OF assms(1), of "\<lambda>u. set ms \<subseteq> set u"] assms(2) by blast

lemma go_fold_collects:
  assumes "go_fold f xs ms = Inr ms'" and "x \<in> set xs"
    and "\<And>x u v. x \<in> set xs \<Longrightarrow> f x u = Inr v \<Longrightarrow> set u \<subseteq> set v"
    and "\<And>u v. f x u = Inr v \<Longrightarrow> m \<in> set v"
  shows "m \<in> set ms'"
proof -
  from assms(2) obtain ys zs where xs: "xs = ys @ x # zs" by (meson split_list)
  with assms(1) obtain u v where "f x u = Inr v" "go_fold f zs v = Inr ms'"
    by (auto simp: go_fold_append go_bind_Inr)
  moreover have "set v \<subseteq> set ms'"
    by (rule go_fold_extends [OF \<open>go_fold f zs v = Inr ms'\<close>]) (use assms(3) xs in auto)
  ultimately show ?thesis using assms(4) by blast
qed

lemma go_map_Inr_iff:
  "go_map f xs = Inr ys \<longleftrightarrow> length ys = length xs \<and> (\<forall>i < length xs. f (xs ! i) = Inr (ys ! i))"
proof (induction xs arbitrary: ys)
  case Nil
  then show ?case by auto
next
  case (Cons x xs)
  show ?case
    by (cases ys) (auto simp: go_bind_Inr Cons.IH less_Suc_eq_0_disj)
qed

lemma go_map_length: "go_map f xs = Inr ys \<Longrightarrow> length ys = length xs"
  by (simp add: go_map_Inr_iff)

section \<open>Lemmas on integers\<close>

lemma wrap64_id [simp]: "int64 x \<Longrightarrow> wrap64 x = x"
  by (simp add: wrap64_def int64_def)

lemma int64_wrap64 [simp]: "int64 (wrap64 x)"
  by (auto simp: wrap64_def int64_def)

lemma wrap64_add_wrap64 [simp]:
  "wrap64 (wrap64 a + b) = wrap64 (a + b)" "wrap64 (a + wrap64 b) = wrap64 (a + b)"
  unfolding wrap64_def by (simp_all add: algebra_simps mod_simps)

lemma int64_nat_bound: "0 \<le> x \<Longrightarrow> x < 2 ^ 63 \<Longrightarrow> int64 x"
  by (simp add: int64_def)

section \<open>Lemmas on maps\<close>

lemma map_of_map_put [simp]: "map_of (map_put k v m) = (map_of m)(k \<mapsto> v)"
  by (induction m) auto

lemma map_of_map_del [simp]: "map_of (map_del k m) = (map_of m)(k := None)"
  by (induction m) (auto simp: map_del_def)

lemma keys_simps [simp]: "keys [] = []" "keys ((k, v) # m) = k # keys m"
  by (simp_all add: keys_def)

lemma set_keys_map_put [simp]: "set (keys (map_put k v m)) = insert k (set (keys m))"
  by (induction m) (auto split: if_splits)

lemma set_keys_map_del [simp]: "set (keys (map_del k m)) = set (keys m) - {k}"
  by (auto simp: keys_def map_del_def)

lemma distinct_map_put [simp]: "distinct (keys (map_put k v m)) \<longleftrightarrow> distinct (keys m)"
  by (induction m) (auto split: if_splits)

lemma distinct_map_del: "distinct (keys m) \<Longrightarrow> distinct (keys (map_del k m))"
  by (induction m) (auto simp: map_del_def keys_def)

lemma map_of_eq_None_keys: "map_of m k = None \<longleftrightarrow> k \<notin> set (keys m)"
  by (simp add: keys_def map_of_eq_None_iff)

lemma dom_map_of_keys: "dom (map_of m) = set (keys m)"
  by (simp add: keys_def dom_map_of_conv_image_fst)

section \<open>Lemmas on lists\<close>

lemma list_all_take: "list_all P xs \<Longrightarrow> list_all P (take k xs)"
  by (metis append_take_drop_id list_all_append)

lemma mset_remove_nth: "i < length xs \<Longrightarrow> mset (take i xs @ drop (Suc i) xs) = mset xs - {#xs ! i#}"
  by (metis add_mset_remove_trivial id_take_nth_drop mset.simps(2) mset_append union_mset_add_mset_right)

lemma sum_list_remove_nth:
  fixes f :: "'a \<Rightarrow> int"
  assumes "i < length xs"
  shows "sum_list (map f (take i xs @ drop (Suc i) xs)) = sum_list (map f xs) - f (xs ! i)"
proof -
  have "sum_list (map f xs) = sum_list (map f (take i xs @ xs ! i # drop (Suc i) xs))"
    using assms by (simp add: id_take_nth_drop [symmetric])
  then show ?thesis by simp
qed

lemma sum_list_take_le:
  fixes f :: "'a \<Rightarrow> int"
  assumes "\<forall>x \<in> set xs. 0 \<le> f x" and "i \<le> j"
  shows "sum_list (map f (take i xs)) \<le> sum_list (map f (take j xs))"
proof -
  have "take j xs = take i xs @ take (j - i) (drop i xs)"
    using assms(2) by (metis le_add_diff_inverse take_add)
  moreover have "0 \<le> sum_list (map f (take (j - i) (drop i xs)))"
    using assms(1) by (intro sum_list_nonneg) (auto dest: in_set_takeD in_set_dropD)
  ultimately show ?thesis by simp
qed

end
