(* ===== verification/GoStrings.thy ===== *)
theory GoStrings
  imports Prelude
begin

text \<open>
  The part of Go's \<open>strings\<close> and \<open>strconv\<close> packages the server calls. A Go string is a byte
  string, so it is a HOL \<open>string\<close> (a list of 8-bit characters). \<open>strings.ToLower\<close> is modelled on
  ASCII letters, the only letters of a host name; bytes above 127 are left as they are.
  Separators are single characters wherever the source splits.
\<close>

named_theorems str_simps \<open>equations of the string functions\<close>

section \<open>Package strings\<close>

definition lower_char :: "char \<Rightarrow> char" where
  "lower_char c = (let n = (of_char c :: nat) in if 65 \<le> n \<and> n \<le> 90 then char_of (n + 32) else c)"

definition toLower :: "string \<Rightarrow> string" where
  "toLower s = map lower_char s"

fun split_on :: "char \<Rightarrow> string \<Rightarrow> string list" where
  "split_on c [] = [[]]"
| "split_on c (x # xs) =
     (if x = c then [] # split_on c xs
      else (case split_on c xs of [] \<Rightarrow> [[x]] | y # ys \<Rightarrow> (x # y) # ys))"

text \<open>\<open>strings.SplitN(s, c, 2)\<close>: at most one split, at the first separator.\<close>

fun splitN2 :: "char \<Rightarrow> string \<Rightarrow> string list" where
  "splitN2 c [] = [[]]"
| "splitN2 c (x # xs) =
     (if x = c then [[], xs]
      else (case splitN2 c xs of [] \<Rightarrow> [[x]] | y # ys \<Rightarrow> (x # y) # ys))"

fun join :: "string \<Rightarrow> string list \<Rightarrow> string" where
  "join sep [] = []"
| "join sep [x] = x"
| "join sep (x # y # ys) = x @ sep @ join sep (y # ys)"

definition hasPrefix :: "string \<Rightarrow> string \<Rightarrow> bool" where
  "hasPrefix s p = (take (length p) s = p)"

definition hasSuffix :: "string \<Rightarrow> string \<Rightarrow> bool" where
  "hasSuffix s p = (length p \<le> length s \<and> drop (length s - length p) s = p)"

definition trimSuffix :: "string \<Rightarrow> string \<Rightarrow> string" where
  "trimSuffix s p = (if hasSuffix s p then take (length s - length p) s else s)"

definition contains_char :: "string \<Rightarrow> char \<Rightarrow> bool" where
  "contains_char s c = List.member s c"

text \<open>\<open>strings.LastIndex\<close> and \<open>strings.Index\<close> return \<open>-1\<close> when there is no match.\<close>

fun lastIndex :: "string \<Rightarrow> char \<Rightarrow> int" where
  "lastIndex [] c = -1"
| "lastIndex (x # xs) c =
     (let i = lastIndex xs c in if 0 \<le> i then i + 1 else if x = c then 0 else -1)"

fun indexOf :: "string \<Rightarrow> string \<Rightarrow> int" where
  "indexOf [] sub = (if sub = [] then 0 else -1)"
| "indexOf (x # xs) sub =
     (if hasPrefix (x # xs) sub then 0
      else (let i = indexOf xs sub in if 0 \<le> i then i + 1 else -1))"

definition replace_char :: "char \<Rightarrow> char \<Rightarrow> string \<Rightarrow> string" where
  "replace_char a b s = map (\<lambda>c. if c = a then b else c) s"

section \<open>Package strconv\<close>

definition digit_char :: "nat \<Rightarrow> char" where
  "digit_char d = char_of (48 + d)"

definition is_digit :: "char \<Rightarrow> bool" where
  "is_digit c = (48 \<le> (of_char c :: nat) \<and> (of_char c :: nat) \<le> 57)"

definition digit_val :: "char \<Rightarrow> nat" where
  "digit_val c = of_char c - 48"

fun utoa :: "nat \<Rightarrow> string" where
  "utoa n = (if n < 10 then [digit_char n] else utoa (n div 10) @ [digit_char (n mod 10)])"

declare utoa.simps [simp del]

definition itoa :: "int \<Rightarrow> string" where
  "itoa i = (if i < 0 then CHR ''-'' # utoa (nat (- i)) else utoa (nat i))"

definition digits_val :: "string \<Rightarrow> nat" where
  "digits_val s = foldl (\<lambda>n c. 10 * n + digit_val c) 0 s"

text \<open>\<open>strconv.Atoi\<close>: an optional sign, at least one digit, nothing else, in the range of \<open>int\<close>.\<close>

definition atoi :: "string \<Rightarrow> int option" where
  "atoi s =
     (let neg = hasPrefix s ''-'';
          ds = (if neg \<or> hasPrefix s ''+'' then drop 1 s else s);
          v = (if neg then - int (digits_val ds) else int (digits_val ds))
      in if ds \<noteq> [] \<and> list_all is_digit ds \<and> int64 v then Some v else None)"

section \<open>Package path\<close>

text \<open>\<open>path.Clean\<close> by components: empty ones and \<open>.\<close> vanish, \<open>..\<close> removes the component before it;
  the stack holds the components kept, last one first.\<close>

fun clean_loop :: "bool \<Rightarrow> string list \<Rightarrow> string list \<Rightarrow> string list" where
  "clean_loop rooted [] stack = rev stack"
| "clean_loop rooted (c # cs) stack =
     (if c = [] \<or> c = ''.'' then clean_loop rooted cs stack
      else if c = ''..'' then
        (case stack of
           [] \<Rightarrow> clean_loop rooted cs (if rooted then [] else [c])
         | d # ds \<Rightarrow> clean_loop rooted cs (if d = ''..'' then c # stack else ds))
      else clean_loop rooted cs (c # stack))"

definition path_Clean :: "string \<Rightarrow> string" where
  "path_Clean p =
     (let rooted = hasPrefix p ''/'';
          cs = clean_loop rooted (split_on (CHR ''/'') p) []
      in if rooted then ''/'' @ join ''/'' cs else if cs = [] then ''.'' else join ''/'' cs)"

definition path_Join :: "string \<Rightarrow> string \<Rightarrow> string" where
  "path_Join a b =
     (if a = [] \<and> b = [] then []
      else if a = [] then path_Clean b
      else if b = [] then path_Clean a
      else path_Clean (a @ ''/'' @ b))"

definition path_Base :: "string \<Rightarrow> string" where
  "path_Base p =
     (if p = [] then ''.''
      else let q = rev (dropWhile (\<lambda>c. c = CHR ''/'') (rev p));
               q = (if CHR ''/'' \<in> set q then drop (nat (lastIndex q (CHR ''/'') + 1)) q else q)
           in if q = [] then ''/'' else q)"

section \<open>Lower case\<close>

lemma lower_char_idem [simp]: "lower_char (lower_char c) = lower_char c"
  by (auto simp: lower_char_def Let_def)

lemma toLower_simps [simp]:
  "toLower [] = []" "toLower (c # s) = lower_char c # toLower s"
  "toLower (s @ t) = toLower s @ toLower t" "length (toLower s) = length s"
  by (simp_all add: toLower_def)

lemma toLower_idem [simp]: "toLower (toLower s) = toLower s"
  by (simp add: toLower_def)

lemma lower_char_not_letter:
  "\<not> (65 \<le> (of_char c :: nat) \<and> (of_char c :: nat) \<le> 90) \<Longrightarrow> lower_char c = c"
  by (auto simp: lower_char_def Let_def)

lemma lower_char_fixpoint_iff:
  assumes "\<not> (97 \<le> (of_char d :: nat) \<and> (of_char d :: nat) \<le> 122)"
    and "\<not> (65 \<le> (of_char d :: nat) \<and> (of_char d :: nat) \<le> 90)"
  shows "lower_char c = d \<longleftrightarrow> c = d"
proof (cases "65 \<le> (of_char c :: nat) \<and> (of_char c :: nat) \<le> 90")
  case True
  then have "(of_char (lower_char c) :: nat) = of_char c + 32"
    by (simp add: lower_char_def Let_def)
  with True assms show ?thesis by auto
next
  case False
  then show ?thesis by (simp add: lower_char_not_letter)
qed

lemma lower_char_dot [simp]: "lower_char c = CHR ''.'' \<longleftrightarrow> c = CHR ''.''"
  by (rule lower_char_fixpoint_iff) simp_all

lemma lower_char_of_dot [simp]: "lower_char (CHR ''.'') = CHR ''.''"
  by simp

lemma lower_char_backslash [simp]: "lower_char c = CHR 0x5C \<longleftrightarrow> c = CHR 0x5C"
  by (rule lower_char_fixpoint_iff) simp_all

lemma toLower_drop: "drop n (toLower s) = toLower (drop n s)"
  by (simp add: toLower_def drop_map)

lemma toLower_take: "take n (toLower s) = toLower (take n s)"
  by (simp add: toLower_def take_map)

lemma toLower_join [simp]: "toLower (join ''.'' xs) = join ''.'' (map toLower xs)"
  by (induction "''.''" xs rule: join.induct) (simp_all add: lower_char_def)

section \<open>Split and join\<close>

lemma split_on_not_Nil [simp]: "split_on c s \<noteq> []"
  by (induction s) (auto split: list.splits)

lemma split_on_Cons_neq:
  "x \<noteq> c \<Longrightarrow> split_on c (x # xs) = (x # hd (split_on c xs)) # tl (split_on c xs)"
  by (cases "split_on c xs") simp_all

lemma join_Cons: "ys \<noteq> [] \<Longrightarrow> join sep (x # ys) = x @ sep @ join sep ys"
  by (cases ys) simp_all

lemma join_cons_head: "ys \<noteq> [] \<Longrightarrow> join sep ((x # hd ys) # tl ys) = x # join sep ys"
  by (cases ys; cases "tl ys") simp_all

lemma join_split_on [simp]: "join [c] (split_on c s) = s"
proof (induction s)
  case (Cons x xs)
  show ?case
  proof (cases "x = c")
    case True
    with Cons.IH show ?thesis by (simp add: join_Cons)
  next
    case False
    with Cons.IH show ?thesis by (simp add: split_on_Cons_neq join_cons_head del: split_on.simps)
  qed
qed simp

lemma split_on_no_sep: "c \<notin> set s \<Longrightarrow> split_on c s = [s]"
  by (induction s) auto

lemma split_on_append_sep: "c \<notin> set s \<Longrightarrow> split_on c (s @ c # t) = s # split_on c t"
  by (induction s) (auto split: list.splits)

lemma split_on_join:
  "xs \<noteq> [] \<Longrightarrow> \<forall>x \<in> set xs. c \<notin> set x \<Longrightarrow> split_on c (join [c] xs) = xs"
  by (induction "[c]" xs rule: join.induct) (simp_all add: split_on_no_sep split_on_append_sep)

lemma split_on_members: "x \<in> set (split_on c s) \<Longrightarrow> c \<notin> set x"
  by (induction s arbitrary: x) (auto split: if_splits list.splits)

lemma splitN2_cases:
  "splitN2 c s = (if c \<in> set s then [takeWhile (\<lambda>x. x \<noteq> c) s, tl (dropWhile (\<lambda>x. x \<noteq> c) s)] else [s])"
  by (induction s) auto

section \<open>Prefixes and suffixes\<close>

lemma hasSuffix_iff: "hasSuffix s p \<longleftrightarrow> (\<exists>q. s = q @ p)"
proof
  assume "hasSuffix s p"
  then have "s = take (length s - length p) s @ p"
    by (metis append_take_drop_id hasSuffix_def)
  then show "\<exists>q. s = q @ p" ..
qed (auto simp: hasSuffix_def)

lemma hasPrefix_iff: "hasPrefix s p \<longleftrightarrow> (\<exists>q. s = p @ q)"
proof
  assume "hasPrefix s p"
  then have "s = p @ drop (length p) s"
    by (metis append_take_drop_id hasPrefix_def)
  then show "\<exists>q. s = p @ q" ..
qed (auto simp: hasPrefix_def)

lemma trimSuffix_append [simp]: "trimSuffix (q @ p) p = q"
  by (simp add: trimSuffix_def hasSuffix_def)

lemma lastIndex_range: "-1 \<le> lastIndex s c \<and> lastIndex s c < int (length s)"
  by (induction s) (auto simp: Let_def)

lemma lastIndex_neg_iff: "lastIndex s c < 0 \<longleftrightarrow> c \<notin> set s"
  by (induction s) (auto simp: Let_def)

lemma lastIndex_split:
  "c \<notin> set t \<Longrightarrow> lastIndex (s @ c # t) c = int (length s)"
proof (induction s)
  case Nil
  then have "lastIndex t c < 0" by (simp add: lastIndex_neg_iff)
  then show ?case by (simp add: Let_def)
qed (simp add: Let_def)

section \<open>Decimal numbers\<close>

lemma is_digit_digit_char [simp]: "d < 10 \<Longrightarrow> is_digit (digit_char d)"
  by (simp add: is_digit_def digit_char_def)

lemma digit_val_digit_char [simp]: "d < 10 \<Longrightarrow> digit_val (digit_char d) = d"
  by (simp add: digit_val_def digit_char_def)

lemma digits_val_append [simp]: "digits_val (s @ [c]) = 10 * digits_val s + digit_val c"
  by (simp add: digits_val_def)

lemma utoa_digits: "utoa n \<noteq> [] \<and> list_all is_digit (utoa n)"
proof (induction n rule: utoa.induct)
  case (1 n)
  then show ?case by (cases "n < 10") (simp_all add: utoa.simps [of n])
qed

lemma utoa_nonempty [simp]: "utoa n \<noteq> []"
  by (simp add: utoa_digits)

lemma digits_val_utoa [simp]: "digits_val (utoa n) = n"
proof (induction n rule: utoa.induct)
  case (1 n)
  then show ?case
    by (cases "n < 10") (simp_all add: utoa.simps [of n] digits_val_def)
qed

lemma utoa_inj [simp]: "utoa m = utoa n \<longleftrightarrow> m = n"
  by (metis digits_val_utoa)

lemma utoa_chars: "c \<in> set (utoa n) \<Longrightarrow> is_digit c"
  using utoa_digits [of n] by (simp add: list_all_iff)

lemma is_digit_not_sign: "is_digit c \<Longrightarrow> c \<noteq> CHR ''-'' \<and> c \<noteq> CHR ''+'' \<and> c \<noteq> CHR ''.''"
  by (auto simp: is_digit_def)

lemma atoi_itoa: "int64 i \<Longrightarrow> atoi (itoa i) = Some i"
proof (cases "i < 0")
  case True
  assume "int64 i"
  with True show ?thesis
    by (simp add: atoi_def itoa_def hasPrefix_def utoa_digits)
next
  case False
  assume i: "int64 i"
  obtain c cs where u: "utoa (nat i) = c # cs"
    using utoa_nonempty [of "nat i"] by (cases "utoa (nat i)") auto
  then have "is_digit c" using utoa_chars [of c "nat i"] by simp
  then have "c \<noteq> CHR ''-''" "c \<noteq> CHR ''+''"
    by (simp_all add: is_digit_not_sign)
  with u False i show ?thesis
    using utoa_digits [of "nat i"] digits_val_utoa [of "nat i"]
    by (simp add: atoi_def itoa_def hasPrefix_def Let_def)
qed

lemma itoa_inj: "itoa i = itoa j \<Longrightarrow> i = j"
proof -
  assume eq: "itoa i = itoa j"
  have hd_utoa: "hd (utoa n) \<noteq> CHR ''-''" for n
    using utoa_chars [of "hd (utoa n)" n] is_digit_not_sign by auto
  show "i = j"
    using eq hd_utoa [of "nat i"] hd_utoa [of "nat j"]
    by (cases "i < 0"; cases "j < 0") (auto simp: itoa_def eq_nat_nat_iff dest: arg_cong [where f = hd])
qed

lemma utoa_no_slash: "CHR ''/'' \<notin> set (utoa n)"
proof
  assume "CHR ''/'' \<in> set (utoa n)"
  then have "is_digit (CHR ''/'')" by (rule utoa_chars)
  then show False by (simp add: is_digit_def)
qed

lemma join_no_char: "c \<notin> set sep \<Longrightarrow> \<forall>x \<in> set xs. c \<notin> set x \<Longrightarrow> c \<notin> set (join sep xs)"
  by (induction sep xs rule: join.induct) auto

lemma join_nonempty: "x \<noteq> [] \<Longrightarrow> join sep (x # xs) \<noteq> []"
  by (cases xs) simp_all

end
