(* ===== verification/DnsNames.thy ===== *)
theory DnsNames
  imports GoStrings
begin

text \<open>
  Domain names as the vendored \<open>miekg/dns\<close> library handles them (\<open>labels.go\<close>, \<open>defaults.go\<close>):
  the label scanner \<open>NextLabel\<close> with its backslash escapes, \<open>Split\<close>, \<open>SplitDomainName\<close>,
  \<open>CountLabel\<close>, \<open>IsFqdn\<close> and \<open>Fqdn\<close>. The lemmas relate the offset-based routines to a
  recursion on the suffix of the name that is left, \<open>labels_of\<close>.
\<close>

section \<open>The routines of labels.go and defaults.go\<close>

text \<open>The loop of \<open>NextLabel\<close>; its first argument is the string from index \<open>i\<close> on, so the loop
  condition \<open>i < len(s)-1\<close> is that at least two characters are left.\<close>

fun nextLabel_loop :: "string \<Rightarrow> nat \<Rightarrow> bool \<Rightarrow> nat \<times> bool" where
  "nextLabel_loop (c # d # r) i quote =
     (if c = CHR 0x5C then nextLabel_loop (d # r) (Suc i) (\<not> quote)
      else if c = CHR ''.'' then
        (if quote then nextLabel_loop (d # r) (Suc i) (\<not> quote) else (Suc i, False))
      else nextLabel_loop (d # r) (Suc i) False)"
| "nextLabel_loop _ i quote = (Suc i, True)"

definition NextLabel :: "string \<Rightarrow> nat \<Rightarrow> nat \<times> bool" where
  "NextLabel s offset = nextLabel_loop (drop offset s) offset False"

lemma nextLabel_loop_bounds:
  "nextLabel_loop r i q = (j, False) \<Longrightarrow> i < j \<and> j < i + length r"
  by (induction r i q rule: nextLabel_loop.induct) (auto split: if_splits)

lemma NextLabel_bounds: "NextLabel s off = (j, False) \<Longrightarrow> off < j \<and> j < length s"
  by (cases "off < length s") (auto simp: NextLabel_def dest: nextLabel_loop_bounds)

lemma NextLabel_bounds_sym: "(j, False) = NextLabel s off \<Longrightarrow> off < j \<and> j < length s"
  using NextLabel_bounds [of s off j] by simp

function split_loop :: "string \<Rightarrow> nat \<Rightarrow> nat list" where
  "split_loop s off =
     (case NextLabel s off of (off', end) \<Rightarrow> if end then [] else off' # split_loop s off')"
  by pat_completeness auto
termination
  by (relation "measure (\<lambda>(s, off). length s - off)") (auto dest: NextLabel_bounds_sym)

declare split_loop.simps [simp del]

definition Split :: "string \<Rightarrow> nat list" where
  "Split s = (if s = ''.'' then [] else 0 # split_loop s 0)"

function countLabel_loop :: "string \<Rightarrow> nat \<Rightarrow> nat" where
  "countLabel_loop s off =
     (case NextLabel s off of (off', end) \<Rightarrow> if end then 1 else Suc (countLabel_loop s off'))"
  by pat_completeness auto
termination
  by (relation "measure (\<lambda>(s, off). length s - off)") (auto dest: NextLabel_bounds_sym)

declare countLabel_loop.simps [simp del]

definition CountLabel :: "string \<Rightarrow> nat" where
  "CountLabel s = (if s = ''.'' then 0 else countLabel_loop s 0)"

text \<open>\<open>LastIndexFunc(s2, r != '\\')\<close>: the characters of \<open>s2\<close> after it are its trailing
  backslashes, so \<open>len(s2)-i\<close> is one more than their number.\<close>

definition trailing_backslashes :: "string \<Rightarrow> nat" where
  "trailing_backslashes s = length (takeWhile (\<lambda>c. c = CHR 0x5C) (rev s))"

definition IsFqdn :: "string \<Rightarrow> bool" where
  "IsFqdn s =
     (let s2 = trimSuffix s ''.''
      in if s = s2 then False else (trailing_backslashes s2 + 1) mod 2 \<noteq> 0)"

definition Fqdn :: "string \<Rightarrow> string" where
  "Fqdn s = (if IsFqdn s then s else s @ ''.'')"

definition slice :: "string \<Rightarrow> nat \<Rightarrow> nat \<Rightarrow> string" where
  "slice s b e = take (e - b) (drop b s)"

fun cut_labels :: "string \<Rightarrow> nat \<Rightarrow> nat list \<Rightarrow> nat \<Rightarrow> string list" where
  "cut_labels s begin [] fqdnEnd = [slice s begin fqdnEnd]"
| "cut_labels s begin (end # idx) fqdnEnd = slice s begin (end - 1) # cut_labels s end idx fqdnEnd"

definition SplitDomainName :: "string \<Rightarrow> string list" where
  "SplitDomainName s =
     (if s = [] then []
      else let idx = Split s;
               fqdnEnd = (if IsFqdn s then length s - 1 else length s)
           in case idx of [] \<Rightarrow> [] | _ # idx' \<Rightarrow> cut_labels s 0 idx' fqdnEnd)"

section \<open>A recursive description\<close>

definition strip_root :: "string \<Rightarrow> string" where
  "strip_root s = (if IsFqdn s then butlast s else s)"

function labels_of :: "string \<Rightarrow> string list" where
  "labels_of s =
     (case NextLabel s 0 of (j, end) \<Rightarrow>
        if end then [strip_root s] else take (j - 1) s # labels_of (drop j s))"
  by pat_completeness auto
termination
  by (relation "measure length") (auto dest: NextLabel_bounds_sym)

declare labels_of.simps [simp del]

text \<open>\<open>label_start s off\<close>: the scanner reaches offset \<open>off\<close> as the start of a label of \<open>s\<close>.\<close>

inductive label_start :: "string \<Rightarrow> nat \<Rightarrow> bool" where
  start: "label_start s 0"
| advance: "label_start s off \<Longrightarrow> NextLabel s off = (off', False) \<Longrightarrow> label_start s off'"

section \<open>Shifting the scanner\<close>

lemma nextLabel_loop_shift:
  "nextLabel_loop r (i + k) q = (case nextLabel_loop r i q of (j, e) \<Rightarrow> (j + k, e))"
  by (induction r i q rule: nextLabel_loop.induct) auto

lemma NextLabel_drop:
  "NextLabel s off = (case NextLabel (drop off s) 0 of (j, e) \<Rightarrow> (j + off, e))"
  unfolding NextLabel_def using nextLabel_loop_shift [of "drop off s" 0 off False] by simp

lemma split_loop_drop: "split_loop s off = map (\<lambda>j. j + off) (split_loop (drop off s) 0)"
proof (induction "length s - off" arbitrary: s off rule: less_induct)
  case less
  obtain j e where n: "NextLabel (drop off s) 0 = (j, e)" by (cases "NextLabel (drop off s) 0")
  show ?case
  proof (cases e)
    case True
    with n show ?thesis
      by (simp add: split_loop.simps [of s off] split_loop.simps [of "drop off s" 0] NextLabel_drop [of s off])
  next
    case False
    with n NextLabel_bounds have j: "0 < j" "j < length s - off" by fastforce+
    have "split_loop s (j + off) = map (\<lambda>k. k + (j + off)) (split_loop (drop (j + off) s) 0)"
      using j by (intro less) simp
    moreover have "split_loop (drop off s) j = map (\<lambda>k. k + j) (split_loop (drop j (drop off s)) 0)"
      using j by (intro less) simp
    ultimately show ?thesis using n False
      by (simp add: split_loop.simps [of s off] split_loop.simps [of "drop off s" 0]
          NextLabel_drop [of s off] add.assoc)
  qed
qed

lemma countLabel_loop_split: "countLabel_loop s off = Suc (length (split_loop s off))"
proof (induction s off rule: countLabel_loop.induct)
  case (1 s off)
  then show ?case
    by (simp add: countLabel_loop.simps [of s off] split_loop.simps [of s off] split: prod.splits)
qed

section \<open>Fully qualified names\<close>

lemma IsFqdn_append_dot: "IsFqdn (s @ ''.'') \<longleftrightarrow> even (trailing_backslashes s)"
  by (simp add: IsFqdn_def Let_def) presburger

lemma IsFqdn_last: "IsFqdn s \<Longrightarrow> \<exists>t. s = t @ ''.''"
  by (auto simp: IsFqdn_def Let_def trimSuffix_def hasSuffix_iff split: if_splits)

lemma not_IsFqdn_Nil [simp]: "\<not> IsFqdn []"
  by (auto dest: IsFqdn_last)

lemma IsFqdn_dot [simp]: "IsFqdn ''.''"
  using IsFqdn_append_dot [of "[]"] by (simp add: trailing_backslashes_def)

lemma trailing_backslashes_dot [simp]:
  "trailing_backslashes (p @ CHR ''.'' # r) = trailing_backslashes r"
  by (simp add: trailing_backslashes_def takeWhile_tail)

lemma IsFqdn_suffix: "r \<noteq> [] \<Longrightarrow> IsFqdn (p @ CHR ''.'' # r) \<longleftrightarrow> IsFqdn r"
proof (cases "\<exists>t. r = t @ ''.''")
  case True
  then obtain t where "r = t @ ''.''" by blast
  then show ?thesis
    using IsFqdn_append_dot [of "p @ CHR ''.'' # t"] by (simp add: IsFqdn_append_dot)
next
  case False
  assume "r \<noteq> []"
  with False have "\<nexists>t. p @ CHR ''.'' # r = t @ ''.''"
    by (metis append_butlast_last_id last_ConsR last_appendR list.distinct(1) last_snoc)
  with False show ?thesis by (meson IsFqdn_last)
qed

lemma nextLabel_loop_found:
  "nextLabel_loop r i q = (j, False) \<Longrightarrow> r ! (j - Suc i) = CHR ''.''"
proof (induction r i q rule: nextLabel_loop.induct)
  case (1 c d r i quote)
  show ?case
  proof (cases "c = CHR ''.'' \<and> \<not> quote")
    case True
    with "1.prems" show ?thesis by auto
  next
    case False
    with "1.prems" obtain q' where "nextLabel_loop (d # r) (Suc i) q' = (j, False)"
      and "(d # r) ! (j - Suc (Suc i)) = CHR ''.''"
      using "1.IH" by (auto split: if_splits)
    moreover from this have "Suc i < j" using nextLabel_loop_bounds by blast
    ultimately show ?thesis by (simp add: nth_Cons' split: if_splits)
  qed
qed simp_all

lemma NextLabel_split:
  assumes "NextLabel s 0 = (j, False)"
  shows "s = take (j - 1) s @ CHR ''.'' # drop j s" and "drop j s \<noteq> []"
proof -
  have b: "0 < j" "j < length s" using NextLabel_bounds [OF assms] by simp_all
  moreover have "s ! (j - 1) = CHR ''.''"
    using assms nextLabel_loop_found [of s 0 False j] by (simp add: NextLabel_def)
  ultimately show "s = take (j - 1) s @ CHR ''.'' # drop j s"
    using id_take_nth_drop [of "j - 1" s] by simp
  show "drop j s \<noteq> []" using b by simp
qed

lemma IsFqdn_NextLabel: "NextLabel s 0 = (j, False) \<Longrightarrow> IsFqdn (drop j s) \<longleftrightarrow> IsFqdn s"
  using IsFqdn_suffix [of "drop j s" "take (j - 1) s"] NextLabel_split [of s j] by auto

section \<open>SplitDomainName and CountLabel\<close>

lemma slice_drop: "slice (drop off s) b e = slice s (b + off) (e + off)"
  by (simp add: slice_def add.commute)

lemma cut_labels_drop:
  "\<forall>e \<in> set idx. 0 < e \<Longrightarrow>
   cut_labels (drop off s) b idx fe = cut_labels s (b + off) (map (\<lambda>e. e + off) idx) (fe + off)"
  by (induction "drop off s" b idx fe rule: cut_labels.induct) (auto simp: slice_drop)

lemma split_loop_pos: "e \<in> set (split_loop s off) \<Longrightarrow> off < e"
proof (induction s off rule: split_loop.induct)
  case (1 s off)
  obtain j b where n: "NextLabel s off = (j, b)" by (cases "NextLabel s off")
  with "1.prems" have b: "\<not> b" and e: "e = j \<or> e \<in> set (split_loop s j)"
    by (auto simp: split_loop.simps [of s off] split: if_splits)
  have "off < j" using n b NextLabel_bounds [of s off j] by simp
  moreover have "e \<in> set (split_loop s j) \<Longrightarrow> j < e" using "1.IH" n b by simp
  ultimately show ?case using e by auto
qed

abbreviation fqdn_end :: "string \<Rightarrow> nat" where
  "fqdn_end s \<equiv> (if IsFqdn s then length s - 1 else length s)"

lemma cut_labels_of: "s \<noteq> [] \<Longrightarrow> cut_labels s 0 (split_loop s 0) (fqdn_end s) = labels_of s"
proof (induction s rule: labels_of.induct)
  case (1 s)
  obtain j e where n: "NextLabel s 0 = (j, e)" by (cases "NextLabel s 0")
  show ?case
  proof (cases e)
    case True
    with n show ?thesis
      by (simp add: split_loop.simps [of s 0] labels_of.simps [of s] strip_root_def slice_def
          butlast_conv_take)
  next
    case False
    note j = n [unfolded False [simplified]]
    have b: "0 < j" "j < length s" and ne: "drop j s \<noteq> []"
      using NextLabel_bounds [of s 0 j] NextLabel_split [of s j] n False by auto
    have fe: "fqdn_end (drop j s) + j = fqdn_end s"
      using IsFqdn_NextLabel [of s j] n False b by auto
    have "cut_labels (drop j s) 0 (split_loop (drop j s) 0) (fqdn_end (drop j s)) = labels_of (drop j s)"
      using "1.IH" n False ne by simp
    moreover have "cut_labels (drop j s) 0 (split_loop (drop j s) 0) (fqdn_end (drop j s)) =
        cut_labels s (0 + j) (map (\<lambda>e. e + j) (split_loop (drop j s) 0)) (fqdn_end (drop j s) + j)"
      using split_loop_pos by (intro cut_labels_drop) blast
    ultimately have "cut_labels s j (split_loop s j) (fqdn_end s) = labels_of (drop j s)"
      by (simp only: fe split_loop_drop [of s j] add_0)
    with n False show ?thesis
      by (simp add: split_loop.simps [of s 0] labels_of.simps [of s] slice_def)
  qed
qed

lemma SplitDomainName_labels: "s \<noteq> [] \<Longrightarrow> s \<noteq> ''.'' \<Longrightarrow> SplitDomainName s = labels_of s"
  using cut_labels_of [of s] by (simp add: SplitDomainName_def Split_def Let_def)

lemma length_labels_of: "length (labels_of s) = countLabel_loop s 0"
proof (induction s rule: labels_of.induct)
  case (1 s)
  obtain j e where n: "NextLabel s 0 = (j, e)" by (cases "NextLabel s 0")
  then show ?case
    using "1.IH" split_loop_drop [of s j]
    by (cases e) (simp_all add: labels_of.simps [of s] split_loop.simps [of s 0] countLabel_loop_split)
qed

lemma CountLabel_labels: "s \<noteq> ''.'' \<Longrightarrow> CountLabel s = length (labels_of s)"
  by (simp add: CountLabel_def length_labels_of)

lemma labels_of_nonempty [simp]: "labels_of s \<noteq> []"
  by (simp add: labels_of.simps [of s] split: prod.splits)

section \<open>The root dot does not change the labels\<close>

fun quote_after :: "string \<Rightarrow> bool \<Rightarrow> bool" where
  "quote_after [] q = q"
| "quote_after (c # r) q = quote_after r (if c = CHR 0x5C then \<not> q else False)"

lemma quote_after_snoc: "quote_after (r @ [c]) q = (c = CHR 0x5C \<and> \<not> quote_after r q)"
  by (induction r arbitrary: q) auto

lemma trailing_backslashes_snoc [simp]:
  "trailing_backslashes (s @ [c]) = (if c = CHR 0x5C then Suc (trailing_backslashes s) else 0)"
  by (simp add: trailing_backslashes_def)

lemma quote_after_odd: "quote_after s False = odd (trailing_backslashes s)"
  by (induction s rule: rev_induct) (auto simp: quote_after_snoc trailing_backslashes_def)

lemma nextLabel_loop_append:
  "nextLabel_loop r i q = (j, False) \<Longrightarrow> nextLabel_loop (r @ t) i q = (j, False)"
  by (induction r i q rule: nextLabel_loop.induct) (auto split: if_splits)

lemma nextLabel_loop_append_dot:
  "r \<noteq> [] \<Longrightarrow> nextLabel_loop r i q = (j, True) \<Longrightarrow>
   nextLabel_loop (r @ ''.'') i q =
     (if last r = CHR ''.'' \<and> \<not> quote_after (butlast r) q then (i + length r, False) else (Suc j, True))"
  by (induction r i q rule: nextLabel_loop.induct) (auto split: if_splits)

lemma NextLabel_append_dot:
  assumes "s \<noteq> []" and "\<not> IsFqdn s"
  shows "NextLabel (s @ ''.'') 0 =
     (case NextLabel s 0 of (j, e) \<Rightarrow> if e then (Suc j, True) else (j, False))"
proof -
  have s: "s = butlast s @ [last s]" using assms(1) by simp
  have "\<not> (last s = CHR ''.'' \<and> \<not> quote_after (butlast s) False)"
    using assms(2) IsFqdn_append_dot [of "butlast s"] s by (auto simp: quote_after_odd)
  then show ?thesis
    using nextLabel_loop_append_dot [OF assms(1), of 0 False] nextLabel_loop_append [of s 0 False]
    by (auto simp: NextLabel_def split: prod.splits)
qed

lemma length_labels_of_dot:
  "s \<noteq> [] \<Longrightarrow> \<not> IsFqdn s \<Longrightarrow> length (labels_of (s @ ''.'')) = length (labels_of s)"
proof (induction s rule: labels_of.induct)
  case (1 s)
  obtain j e where n: "NextLabel s 0 = (j, e)" by (cases "NextLabel s 0")
  show ?case
  proof (cases e)
    case True
    with n "1.prems" show ?thesis
      by (simp add: NextLabel_append_dot labels_of.simps [of s] labels_of.simps [of "s @ ''.''"])
  next
    case False
    with n have ne: "drop j s \<noteq> []" and j: "j < length s"
      using NextLabel_split [of s j] NextLabel_bounds [of s 0 j] by auto
    have "length (labels_of (drop j s @ ''.'')) = length (labels_of (drop j s))"
      using "1.IH" n False ne IsFqdn_NextLabel [of s j] "1.prems"(2) by simp
    with n False "1.prems" j show ?thesis
      by (simp add: NextLabel_append_dot labels_of.simps [of s] labels_of.simps [of "s @ ''.''"])
  qed
qed

lemma CountLabel_Fqdn: "s \<noteq> [] \<Longrightarrow> CountLabel (Fqdn s) = CountLabel s"
  using length_labels_of_dot [of s]
  by (cases "s = ''.''") (auto simp: Fqdn_def CountLabel_labels Cons_eq_append_conv append_eq_Cons_conv)

section \<open>Case folding and label boundaries\<close>

lemma nextLabel_loop_toLower: "nextLabel_loop (toLower r) i q = nextLabel_loop r i q"
  by (induction r i q rule: nextLabel_loop.induct) auto

lemma NextLabel_toLower [simp]: "NextLabel (toLower s) off = NextLabel s off"
  by (simp add: NextLabel_def toLower_drop nextLabel_loop_toLower)

lemma IsFqdn_toLower [simp]: "IsFqdn (toLower s) = IsFqdn s"
proof (cases "\<exists>t. s = t @ ''.''")
  case True
  then obtain t where t: "s = t @ ''.''" by blast
  have tw: "takeWhile (\<lambda>c. c = CHR 0x5C) (map lower_char xs) =
      map lower_char (takeWhile (\<lambda>c. c = CHR 0x5C) xs)" for xs
    by (induction xs) auto
  have "trailing_backslashes (toLower t) = trailing_backslashes t"
    by (simp add: trailing_backslashes_def toLower_def rev_map tw)
  moreover have "toLower s = toLower t @ ''.''" by (simp add: t)
  ultimately show ?thesis by (simp add: t IsFqdn_append_dot)
next
  case False
  then have "\<nexists>t. toLower s = t @ ''.''"
    by (metis (no_types, opaque_lifting) append_butlast_last_id last_map last_snoc list.map_disc_iff
        lower_char_dot snoc_eq_iff_butlast toLower_def)
  with False show ?thesis by (meson IsFqdn_last)
qed

lemma strip_root_toLower: "strip_root (toLower s) = toLower (strip_root s)"
  by (simp add: strip_root_def toLower_def map_butlast IsFqdn_toLower [unfolded toLower_def])

lemma labels_of_toLower: "labels_of (toLower s) = map toLower (labels_of s)"
proof (induction s rule: labels_of.induct)
  case (1 s)
  then show ?case
    by (simp add: labels_of.simps [of s] labels_of.simps [of "toLower s"] strip_root_toLower
        toLower_take toLower_drop split: prod.splits)
qed

lemma label_start_bound: "label_start s off \<Longrightarrow> off = 0 \<or> off < length s"
  by (induction rule: label_start.induct) (auto dest: NextLabel_bounds)

text \<open>A label start cuts a name into the labels before it, joined by dots, and a suffix that is
  itself a name.\<close>

lemma label_start_cut:
  "label_start s off \<Longrightarrow>
   \<exists>pre. labels_of s = pre @ labels_of (drop off s) \<and>
         s = concat (map (\<lambda>l. l @ ''.'') pre) @ drop off s"
proof (induction rule: label_start.induct)
  case (start s)
  show ?case by (intro exI [of _ "[]"]) simp
next
  case (advance s off off')
  then obtain pre where pre: "labels_of s = pre @ labels_of (drop off s)"
    "s = concat (map (\<lambda>l. l @ ''.'') pre) @ drop off s" by blast
  obtain j where j: "NextLabel (drop off s) 0 = (j, False)" "off' = j + off"
    using advance.hyps(2) by (auto simp: NextLabel_drop [of s off] split: prod.splits)
  let ?l = "take (j - 1) (drop off s)"
  have l1: "labels_of (drop off s) = ?l # labels_of (drop off' s)"
    using j by (simp add: labels_of.simps [of "drop off s"] add.commute)
  have l2: "drop off s = ?l @ ''.'' @ drop off' s"
    using NextLabel_split(1) [OF j(1)] j(2) by (simp add: add.commute)
  have "concat (map (\<lambda>l. l @ ''.'') (pre @ [?l])) @ drop off' s =
      concat (map (\<lambda>l. l @ ''.'') pre) @ (?l @ ''.'' @ drop off' s)" by simp
  also have "\<dots> = concat (map (\<lambda>l. l @ ''.'') pre) @ drop off s" by (simp only: l2 [symmetric])
  also have "\<dots> = s" by (simp only: pre(2) [symmetric])
  finally show ?case using pre(1) l1 by (intro exI [of _ "pre @ [?l]"]) simp
qed

end
