(* ===== verification/NetIP.thy ===== *)
theory NetIP
  imports GoStrings
begin

unbundle bit_operations_syntax

text \<open>
  Go's \<open>net.IP\<close>: a byte slice of length 4 or 16 (or empty, the nil address) with the operations the
  server calls: \<open>To4\<close>, \<open>Mask\<close>, \<open>IsLoopback\<close>, \<open>String\<close> and \<open>net.ParseIP\<close>, written out as the Go 1.12
  to 1.16 library has them (\<open>strings.ReplaceAll\<close> needs 1.12; from 1.17 on a number with a leading
  zero is refused). \<open>To4\<close> of a 16-byte address is a sub-slice of it, so an assignment through the
  result changes the address; \<open>set_ip4_last\<close> is that assignment.
\<close>

type_synonym byte = "8 word"
type_synonym ip = "byte list"

section \<open>Operations\<close>

definition v4InV6Prefix :: ip where
  "v4InV6Prefix = [0, 0, 0, 0, 0, 0, 0, 0, 0, 0, 0xff, 0xff]"

definition To4 :: "ip \<Rightarrow> ip option" where
  "To4 ip = (if length ip = 4 then Some ip
             else if length ip = 16 \<and> take 12 ip = v4InV6Prefix then Some (drop 12 ip)
             else None)"

text \<open>\<open>ip4[3] = b\<close> for \<open>ip4 := ip.To4()\<close>, as an update of the array behind \<open>ip\<close>.\<close>

definition set_ip4_last :: "ip \<Rightarrow> byte \<Rightarrow> ip" where
  "set_ip4_last ip b = (if length ip = 4 then ip[3 := b] else ip[15 := b])"

definition CIDRMask48 :: "byte list" where
  "CIDRMask48 = replicate 6 0xff @ replicate 10 0"

definition Mask :: "ip \<Rightarrow> byte list \<Rightarrow> ip" where
  "Mask ip msk =
     (let msk = (if length msk = 16 \<and> length ip = 4 \<and> take 12 msk = replicate 12 0xff
                  then drop 12 msk else msk);
          ip = (if length msk = 4 \<and> length ip = 16 \<and> take 12 ip = v4InV6Prefix
                then drop 12 ip else ip)
      in if length ip \<noteq> length msk then [] else map2 (AND) ip msk)"

definition IsLoopback :: "ip \<Rightarrow> bool" where
  "IsLoopback ip =
     (case To4 ip of Some ip4 \<Rightarrow> ip4 ! 0 = 127 | None \<Rightarrow> ip = replicate 15 0 @ [1])"

section \<open>Printing\<close>

definition hex_digit :: "nat \<Rightarrow> char" where
  "hex_digit d = (if d < 10 then char_of (48 + d) else char_of (87 + d))"

fun hex_of :: "nat \<Rightarrow> string" where
  "hex_of n = (if n < 16 then [hex_digit n] else hex_of (n div 16) @ [hex_digit (n mod 16)])"

declare hex_of.simps [simp del]

definition hexString :: "byte list \<Rightarrow> string" where
  "hexString bs = concat (map (\<lambda>b. [hex_digit (unat b div 16), hex_digit (unat b mod 16)]) bs)"

definition dotted :: "byte list \<Rightarrow> string" where
  "dotted bs = join ''.'' (map (\<lambda>b. utoa (unat b)) bs)"

definition groups :: "ip \<Rightarrow> nat list" where
  "groups ip = map (\<lambda>i. unat (ip ! (2 * i)) * 256 + unat (ip ! (2 * i + 1))) [0..<8]"

text \<open>The search for the longest run of zero groups: \<open>i\<close> is the group index, \<open>(e0, e1)\<close> the best
  run so far, counted in groups (the library counts bytes, two to a group).\<close>

definition zero_run :: "nat list \<Rightarrow> nat \<Rightarrow> nat" where
  "zero_run gs i = i + length (takeWhile (\<lambda>g. g = 0) (drop i gs))"

function longest_run :: "nat list \<Rightarrow> nat \<Rightarrow> int \<Rightarrow> int \<Rightarrow> int \<times> int" where
  "longest_run gs i e0 e1 =
     (if 8 \<le> i then (e0, e1)
      else let j = zero_run gs i
           in if i < j \<and> e1 - e0 < int j - int i then longest_run gs (Suc j) (int i) (int j)
              else longest_run gs (Suc i) e0 e1)"
  by pat_completeness auto
termination
  by (relation "measure (\<lambda>(gs, i, e0, e1). 8 - i)") auto

declare longest_run.simps [simp del]

definition ip6_string :: "nat list \<Rightarrow> string" where
  "ip6_string gs =
     (case longest_run gs 0 (-1) (-1) of (e0, e1) \<Rightarrow>
        if e1 - e0 \<le> 1 then join '':'' (map hex_of gs)
        else join '':'' (map hex_of (take (nat e0) gs)) @ ''::'' @
             join '':'' (map hex_of (drop (nat e1) gs)))"

definition IP_String :: "ip \<Rightarrow> string" where
  "IP_String ip =
     (if ip = [] then ''<nil>''
      else case To4 ip of
        Some p4 \<Rightarrow> dotted p4
      | None \<Rightarrow> if length ip \<noteq> 16 then CHR ''?'' # hexString ip else ip6_string (groups ip))"

section \<open>Addresses with a port\<close>

definition joinHostPort :: "string \<Rightarrow> string \<Rightarrow> string" where
  "joinHostPort host port =
     (if contains_char host (CHR '':'') then ''['' @ host @ '']:'' @ port else host @ '':'' @ port)"

text \<open>The error texts of \<open>net.SplitHostPort\<close>.\<close>

definition addr_error :: "string \<Rightarrow> string \<Rightarrow> string" where
  "addr_error hostport why = (if hostport = [] then why else ''address '' @ hostport @ '': '' @ why)"

definition missingPort :: string where "missingPort = ''missing port in address''"
definition tooManyColons :: string where "tooManyColons = ''too many colons in address''"

definition split_rest :: "string \<Rightarrow> nat \<Rightarrow> string \<Rightarrow> nat \<Rightarrow> nat \<Rightarrow> string + string \<times> string" where
  "split_rest hostport i host j k =
     (if contains_char (drop j hostport) (CHR ''['') then Inl (addr_error hostport (''unexpected '' @ [CHR 0x27, CHR ''['', CHR 0x27] @ '' in address''))
      else if contains_char (drop k hostport) (CHR '']'') then Inl (addr_error hostport (''unexpected '' @ [CHR 0x27, CHR '']'', CHR 0x27] @ '' in address''))
      else Inr (host, drop (i + 1) hostport))"

definition SplitHostPort :: "string \<Rightarrow> string + string \<times> string" where
  "SplitHostPort hostport =
     (let i = lastIndex hostport (CHR '':'')
      in if i < 0 then Inl (addr_error hostport missingPort)
         else if hostport ! 0 = CHR ''['' then
           let e = indexOf hostport '']''
           in if e < 0 then Inl (addr_error hostport (''missing '' @ [CHR 0x27, CHR '']'', CHR 0x27] @ '' in address''))
              else if e + 1 = int (length hostport) then Inl (addr_error hostport missingPort)
              else if e + 1 = i then split_rest hostport (nat i) (take (nat e - 1) (drop 1 hostport)) 1 (nat e + 1)
              else if hostport ! nat (e + 1) = CHR '':'' then Inl (addr_error hostport tooManyColons)
              else Inl (addr_error hostport missingPort)
         else if contains_char (take (nat i) hostport) (CHR '':'') then Inl (addr_error hostport tooManyColons)
         else split_rest hostport (nat i) (take (nat i) hostport) 0 0)"

section \<open>Parsing\<close>

fun dtoi_loop :: "string \<Rightarrow> nat \<Rightarrow> nat \<Rightarrow> nat \<times> nat \<times> bool" where
  "dtoi_loop [] n i = (n, i, i \<noteq> 0)"
| "dtoi_loop (c # s) n i =
     (if is_digit c then
        (let n' = n * 10 + digit_val c
         in if 0xFFFFFF \<le> n' then (0xFFFFFF, i, False) else dtoi_loop s n' (Suc i))
      else (n, i, i \<noteq> 0))"

definition dtoi :: "string \<Rightarrow> nat \<times> nat \<times> bool" where
  "dtoi s = dtoi_loop s 0 0"

text \<open>The loop of \<open>parseIPv4\<close>: \<open>k\<close> numbers are left to read, \<open>p\<close> holds those read.\<close>

fun parseIPv4_loop :: "nat \<Rightarrow> string \<Rightarrow> byte list \<Rightarrow> (string \<times> byte list) option" where
  "parseIPv4_loop 0 s p = Some (s, p)"
| "parseIPv4_loop (Suc k) s p =
     (if s = [] then None
      else if p \<noteq> [] \<and> hd s \<noteq> CHR ''.'' then None
      else let s = (if p \<noteq> [] then tl s else s)
           in case dtoi s of (n, c, ok) \<Rightarrow>
                if \<not> ok \<or> 0xFF < n then None
                else parseIPv4_loop k (drop c s) (p @ [word_of_nat n]))"

definition parseIPv4 :: "string \<Rightarrow> ip option" where
  "parseIPv4 s =
     (case parseIPv4_loop 4 s [] of
        None \<Rightarrow> None
      | Some (s', p) \<Rightarrow> if s' \<noteq> [] then None else Some (v4InV6Prefix @ p))"

definition hex_val :: "char \<Rightarrow> nat option" where
  "hex_val c =
     (let n = (of_char c :: nat)
      in if 48 \<le> n \<and> n \<le> 57 then Some (n - 48)
         else if 97 \<le> n \<and> n \<le> 102 then Some (n - 87)
         else if 65 \<le> n \<and> n \<le> 70 then Some (n - 55)
         else None)"

fun xtoi_loop :: "string \<Rightarrow> nat \<Rightarrow> nat \<Rightarrow> nat \<times> nat \<times> bool" where
  "xtoi_loop [] n i = (n, i, i \<noteq> 0)"
| "xtoi_loop (c # s) n i =
     (case hex_val c of
        None \<Rightarrow> (n, i, i \<noteq> 0)
      | Some d \<Rightarrow>
          (let n' = n * 16 + d
           in if 0xFFFFFF \<le> n' then (0, Suc i, False) else xtoi_loop s n' (Suc i)))"

definition xtoi :: "string \<Rightarrow> nat \<times> nat \<times> bool" where
  "xtoi s = xtoi_loop s 0 0"

text \<open>The loop of \<open>parseIPv6\<close>: \<open>k\<close> groups are left, \<open>p\<close> holds the bytes read, \<open>el\<close> the position of
  the ellipsis; the result is the rest of the string, the bytes and the ellipsis.\<close>

fun parseIPv6_loop ::
  "nat \<Rightarrow> string \<Rightarrow> byte list \<Rightarrow> nat option \<Rightarrow> (string \<times> byte list \<times> nat option) option" where
  "parseIPv6_loop 0 s p el = Some (s, p, el)"
| "parseIPv6_loop (Suc k) s p el =
     (case xtoi s of (n, c, ok) \<Rightarrow>
        if \<not> ok \<or> 0xFFFF < n then None
        else if c < length s \<and> s ! c = CHR ''.'' then
          (if (el = None \<and> length p \<noteq> 12) \<or> 16 < length p + 4 then None
           else case parseIPv4 s of None \<Rightarrow> None | Some ip4 \<Rightarrow> Some ([], p @ drop 12 ip4, el))
        else
          let p = p @ [word_of_nat (n div 256), word_of_nat n]; s = drop c s
          in if s = [] then Some (s, p, el)
             else if hd s \<noteq> CHR '':'' \<or> length s = 1 then None
             else let s = tl s
                  in if hd s = CHR '':'' then
                       (if el \<noteq> None then None
                        else if tl s = [] then Some ([], p, Some (length p))
                        else parseIPv6_loop k (tl s) p (Some (length p)))
                     else parseIPv6_loop k s p el)"

definition expand_ellipsis :: "string \<times> byte list \<times> nat option \<Rightarrow> ip option" where
  "expand_ellipsis r =
     (case r of (s, p, el) \<Rightarrow>
        if s \<noteq> [] then None
        else if length p < 16 then
          (case el of None \<Rightarrow> None
           | Some e \<Rightarrow> Some (take e p @ replicate (16 - length p) 0 @ drop e p))
        else if el \<noteq> None then None else Some p)"

definition parseIPv6 :: "string \<Rightarrow> ip option" where
  "parseIPv6 s =
     (if hasPrefix s ''::'' then
        (if length s = 2 then Some (replicate 16 0)
         else Option.bind (parseIPv6_loop 8 (drop 2 s) [] (Some 0)) expand_ellipsis)
      else Option.bind (parseIPv6_loop 8 s [] None) expand_ellipsis)"

definition ParseIP :: "string \<Rightarrow> ip option" where
  "ParseIP s =
     (case dropWhile (\<lambda>c. c \<noteq> CHR ''.'' \<and> c \<noteq> CHR '':'') s of
        [] \<Rightarrow> None
      | c # _ \<Rightarrow> if c = CHR ''.'' then parseIPv4 s else parseIPv6 s)"

section \<open>IPv4 addresses\<close>

lemma To4_length: "To4 ip = Some p \<Longrightarrow> length p = 4"
  by (auto simp: To4_def split: if_splits)

lemma To4_mapped [simp]: "length p = 4 \<Longrightarrow> To4 (v4InV6Prefix @ p) = Some p"
  by (simp add: To4_def v4InV6Prefix_def)

lemma dtoi_loop_digits:
  assumes "list_all is_digit ds" and "t = [] \<or> \<not> is_digit (hd t)"
    and "foldl (\<lambda>n c. 10 * n + digit_val c) n ds < 0xFFFFFF"
  shows "dtoi_loop (ds @ t) n i =
    (foldl (\<lambda>n c. 10 * n + digit_val c) n ds, i + length ds, i + length ds \<noteq> 0)"
  using assms
proof (induction ds arbitrary: n i)
  case Nil
  then show ?case by (cases t) auto
next
  case (Cons c ds)
  have mono: "m \<le> foldl (\<lambda>n c. 10 * n + digit_val c) m xs" for m :: nat and xs
  proof (induction xs arbitrary: m)
    case (Cons x xs)
    have "m \<le> 10 * m + digit_val x" by simp
    also have "\<dots> \<le> foldl (\<lambda>n c. 10 * n + digit_val c) (10 * m + digit_val x) xs" by (rule Cons)
    finally show ?case by simp
  qed simp
  have "10 * n + digit_val c < 0xFFFFFF"
    using mono [of "10 * n + digit_val c" ds] Cons.prems(3) by simp
  with Cons show ?case by (simp add: Let_def mult.commute)
qed

lemma dtoi_utoa:
  "n < 0xFFFFFF \<Longrightarrow> t = [] \<or> \<not> is_digit (hd t) \<Longrightarrow> dtoi (utoa n @ t) = (n, length (utoa n), True)"
  using dtoi_loop_digits [of "utoa n" t 0 0] digits_val_utoa [of n] utoa_digits [of n]
  by (simp add: dtoi_def digits_val_def)

lemma unat_byte_bound: "unat (b :: byte) \<le> 255"
  using unsigned_less [of b, where ?'a = nat] by simp

lemma parseIPv4_loop_utoa:
  assumes "t = [] \<or> \<not> is_digit (hd t)"
  shows "parseIPv4_loop (Suc k) (utoa (unat (b :: byte)) @ t) [] = parseIPv4_loop k t [b]"
    and "p \<noteq> [] \<Longrightarrow>
      parseIPv4_loop (Suc k) (CHR ''.'' # utoa (unat b) @ t) p = parseIPv4_loop k t (p @ [b])"
  using dtoi_utoa [of "unat b" t] assms unat_byte_bound [of b] by (simp_all add: Let_def)

lemma parseIPv4_loop_last:
  "p \<noteq> [] \<Longrightarrow>
   parseIPv4_loop (Suc k) (CHR ''.'' # utoa (unat (b :: byte))) p = parseIPv4_loop k [] (p @ [b])"
  using parseIPv4_loop_utoa(2) [of "[]" p k b] by simp

lemma parseIPv4_dotted: "length p = 4 \<Longrightarrow> parseIPv4 (dotted p) = Some (v4InV6Prefix @ p)"
proof -
  assume "length p = 4"
  then obtain a b c d where p: "p = [a, b, c, d]"
    by (auto simp: length_Suc_conv numeral_eq_Suc)
  have nd: "\<not> is_digit (CHR ''.'')" by (simp add: is_digit_def)
  show ?thesis
    by (simp add: parseIPv4_def p dotted_def numeral_eq_Suc parseIPv4_loop_utoa parseIPv4_loop_last nd
        del: parseIPv4_loop.simps(2))
qed

lemma ParseIP_dotted: "length p = 4 \<Longrightarrow> ParseIP (dotted p) = Some (v4InV6Prefix @ p)"
proof -
  assume len: "length p = 4"
  then obtain a b c d where p: "p = [a, b, c, d]"
    by (auto simp: length_Suc_conv numeral_eq_Suc)
  have "dropWhile (\<lambda>x. x \<noteq> CHR ''.'' \<and> x \<noteq> CHR '':'') (utoa n @ CHR ''.'' # t) = CHR ''.'' # t" for n t
  proof -
    have "\<forall>x \<in> set (utoa n). x \<noteq> CHR ''.'' \<and> x \<noteq> CHR '':''"
      using utoa_chars by (auto simp: is_digit_def dest!: utoa_chars)
    then show ?thesis by (simp add: dropWhile_append2)
  qed
  then show ?thesis
    using parseIPv4_dotted [OF len] by (simp add: ParseIP_def p dotted_def)
qed

lemma IP_String_mapped: "length p = 4 \<Longrightarrow> IP_String (v4InV6Prefix @ p) = dotted p"
  by (simp add: IP_String_def v4InV6Prefix_def To4_def)

lemma set_ip4_last_To4: "To4 ip = Some p \<Longrightarrow> To4 (set_ip4_last ip b) = Some (p[3 := b])"
  by (auto simp: To4_def set_ip4_last_def drop_update_swap split: if_splits)

lemma set_ip4_last_length [simp]: "length (set_ip4_last ip b) = length ip"
  by (simp add: set_ip4_last_def)

lemma hex_digit_no_slash: "d < 16 \<Longrightarrow> hex_digit d \<noteq> CHR ''/''"
proof -
  assume "d < 16"
  then have "(of_char (hex_digit d) :: nat) \<noteq> 47" by (auto simp: hex_digit_def)
  then show ?thesis by auto
qed

lemma hex_of_no_slash: "CHR ''/'' \<notin> set (hex_of n)"
proof (induction n rule: hex_of.induct)
  case (1 n)
  have "CHR ''/'' \<noteq> hex_digit (n mod 16)" using hex_digit_no_slash [of "n mod 16"] by simp
  with 1 show ?case using hex_digit_no_slash [of n] by (cases "n < 16") (auto simp: hex_of.simps [of n])
qed

lemma hexString_no_slash: "CHR ''/'' \<notin> set (hexString bs)"
proof -
  have "unat b div 16 < 16" for b :: byte using unat_byte_bound [of b] by simp
  then have "hex_digit (unat b div 16) \<noteq> CHR ''/''" "hex_digit (unat b mod 16) \<noteq> CHR ''/''" for b :: byte
    by (simp_all add: hex_digit_no_slash)
  then show ?thesis by (auto simp: hexString_def) (metis)+
qed

lemma ip6_string_no_slash: "CHR ''/'' \<notin> set (ip6_string gs)"
proof -
  have j: "CHR ''/'' \<notin> set (join '':'' (map hex_of xs))" for xs
    by (rule join_no_char) (simp_all add: hex_of_no_slash)
  show ?thesis by (cases "longest_run gs 0 (-1) (-1)") (simp add: ip6_string_def j)
qed

lemma hex_of_nonempty: "hex_of n \<noteq> []"
  by (simp add: hex_of.simps [of n])

lemma IP_String_nonempty: "IP_String ip \<noteq> []"
proof -
  have "dotted p \<noteq> []" if "To4 ip = Some p" for p
    using To4_length [OF that] by (cases p) (simp_all add: dotted_def join_nonempty)
  moreover have "ip6_string (groups ip) \<noteq> []"
    by (simp add: ip6_string_def groups_def upt_rec hex_of_nonempty split: prod.split)
  ultimately show ?thesis by (auto simp: IP_String_def split: option.split)
qed

lemma IP_String_no_slash: "CHR ''/'' \<notin> set (IP_String ip)"
proof -
  have "CHR ''/'' \<notin> set (dotted p)" for p
    unfolding dotted_def by (rule join_no_char) (simp_all add: utoa_no_slash)
  then show ?thesis
    by (auto simp: IP_String_def ip6_string_no_slash hexString_no_slash split: option.split)
qed

end
