(* ===== verification/DnsMsg.thy ===== *)
theory DnsMsg
  imports DnsNames NetIP
begin

text \<open>
  Resource records and messages of the vendored \<open>miekg/dns\<close> library, with the types the server
  builds (\<open>types.go\<close>, \<open>edns.go\<close>, \<open>msg.go\<close>, \<open>defaults.go\<close>), and the request multiplexer of
  \<open>serve_mux.go\<close>. A handler is an abstract value of type \<open>'h\<close>: the multiplexer only stores and
  returns it.
\<close>

type_synonym uint16 = "16 word"
type_synonym uint32 = "32 word"

section \<open>Record types and codes\<close>

definition TypeA :: uint16 where "TypeA = 1"
definition TypeNS :: uint16 where "TypeNS = 2"
definition TypeMF :: uint16 where "TypeMF = 4"
definition TypeCNAME :: uint16 where "TypeCNAME = 5"
definition TypeSOA :: uint16 where "TypeSOA = 6"
definition TypePTR :: uint16 where "TypePTR = 12"
definition TypeMX :: uint16 where "TypeMX = 15"
definition TypeTXT :: uint16 where "TypeTXT = 16"
definition TypeAAAA :: uint16 where "TypeAAAA = 28"
definition TypeSRV :: uint16 where "TypeSRV = 33"
definition TypeOPT :: uint16 where "TypeOPT = 41"
definition TypeDS :: uint16 where "TypeDS = 43"
definition TypeSPF :: uint16 where "TypeSPF = 99"
definition TypeANY :: uint16 where "TypeANY = 255"
definition ClassINET :: uint16 where "ClassINET = 1"

lemmas rrtype_defs = TypeA_def TypeNS_def TypeMF_def TypeCNAME_def TypeSOA_def TypePTR_def
  TypeMX_def TypeTXT_def TypeAAAA_def TypeSRV_def TypeOPT_def TypeDS_def TypeSPF_def TypeANY_def

definition RcodeSuccess :: int where "RcodeSuccess = 0"
definition RcodeServerFailure :: int where "RcodeServerFailure = 2"
definition RcodeNameError :: int where "RcodeNameError = 3"
definition RcodeRefused :: int where "RcodeRefused = 5"
definition OpcodeQuery :: int where "OpcodeQuery = 0"

lemmas rcode_defs = RcodeSuccess_def RcodeServerFailure_def RcodeNameError_def RcodeRefused_def

section \<open>Records\<close>

record rr_header =
  Name :: string
  Rrtype :: uint16
  Class :: uint16
  Ttl :: uint32
  Rdlength :: uint16

record edns0_subnet =
  Family :: uint16
  SourceNetmask :: byte
  SourceScope :: byte
  Address :: ip

datatype edns0 = EDNS0_SUBNET edns0_subnet | EDNS0_NSID string | EDNS0_OTHER uint16 "byte list"

datatype rr =
    RR_A (rr_hdr: rr_header) ip
  | RR_AAAA (rr_hdr: rr_header) ip
  | RR_PTR (rr_hdr: rr_header) string
  | RR_MX (rr_hdr: rr_header) (Mx: string) (Preference: uint16)
  | RR_SRV (rr_hdr: rr_header) (Priority: uint16) (SrvWeight: uint16) (Port: uint16) (SrvTarget: string)
  | RR_CNAME (rr_hdr: rr_header) (CnameTarget: string)
  | RR_MF (rr_hdr: rr_header) (Mf: string)
  | RR_NS (rr_hdr: rr_header) (NsName: string)
  | RR_TXT (rr_hdr: rr_header) "string list"
  | RR_SPF (rr_hdr: rr_header) "string list"
  | RR_SOA (rr_hdr: rr_header) (SoaNs: string) (Mbox: string) (Serial: uint32) uint32 uint32 uint32 uint32
  | RR_OPT (rr_hdr: rr_header) (OptOptions: "edns0 list")

definition set_hdr :: "rr_header \<Rightarrow> rr \<Rightarrow> rr" where
  "set_hdr h r = (case r of
      RR_A _ a \<Rightarrow> RR_A h a
    | RR_AAAA _ a \<Rightarrow> RR_AAAA h a
    | RR_PTR _ p \<Rightarrow> RR_PTR h p
    | RR_MX _ m p \<Rightarrow> RR_MX h m p
    | RR_SRV _ p w po t \<Rightarrow> RR_SRV h p w po t
    | RR_CNAME _ t \<Rightarrow> RR_CNAME h t
    | RR_MF _ m \<Rightarrow> RR_MF h m
    | RR_NS _ n \<Rightarrow> RR_NS h n
    | RR_TXT _ t \<Rightarrow> RR_TXT h t
    | RR_SPF _ t \<Rightarrow> RR_SPF h t
    | RR_SOA _ n m s a b c d \<Rightarrow> RR_SOA h n m s a b c d
    | RR_OPT _ opts \<Rightarrow> RR_OPT h opts)"

text \<open>\<open>rr.Header().Name = n\<close> and \<open>rr.Header().Ttl = t\<close>.\<close>

definition set_name :: "string \<Rightarrow> rr \<Rightarrow> rr" where
  "set_name n r = set_hdr ((rr_hdr r)\<lparr>Name := n\<rparr>) r"

definition set_ttl :: "uint32 \<Rightarrow> rr \<Rightarrow> rr" where
  "set_ttl t r = set_hdr ((rr_hdr r)\<lparr>Ttl := t\<rparr>) r"

section \<open>Messages\<close>

record question =
  Qname :: string
  Qtype :: uint16
  Qclass :: uint16

record msg =
  Id :: uint16
  Response :: bool
  Opcode :: int
  Authoritative :: bool
  RecursionDesired :: bool
  CheckingDisabled :: bool
  Rcode :: int
  Question :: "question list"
  Answer :: "rr list"
  Ns :: "rr list"
  Extra :: "rr list"

definition new_msg :: msg where
  "new_msg = \<lparr>Id = 0, Response = False, Opcode = 0, Authoritative = False, RecursionDesired = False,
     CheckingDisabled = False, Rcode = 0, Question = [], Answer = [], Ns = [], Extra = []\<rparr>"

definition SetReply :: "msg \<Rightarrow> msg \<Rightarrow> msg" where
  "SetReply m request =
     (let m = m\<lparr>Id := Id request, Response := True, Opcode := Opcode request\<rparr>;
          m = (if Opcode m = OpcodeQuery
               then m\<lparr>RecursionDesired := RecursionDesired request,
                      CheckingDisabled := CheckingDisabled request\<rparr>
               else m);
          m = m\<lparr>Rcode := RcodeSuccess\<rparr>
      in case Question request of [] \<Rightarrow> m | q # _ \<Rightarrow> m\<lparr>Question := [q]\<rparr>)"

definition SetRcode :: "msg \<Rightarrow> msg \<Rightarrow> int \<Rightarrow> msg" where
  "SetRcode m request rcode = (SetReply m request)\<lparr>Rcode := rcode\<rparr>"

definition HandleFailed :: "msg \<Rightarrow> msg" where
  "HandleFailed request = SetRcode new_msg request RcodeServerFailure"

section \<open>The multiplexer\<close>

text \<open>The table \<open>z\<close> of a \<open>ServeMux\<close>, keyed by fully qualified patterns.\<close>

type_synonym 'h mux = "(string \<times> 'h) list"

definition mux_Handle :: "string \<Rightarrow> 'h \<Rightarrow> 'h mux \<Rightarrow> 'h mux go" where
  "mux_Handle pattern h z =
     (if pattern = [] then Inl (Panic ''dns: invalid pattern '') else Inr (map_put (Fqdn pattern) h z))"

definition mux_HandleRemove :: "string \<Rightarrow> 'h mux \<Rightarrow> 'h mux go" where
  "mux_HandleRemove pattern z =
     (if pattern = [] then Inl (Panic ''dns: invalid pattern '') else Inr (map_del (Fqdn pattern) z))"

text \<open>The search loop of \<open>match\<close> from offset \<open>off\<close>; \<open>h\<close> is the handler variable that a DS query
  accumulates. The result tells whether the loop returned (\<open>Inl\<close>) or fell through.\<close>

function match_loop :: "'h mux \<Rightarrow> string \<Rightarrow> uint16 \<Rightarrow> nat \<Rightarrow> 'h option \<Rightarrow> 'h + 'h option" where
  "match_loop z q t off h =
     (case (if t \<noteq> TypeDS then map_of z (drop off q) else None) of
        Some h' \<Rightarrow> Inl h'
      | None \<Rightarrow>
          let h2 = (case map_of z (drop off q) of Some h' \<Rightarrow> Some h' | None \<Rightarrow> h)
          in case NextLabel q off of (off', end) \<Rightarrow>
               if end then Inr h2 else match_loop z q t off' h2)"
  by pat_completeness auto
termination
  by (relation "measure (\<lambda>(z, q, t, off, h). length q - off)") (auto dest: NextLabel_bounds_sym)

declare match_loop.simps [simp del]

definition mux_match :: "'h mux \<Rightarrow> string \<Rightarrow> uint16 \<Rightarrow> 'h option" where
  "mux_match z q t =
     (case match_loop z (toLower q) t 0 None of
        Inl h \<Rightarrow> Some h
      | Inr h \<Rightarrow> (case map_of z ''.'' of Some h' \<Rightarrow> Some h' | None \<Rightarrow> h))"

section \<open>Lemmas on messages\<close>

lemma rr_hdr_set_hdr [simp]: "rr_hdr (set_hdr h r) = h"
  by (cases r) (simp_all add: set_hdr_def)

lemma set_hdr_set_hdr [simp]: "set_hdr h (set_hdr h' r) = set_hdr h r"
  by (cases r) (simp_all add: set_hdr_def)

lemma set_name_simps [simp]:
  "Name (rr_hdr (set_name n r)) = n" "Rrtype (rr_hdr (set_name n r)) = Rrtype (rr_hdr r)"
  "Ttl (rr_hdr (set_name n r)) = Ttl (rr_hdr r)"
  by (simp_all add: set_name_def)

lemma set_ttl_simps [simp]:
  "Ttl (rr_hdr (set_ttl t r)) = t" "Rrtype (rr_hdr (set_ttl t r)) = Rrtype (rr_hdr r)"
  "Name (rr_hdr (set_ttl t r)) = Name (rr_hdr r)"
  by (simp_all add: set_ttl_def)

lemma SetReply_simps [simp]:
  "Id (SetReply m r) = Id r" "Response (SetReply m r)" "Rcode (SetReply m r) = RcodeSuccess"
  "Answer (SetReply m r) = Answer m" "Ns (SetReply m r) = Ns m" "Extra (SetReply m r) = Extra m"
  "Authoritative (SetReply m r) = Authoritative m" "Opcode (SetReply m r) = Opcode r"
  by (simp_all add: SetReply_def Let_def split: list.splits)

section \<open>Lemmas on the multiplexer\<close>

lemma match_loop_Inl:
  "match_loop z q t off h = Inl h' \<Longrightarrow> label_start q off \<Longrightarrow>
   \<exists>off'. label_start q off' \<and> map_of z (drop off' q) = Some h'"
proof (induction z q t off h rule: match_loop.induct)
  case (1 z q t off h)
  show ?case
  proof (cases "t \<noteq> TypeDS \<and> map_of z (drop off q) \<noteq> None")
    case True
    with "1.prems" show ?thesis
      by (auto simp: match_loop.simps [of z q t off h])
  next
    case False
    obtain j e where n: "NextLabel q off = (j, e)" by (cases "NextLabel q off")
    with False "1.prems"(1) have e: "\<not> e"
      and rec: "match_loop z q t j (case map_of z (drop off q) of Some h' \<Rightarrow> Some h' | None \<Rightarrow> h) = Inl h'"
      by (auto simp: match_loop.simps [of z q t off h] Let_def split: if_splits option.splits)
    with n "1.prems"(2) have "label_start q j" by (auto intro: label_start.advance)
    then show ?thesis using "1.IH" False n e rec by (auto split: option.splits)
  qed
qed

end
