(* ===== verification/TypeUtil.thy ===== *)
theory TypeUtil
  imports Complex_Main GoStrings
begin

text \<open>
  Package \<open>typeutil\<close>: conversions of decoded JSON values. \<open>json\<close> is what \<open>encoding/json\<close> decodes
  into an \<open>interface{}\<close>; a number is a \<open>float64\<close>, which is a rational (JSON has no infinities
  and no NaN). \<open>fmtFloat\<close>, the shortest decimal text of a \<open>float64\<close>, is a parameter.
\<close>

datatype json =
    JNull
  | JBool bool
  | JNum rat
  | JStr string
  | JArr "json list"
  | JObj "(string \<times> json) list"

type_synonym jobject = "(string \<times> json) list"

text \<open>The conversion \<open>int(f)\<close> of a \<open>float64\<close>: it truncates; out of range it gives the least
  \<open>int\<close>, as amd64 does.\<close>

definition int_of_float :: "rat \<Rightarrow> int" where
  "int_of_float q = (let t = (if 0 \<le> q then \<lfloor>q\<rfloor> else \<lceil>q\<rceil>) in if int64 t then t else - (2 ^ 63))"

fun ToBool :: "json \<Rightarrow> bool go" where
  "ToBool (JBool b) = Inr b"
| "ToBool (JStr s) = Inr (s = ''true'' \<or> s = ''1'')"
| "ToBool (JNum q) = Inr (0 < q)"
| "ToBool _ = Inl (Panic ''Cant convert value'')"

fun ToString :: "(rat \<Rightarrow> string) \<Rightarrow> json \<Rightarrow> string go" where
  "ToString fmtFloat (JStr s) = Inr s"
| "ToString fmtFloat (JNum q) = Inr (fmtFloat q)"
| "ToString fmtFloat _ = Inl (Panic ''Cant convert value'')"

fun ToInt :: "json \<Rightarrow> int go" where
  "ToInt (JStr s) =
     (case atoi s of None \<Rightarrow> Inl (Panic ''Error converting weight to integer'') | Some i \<Rightarrow> Inr i)"
| "ToInt (JNum q) = Inr (int_of_float q)"
| "ToInt _ = Inl (Panic ''Cant convert value'')"

text \<open>Type assertions \<open>v.(T)\<close> in the form without \<open>ok\<close>.\<close>

definition as_string :: "json \<Rightarrow> string go" where
  "as_string v = (case v of JStr s \<Rightarrow> Inr s | _ \<Rightarrow> Inl TypeAssertion)"

definition as_bool :: "json \<Rightarrow> bool go" where
  "as_bool v = (case v of JBool b \<Rightarrow> Inr b | _ \<Rightarrow> Inl TypeAssertion)"

definition as_object :: "json \<Rightarrow> jobject go" where
  "as_object v = (case v of JObj m \<Rightarrow> Inr m | _ \<Rightarrow> Inl TypeAssertion)"

text \<open>Indexing a JSON object: a missing key reads as \<open>nil\<close>.\<close>

definition jget :: "jobject \<Rightarrow> string \<Rightarrow> json" where
  "jget m k = map_get m k JNull"

section \<open>Lemmas\<close>

lemma int64_int_of_float: "int64 (int_of_float q)"
  by (simp add: int_of_float_def Let_def int64_def)

lemma ToInt_int64: "ToInt v = Inr i \<Longrightarrow> int64 i"
  by (cases v) (auto simp: int64_int_of_float atoi_def Let_def split: option.splits if_splits)

lemma int_of_float_of_int: "int64 i \<Longrightarrow> int_of_float (of_int i) = i"
  by (simp add: int_of_float_def)

text \<open>The two ways a configuration writes an integer, as a number or as its decimal text, are
  read alike.\<close>

lemma ToInt_string_number: "int64 i \<Longrightarrow> ToInt (JStr (itoa i)) = ToInt (JNum (of_int i))"
  by (simp add: atoi_itoa int_of_float_of_int)

end
