(* ===== verification/Health.thy ===== *)
theory Health
  imports TypeUtil
begin

text \<open>
  Package \<open>health\<close>: status values, the registry of status files, the periodic reload of a
  directory of status files (\<open>status.go\<close>, \<open>status_file.go\<close>) and references to health checks
  (\<open>health.go\<close>). The registry is an explicit state; each method holds the mutex while it touches
  the map, so the model runs whole methods. What the file system and \<open>encoding/json\<close> return for
  a file is an argument: a decoded status file is a map whose values are classified by the kind
  of JSON literal.
\<close>

section \<open>Directory listings\<close>

text \<open>An entry of \<open>ioutil.ReadDir\<close> and the filter both directory readers apply.\<close>

record file_info =
  fi_Name :: string
  fi_IsDir :: bool
  fi_ModTime :: int

definition skip_file :: "file_info \<Rightarrow> bool" where
  "skip_file file =
     (\<not> hasSuffix (toLower (fi_Name file)) ''.json'' \<or>
      hasPrefix (path_Base (fi_Name file)) ''.'' \<or> fi_IsDir file)"

definition base_name :: "file_info \<Rightarrow> string" where
  "base_name file = take (nat (lastIndex (fi_Name file) (CHR ''.''))) (fi_Name file)"

definition config_names :: "file_info list \<Rightarrow> string set" where
  "config_names dir = base_name ` {f \<in> set dir. \<not> skip_file f}"

section \<open>Status values\<close>

type_synonym status_type = "8 word"

definition StatusUnknown :: status_type where "StatusUnknown = 0"
definition StatusUnhealthy :: status_type where "StatusUnhealthy = 1"
definition StatusHealthy :: status_type where "StatusHealthy = 2"

lemmas status_defs = StatusUnknown_def StatusUnhealthy_def StatusHealthy_def

definition StatusType_String :: "status_type \<Rightarrow> string" where
  "StatusType_String st =
     (if st = StatusHealthy then ''healthy''
      else if st = StatusUnhealthy then ''unhealthy''
      else if st = StatusUnknown then ''unknown''
      else ''status='' @ utoa (unat st))"

section \<open>Status files\<close>

text \<open>\<open>StatusFileData\<close> maps a check to a \<open>*Service\<close>, a pointer that is nil for a JSON \<open>null\<close>.\<close>

type_synonym status_file_data = "(string \<times> status_type option) list"

record status_file =
  sf_filename :: string
  sf_m :: "status_file_data option"

datatype service_json = SvcNull | SvcInt int | SvcOther

datatype status_content = ReadError string | ContentError string | ContentNull | ContentMap "(string \<times> service_json) list"

type_synonym status_fs = "string \<Rightarrow> status_content"

definition NewStatusFile :: "string \<Rightarrow> status_file" where
  "NewStatusFile filename = \<lparr>sf_filename = filename, sf_m = Some []\<rparr>"

text \<open>\<open>Service.UnmarshalJSON\<close>: an \<open>int64\<close>, converted to the 8-bit \<open>StatusType\<close>.\<close>

definition UnmarshalJSON :: "service_json \<Rightarrow> status_type option" where
  "UnmarshalJSON b = (case b of SvcInt i \<Rightarrow> if int64 i then Some (word_of_int i) else None | _ \<Rightarrow> None)"

text \<open>\<open>json.Unmarshal\<close> into a \<open>StatusFileData\<close>; \<open>None\<close> is an error. A \<open>null\<close> value does not reach
  \<open>UnmarshalJSON\<close>: it sets the pointer to nil.\<close>

fun unmarshal_services :: "(string \<times> service_json) list \<Rightarrow> status_file_data option" where
  "unmarshal_services [] = Some []"
| "unmarshal_services ((k, v) # kvs) =
     (case (if v = SvcNull then Some None else map_option Some (UnmarshalJSON v)) of
        None \<Rightarrow> None
      | Some st \<Rightarrow> map_option (\<lambda>m. (k, st) # m) (unmarshal_services kvs))"

definition Load :: "status_fs \<Rightarrow> string \<Rightarrow> status_file \<Rightarrow> status_file \<times> string option" where
  "Load fs filename s =
     (case fs filename of
        ReadError err \<Rightarrow> (s, Some err)
      | ContentError err \<Rightarrow> (s, Some err)
      | ContentNull \<Rightarrow> (s\<lparr>sf_m := None\<rparr>, None)
      | ContentMap kvs \<Rightarrow>
          (case unmarshal_services kvs of
             None \<Rightarrow> (s, Some ''json: cannot unmarshal'')
           | Some n \<Rightarrow> (s\<lparr>sf_m := Some n\<rparr>, None)))"

definition Reload :: "status_fs \<Rightarrow> status_file \<Rightarrow> status_file \<times> string option" where
  "Reload fs s = (if 0 < length (sf_filename s) then Load fs (sf_filename s) s else (s, None))"

definition sf_Close :: "status_file \<Rightarrow> status_file" where
  "sf_Close s = s\<lparr>sf_m := None\<rparr>"

definition sf_GetStatus :: "status_file \<Rightarrow> string \<Rightarrow> status_type go" where
  "sf_GetStatus s check =
     (case sf_m s of
        None \<Rightarrow> Inr StatusUnknown
      | Some m \<Rightarrow>
          (case map_of m check of
             None \<Rightarrow> Inr StatusUnknown
           | Some None \<Rightarrow> Inl NilDeref
           | Some (Some st) \<Rightarrow> Inr st))"

section \<open>The registry\<close>

type_synonym registry = "(string \<times> status_file) list"

definition registry_Add :: "string \<Rightarrow> status_file \<Rightarrow> registry \<Rightarrow> registry" where
  "registry_Add name status r = map_put name status r"

definition GetStatus :: "registry \<Rightarrow> string \<Rightarrow> status_type go" where
  "GetStatus r name =
     (let check = splitN2 (CHR ''/'') name
      in if length check \<noteq> 2 then Inr StatusUnknown
         else case map_of r (check ! 0) of
                None \<Rightarrow> Inr StatusUnknown
              | Some status \<Rightarrow> sf_GetStatus status (check ! 1))"

text \<open>One file of the listing; the state is the registry, the names seen and \<open>parseErr\<close>.\<close>

definition reload_file ::
  "status_fs \<Rightarrow> string \<Rightarrow> file_info \<Rightarrow> registry \<times> string list \<times> string option \<Rightarrow>
   registry \<times> string list \<times> string option" where
  "reload_file fs dir file st =
     (case st of (r, seen, parseErr) \<Rightarrow>
        if skip_file file then st
        else let statusName = base_name file; seen = statusName # seen
             in case map_of r statusName of
                  Some s \<Rightarrow> (map_put statusName (fst (Reload fs s)) r, seen, parseErr)
                | None \<Rightarrow>
                    (case Reload fs (NewStatusFile (path_Join dir (fi_Name file))) of (s, err) \<Rightarrow>
                       (registry_Add statusName s r, seen, if err \<noteq> None then err else parseErr)))"

text \<open>The loop that closes and deletes what was not seen. Deletion while ranging over a Go map is
  well defined: an entry deleted is not visited again.\<close>

definition drop_unseen :: "string list \<Rightarrow> registry \<Rightarrow> registry" where
  "drop_unseen seen r = filter (\<lambda>e. List.member seen (fst e)) r"

definition reloadDirectory ::
  "status_fs \<Rightarrow> string \<Rightarrow> string + file_info list \<Rightarrow> registry \<Rightarrow> registry \<times> string option" where
  "reloadDirectory fs dir listing r =
     (case listing of
        Inl err \<Rightarrow> (r, Some (''could not read '' @ [CHR 0x27] @ dir @ [CHR 0x27] @ '': '' @ err))
      | Inr dirlist \<Rightarrow>
          (case fold (reload_file fs dir) dirlist (r, [], None) of (r', seen, parseErr) \<Rightarrow>
             (drop_unseen seen r', parseErr)))"

text \<open>\<open>DirectoryReader\<close> reloads the directory once a second for ever: the registry after the passes so far, each with the
  files and the listing it finds.\<close>

type_synonym status_pass = "status_fs \<times> (string + file_info list)"

definition DirectoryReader :: "string \<Rightarrow> status_pass list \<Rightarrow> registry \<Rightarrow> registry" where
  "DirectoryReader dir passes r = fold (\<lambda>(fs, listing) r. fst (reloadDirectory fs dir listing r)) passes r"

section \<open>References to health checks\<close>

record health_reference =
  hr_name :: string

definition hr_Name :: "health_reference \<Rightarrow> string \<Rightarrow> string" where
  "hr_Name hr rec = (if 0 < length rec then hr_name hr @ ''/'' @ rec else hr_name hr)"

definition hr_String :: "health_reference \<Rightarrow> string" where
  "hr_String hr = hr_name hr"

definition NewReferenceFromMap ::
  "(rat \<Rightarrow> string) \<Rightarrow> jobject \<Rightarrow> (string + health_reference) go" where
  "NewReferenceFromMap fmtFloat i =
     go_bind (case map_of i ''type'' of Some ti \<Rightarrow> ToString fmtFloat ti | None \<Rightarrow> Inr []) (\<lambda>ts.
     go_bind (case map_of i ''name'' of Some ni \<Rightarrow> ToString fmtFloat ni | None \<Rightarrow> Inr []) (\<lambda>name.
       let name = (if length name = 0 then ts else name)
       in if length name = 0 then Inr (Inl ''name or type required'')
          else Inr (Inr \<lparr>hr_name = name\<rparr>)))"

section \<open>Lemmas\<close>

lemma GetStatus_no_slash: "CHR ''/'' \<notin> set name \<Longrightarrow> GetStatus r name = Inr StatusUnknown"
  by (simp add: GetStatus_def splitN2_cases)

lemma GetStatus_slash:
  "CHR ''/'' \<notin> set reg \<Longrightarrow>
   GetStatus r (reg @ ''/'' @ check) =
     (case map_of r reg of None \<Rightarrow> Inr StatusUnknown | Some s \<Rightarrow> sf_GetStatus s check)"
proof -
  assume a: "CHR ''/'' \<notin> set reg"
  then have "\<And>x. x \<in> set reg \<Longrightarrow> x \<noteq> CHR ''/''" by auto
  then have "splitN2 (CHR ''/'') (reg @ ''/'' @ check) = [reg, check]"
    by (simp add: splitN2_cases takeWhile_append2 dropWhile_append2)
  then show ?thesis by (simp add: GetStatus_def split: option.split)
qed

lemma Load_error_keeps: "Load fs f s = (s', Some e) \<Longrightarrow> s' = s"
  by (auto simp: Load_def split: status_content.splits option.splits)

lemma Reload_error_keeps: "Reload fs s = (s', Some e) \<Longrightarrow> s' = s"
  by (auto simp: Reload_def dest: Load_error_keeps split: if_splits)

lemma Reload_filename: "sf_filename (fst (Reload fs s)) = sf_filename s"
  by (auto simp: Reload_def Load_def split: status_content.splits option.splits)

lemma fold_reload_keys:
  "fold (reload_file fs dir) fl (r, seen, e) = (r', seen', e') \<Longrightarrow>
   set (keys r') = set (keys r) \<union> config_names fl \<and> set seen' = set seen \<union> config_names fl"
proof (induction fl arbitrary: r seen e)
  case Nil
  then show ?case by (simp add: config_names_def)
next
  case (Cons f fl)
  obtain r1 s1 e1 where step: "reload_file fs dir f (r, seen, e) = (r1, s1, e1)"
    by (metis prod_cases3)
  have split: "config_names (f # fl) = (if skip_file f then {} else {base_name f}) \<union> config_names fl"
    by (auto simp: config_names_def)
  have "set (keys r1) = set (keys r) \<union> (if skip_file f then {} else {base_name f})"
    and "set s1 = set seen \<union> (if skip_file f then {} else {base_name f})"
    using step by (auto simp: reload_file_def registry_Add_def Let_def split: if_splits option.splits prod.splits)
  then show ?case using Cons.IH [of r1 s1 e1] Cons.prems step split by auto
qed

lemma drop_unseen_map_of: "map_of (drop_unseen seen r) k = (if k \<in> set seen then map_of r k else None)"
  by (induction r) (auto simp: drop_unseen_def)

lemma Reload_idem: "fst (Reload fs (fst (Reload fs s))) = fst (Reload fs s)"
  by (auto simp: Reload_def Load_def split: status_content.splits option.splits)

lemma fold_reload_known:
  assumes "map_of r name = Some s \<or> map_of r name = Some (fst (Reload fs s))"
    and "fold (reload_file fs dir) fl (r, seen, e) = (r', seen', e')"
  shows "map_of r' name = (if name \<in> config_names fl then Some (fst (Reload fs s)) else map_of r name)"
  using assms
proof (induction fl arbitrary: r seen e)
  case Nil
  then show ?case by (simp add: config_names_def)
next
  case (Cons f fl)
  obtain r1 s1 e1 where step: "reload_file fs dir f (r, seen, e) = (r1, s1, e1)"
    by (metis prod_cases3)
  have r1: "map_of r1 name = (if \<not> skip_file f \<and> base_name f = name then Some (fst (Reload fs s)) else map_of r name)"
    using step Cons.prems(1)
    by (auto simp: reload_file_def registry_Add_def Reload_idem Let_def split: if_splits option.splits prod.splits)
  with Cons.IH [of r1 s1 e1] Cons.prems step show ?case
    by (auto simp: config_names_def split: if_splits)
qed

lemma reloadDirectory_known:
  assumes "reloadDirectory fs dir (Inr fl) r = (r', e)" and "map_of r name = Some s"
    and "name \<in> config_names fl"
  shows "map_of r' name = Some (fst (Reload fs s))"
proof -
  obtain r1 seen e1 where f: "fold (reload_file fs dir) fl (r, [], None) = (r1, seen, e1)"
    by (metis prod_cases3)
  with assms fold_reload_known [of r name s fs dir fl "[]" None r1 seen e1]
    fold_reload_keys [OF f]
  show ?thesis by (auto simp: reloadDirectory_def drop_unseen_map_of)
qed

lemma unmarshal_services_lookup:
  "unmarshal_services kvs = Some m \<Longrightarrow> map_of kvs check = Some (SvcInt i) \<Longrightarrow> map_of m check = Some (Some (word_of_int i))"
  "unmarshal_services kvs = Some m \<Longrightarrow> map_of kvs check = Some SvcNull \<Longrightarrow> map_of m check = Some None"
  by (induction kvs arbitrary: m)
    (auto simp: UnmarshalJSON_def split: if_splits option.splits service_json.splits)

lemma reload_then_status:
  assumes "reloadDirectory fs dir (Inr fl) r = (r', e)" and "map_of r name = Some s"
    and "name \<in> config_names fl" and "CHR ''/'' \<notin> set name" and "sf_filename s \<noteq> []"
    and "fs (sf_filename s) = ContentMap kvs" and "unmarshal_services kvs = Some m"
  shows "GetStatus r' (name @ ''/'' @ check) = sf_GetStatus (s\<lparr>sf_m := Some m\<rparr>) check"
  using reloadDirectory_known [OF assms(1-3)] assms(4-7)
  by (simp add: GetStatus_slash [simplified] Reload_def Load_def)

section \<open>The loop of reloads\<close>

text \<open>What a pass does to one name: nothing if the directory cannot be listed; otherwise it is forgotten when no file has it,
  reloaded when it is known, and loaded from the first file with that name when it is new.\<close>

definition status_of_name :: "string \<Rightarrow> string \<Rightarrow> file_info list \<Rightarrow> status_file" where
  "status_of_name dir name fl =
     (case find (\<lambda>f. \<not> skip_file f \<and> base_name f = name) fl of
        Some f \<Rightarrow> NewStatusFile (path_Join dir (fi_Name f)) | None \<Rightarrow> NewStatusFile [])"

definition spec_pass :: "string \<Rightarrow> string \<Rightarrow> status_pass \<Rightarrow> status_file option \<Rightarrow> status_file option" where
  "spec_pass dir name p cur =
     (case p of (fs, Inl err) \<Rightarrow> cur
      | (fs, Inr fl) \<Rightarrow> if name \<in> config_names fl
          then Some (fst (Reload fs (case cur of Some s \<Rightarrow> s | None \<Rightarrow> status_of_name dir name fl))) else None)"

lemma fold_reload_new:
  assumes "map_of r name = None" and "fold (reload_file fs dir) fl (r, seen, e) = (r', seen', e')"
  shows "map_of r' name = (if name \<in> config_names fl then Some (fst (Reload fs (status_of_name dir name fl))) else None)"
  using assms
proof (induction fl arbitrary: r seen e)
  case Nil
  then show ?case by (simp add: config_names_def)
next
  case (Cons f fl)
  obtain r1 s1 e1 where step: "reload_file fs dir f (r, seen, e) = (r1, s1, e1)" by (metis prod_cases3)
  with Cons.prems(2) have rest: "fold (reload_file fs dir) fl (r1, s1, e1) = (r', seen', e')" by simp
  show ?case
  proof (cases "\<not> skip_file f \<and> base_name f = name")
    case True
    then have new: "status_of_name dir name (f # fl) = NewStatusFile (path_Join dir (fi_Name f))" "name \<in> config_names (f # fl)"
      by (auto simp: status_of_name_def config_names_def)
    have "map_of r1 name = Some (fst (Reload fs (NewStatusFile (path_Join dir (fi_Name f)))))"
      using step True Cons.prems(1) by (auto simp: reload_file_def Let_def registry_Add_def split: prod.splits)
    with fold_reload_known [OF _ rest, of name "NewStatusFile (path_Join dir (fi_Name f))"] show ?thesis by (simp add: new)
  next
    case False
    then have "status_of_name dir name (f # fl) = status_of_name dir name fl" "name \<in> config_names (f # fl) \<longleftrightarrow> name \<in> config_names fl"
      by (auto simp: status_of_name_def config_names_def)
    moreover have "map_of r1 name = None"
      using step False Cons.prems(1)
      by (auto simp: reload_file_def Let_def registry_Add_def split: if_splits option.splits prod.splits)
    ultimately show ?thesis using Cons.IH [OF _ rest] by simp
  qed
qed

lemma reloadDirectory_spec: "map_of (fst (reloadDirectory fs dir listing r)) name = spec_pass dir name (fs, listing) (map_of r name)"
proof (cases listing)
  case (Inr fl)
  obtain r1 seen e1 where f: "fold (reload_file fs dir) fl (r, [], None) = (r1, seen, e1)" by (metis prod_cases3)
  have "map_of r1 name = spec_pass dir name (fs, listing) (map_of r name)" if "name \<in> config_names fl"
    using that fold_reload_new [OF _ f, of name] fold_reload_known [OF _ f, of name]
    by (cases "map_of r name") (simp_all add: spec_pass_def Inr)
  with fold_reload_keys [OF f] show ?thesis
    by (simp add: reloadDirectory_def Inr f drop_unseen_map_of spec_pass_def)
qed (simp add: reloadDirectory_def spec_pass_def)

section \<open>Lookups that do not panic\<close>

definition registry_total :: "registry \<Rightarrow> bool" where
  "registry_total reg \<longleftrightarrow> (\<forall>name. go_ok (GetStatus reg name))"

definition file_total :: "status_file \<Rightarrow> bool" where
  "file_total s \<longleftrightarrow> (\<forall>m. sf_m s = Some m \<longrightarrow> list_all (\<lambda>(check, st). st \<noteq> None) m)"

definition no_nulls :: "status_fs \<Rightarrow> bool" where
  "no_nulls fs \<longleftrightarrow> (\<forall>f kvs. fs f = ContentMap kvs \<longrightarrow> list_all (\<lambda>(check, v). v \<noteq> SvcNull) kvs)"

lemma registry_totalI: "(\<And>n s. map_of r n = Some s \<Longrightarrow> file_total s) \<Longrightarrow> registry_total r"
proof -
  assume t: "\<And>n s. map_of r n = Some s \<Longrightarrow> file_total s"
  have "go_ok (sf_GetStatus s check)" if "file_total s" for s check
    using that by (fastforce simp: file_total_def sf_GetStatus_def list_all_iff dest: map_of_SomeD split: option.splits)
  with t show ?thesis by (auto simp: registry_total_def GetStatus_def Let_def split: option.split)
qed

lemma unmarshal_services_total:
  "unmarshal_services kvs = Some m \<Longrightarrow> list_all (\<lambda>(check, v). v \<noteq> SvcNull) kvs \<Longrightarrow> list_all (\<lambda>(check, st). st \<noteq> None) m"
  by (induction kvs arbitrary: m) (auto split: if_splits option.splits)

lemma Reload_total: "no_nulls fs \<Longrightarrow> file_total s \<Longrightarrow> file_total (fst (Reload fs s))"
  by (auto simp: Reload_def Load_def file_total_def no_nulls_def dest: unmarshal_services_total
    split: status_content.splits option.splits)

lemma spec_pass_total:
  assumes "no_nulls fs" and "\<And>s. cur = Some s \<Longrightarrow> file_total s" and "spec_pass dir name (fs, listing) cur = Some s"
  shows "file_total s"
proof -
  have "file_total (status_of_name dir name fl)" for fl
    by (simp add: status_of_name_def file_total_def NewStatusFile_def split: option.split)
  with assms show ?thesis by (auto simp: spec_pass_def Reload_total split: sum.splits if_splits option.splits)
qed

text \<open>While no status file has a null status, no lookup panics.\<close>

lemma DirectoryReader_total:
  assumes "list_all (no_nulls \<circ> fst) passes"
  shows "registry_total (DirectoryReader dir passes [])"
proof -
  have "\<forall>n s. map_of (DirectoryReader dir passes r) n = Some s \<longrightarrow> file_total s"
    if "\<forall>n s. map_of r n = Some s \<longrightarrow> file_total s" for r
    using assms that
  proof (induction passes arbitrary: r)
    case (Cons p passes)
    obtain fs listing where p: "p = (fs, listing)" by (cases p)
    have "\<forall>n s. map_of (fst (reloadDirectory fs dir listing r)) n = Some s \<longrightarrow> file_total s"
      using Cons.prems spec_pass_total [of fs "map_of r _" dir _ listing] by (auto simp: reloadDirectory_spec p)
    with Cons show ?case by (simp add: DirectoryReader_def p)
  qed (simp add: DirectoryReader_def)
  from this [of "[]"] show ?thesis by (intro registry_totalI) auto
qed

section \<open>Properties\<close>

text \<open>C31. The loop of \<open>DirectoryReader\<close> keeps the registry in step with the directory: after any number of passes the entry of
  a name is what the passes make of that name alone. A pass that cannot list the directory changes nothing; otherwise a
  name without a visible \<open>.json\<close> file is forgotten, a known one is reloaded from the file it was first loaded from, keeping
  its data when that fails, and a new one is loaded from the first file of that name.\<close>

theorem directory_reader_refines:
  "map_of (DirectoryReader dir passes r) name = fold (spec_pass dir name) passes (map_of r name)"
proof (induction passes arbitrary: r)
  case (Cons p passes)
  then show ?case by (cases p) (simp add: DirectoryReader_def reloadDirectory_spec)
qed (simp add: DirectoryReader_def)

text \<open>After a reload of the health directory that could be listed, the registry holds a status
  file for exactly the visible \<open>.json\<close> files of the directory.\<close>

theorem health_reload_sync:
  assumes "reloadDirectory fs dir (Inr fl) r = (r', e)"
  shows "set (keys r') = config_names fl"
proof -
  obtain r1 seen e1 where f: "fold (reload_file fs dir) fl (r, [], None) = (r1, seen, e1)"
    by (metis prod_cases3)
  have "set (keys (drop_unseen seen r1)) = set (keys r1) \<inter> set seen"
    by (auto simp: drop_unseen_def keys_def)
  with assms f fold_reload_keys [OF f] show ?thesis by (auto simp: reloadDirectory_def)
qed

definition sample_status_file :: status_file where
  "sample_status_file = \<lparr>sf_filename = ''h/test.json'', sf_m = Some [(''old'', Some 2)]\<rparr>"

definition sample_dir :: "file_info list" where
  "sample_dir = [\<lparr>fi_Name = ''test.json'', fi_IsDir = False, fi_ModTime = 0\<rparr>,
                 \<lparr>fi_Name = ''README'', fi_IsDir = False, fi_ModTime = 0\<rparr>]"

lemma sample_dir_names: "config_names sample_dir = {''test''}"
proof -
  have s: "skip_file \<lparr>fi_Name = ''test.json'', fi_IsDir = False, fi_ModTime = 0\<rparr> = False"
    "skip_file \<lparr>fi_Name = ''README'', fi_IsDir = False, fi_ModTime = 0\<rparr> = True" by code_simp+
  have b: "base_name \<lparr>fi_Name = ''test.json'', fi_IsDir = False, fi_ModTime = 0\<rparr> = ''test''" by code_simp
  have "{f \<in> set sample_dir. \<not> skip_file f} = {\<lparr>fi_Name = ''test.json'', fi_IsDir = False, fi_ModTime = 0\<rparr>}"
    using s by (auto simp: sample_dir_def)
  with b show ?thesis by (simp add: config_names_def)
qed

theorem health_reload_sync_witness:
  "\<exists>r' e. reloadDirectory (\<lambda>_. ContentError ''bad'') ''h'' (Inr sample_dir) [(''gone'', sample_status_file)] = (r', e) \<and>
     set (keys r') = {''test''}"
  using health_reload_sync [of "\<lambda>_. ContentError ''bad''" "''h''" sample_dir "[(''gone'', sample_status_file)]"]
    sample_dir_names by (metis surj_pair)

text \<open>A reload of a status file that cannot be read or decoded keeps the status data loaded
  before; the file stays registered.\<close>

theorem health_reload_keeps_old:
  assumes "reloadDirectory fs dir (Inr fl) r = (r', e)" and "map_of r name = Some s"
    and "name \<in> config_names fl" and "snd (Reload fs s) \<noteq> None"
  shows "map_of r' name = Some s"
  using reloadDirectory_known [OF assms(1-3)] assms(4) Reload_error_keeps [of fs s]
  by (metis not_None_eq prod.collapse)

theorem health_reload_keeps_old_witness:
  "\<exists>r' e. reloadDirectory (\<lambda>_. ContentError ''bad'') ''h'' (Inr sample_dir) [(''test'', sample_status_file)] = (r', e) \<and>
     map_of r' ''test'' = Some sample_status_file"
proof -
  obtain r' e where r: "reloadDirectory (\<lambda>_. ContentError ''bad'') ''h'' (Inr sample_dir)
      [(''test'', sample_status_file)] = (r', e)" by (metis surj_pair)
  show ?thesis
    using health_reload_keeps_old [OF r, of "''test''" sample_status_file] r sample_dir_names
    by (simp add: Reload_def Load_def sample_status_file_def)
qed

text \<open>C37. For a name that was registered before, the status of \<open>name/check\<close> after a reload is the number the file of that name gives for
  the check, reduced to eight bits.\<close>

theorem health_status_after_reload:
  assumes "reloadDirectory fs dir (Inr fl) r = (r', e)" and "map_of r name = Some s"
    and "name \<in> config_names fl" and "CHR ''/'' \<notin> set name" and "sf_filename s \<noteq> []"
    and "fs (sf_filename s) = ContentMap kvs" and "unmarshal_services kvs = Some m"
    and "map_of kvs check = Some (SvcInt i)"
  shows "GetStatus r' (name @ ''/'' @ check) = Inr (word_of_int i)"
  using reload_then_status [OF assms(1-7)] unmarshal_services_lookup(1) [OF assms(7,8)]
  by (simp add: sf_GetStatus_def)

theorem health_status_after_reload_witness:
  "\<exists>r' e. reloadDirectory (\<lambda>_. ContentMap [(''ukn'', SvcInt 0), (''bad'', SvcInt 1), (''good'', SvcInt 2)]) ''h''
       (Inr sample_dir) [(''test'', sample_status_file)] = (r', e) \<and>
     GetStatus r' ''test/bad'' = Inr StatusUnhealthy"
proof -
  let ?fs = "\<lambda>_. ContentMap [(''ukn'', SvcInt 0), (''bad'', SvcInt 1), (''good'', SvcInt 2)]"
  obtain r' e where r: "reloadDirectory ?fs ''h'' (Inr sample_dir) [(''test'', sample_status_file)] = (r', e)"
    by (metis surj_pair)
  show ?thesis
    using health_status_after_reload [OF r, of "''test''" sample_status_file
        "[(''ukn'', SvcInt 0), (''bad'', SvcInt 1), (''good'', SvcInt 2)]"
        "[(''ukn'', Some 0), (''bad'', Some 1), (''good'', Some 2)]" "''bad''" 1]
      r sample_dir_names
    by (simp add: sample_status_file_def UnmarshalJSON_def int64_def status_defs)
qed

text \<open>A status file that gives \<open>null\<close> for a check is accepted, and looking that check up then
  dereferences a nil pointer.\<close>

theorem health_null_status_panics:
  assumes "reloadDirectory fs dir (Inr fl) r = (r', e)" and "map_of r name = Some s"
    and "name \<in> config_names fl" and "CHR ''/'' \<notin> set name" and "sf_filename s \<noteq> []"
    and "fs (sf_filename s) = ContentMap kvs" and "unmarshal_services kvs = Some m"
    and "map_of kvs check = Some SvcNull"
  shows "GetStatus r' (name @ ''/'' @ check) = Inl NilDeref"
  using reload_then_status [OF assms(1-7)] unmarshal_services_lookup(2) [OF assms(7,8)]
  by (simp add: sf_GetStatus_def)

theorem health_null_status_panics_witness:
  "\<exists>r' e. reloadDirectory (\<lambda>_. ContentMap [(''web'', SvcNull)]) ''h''
       (Inr sample_dir) [(''test'', sample_status_file)] = (r', e) \<and>
     GetStatus r' ''test/web'' = Inl NilDeref"
proof -
  let ?fs = "\<lambda>_. ContentMap [(''web'', SvcNull)]"
  obtain r' e where r: "reloadDirectory ?fs ''h'' (Inr sample_dir) [(''test'', sample_status_file)] = (r', e)"
    by (metis surj_pair)
  show ?thesis
    using health_null_status_panics [OF r, of "''test''" sample_status_file
        "[(''web'', SvcNull)]" "[(''web'', None)]" "''web''"] r sample_dir_names
    by (simp add: sample_status_file_def)
qed

end
