(* ===== verification/Targeting.thy ===== *)
theory Targeting
  imports Complex_Main NetIP
begin

unbundle bit_operations_syntax

text \<open>
  Packages \<open>targeting\<close> and \<open>targeting/geo\<close>: which labels a client may be answered from. The
  \<open>geo.Provider\<close> interface is a record of functions; \<open>None\<close> stands for the unset global
  provider. An address is passed by reference in the source (\<open>To4\<close> returns a sub-slice that
  \<open>GetTargets\<close> writes through), so \<open>GetTargets\<close> returns the address as it leaves it. A
  \<open>float64\<close> coordinate is a rational; \<open>angle\<close>, the distance of two points in degrees as the
  vendored \<open>s2\<close> library computes it, is a parameter.
\<close>

section \<open>Package geo\<close>

record location =
  Country :: string
  Continent :: string
  RegionGroup :: string
  Region :: string
  Latitude :: rat
  Longitude :: rat
  Netmask :: int

record geo_provider =
  HasCountry :: "bool \<times> string option"
  GetCountry :: "ip \<Rightarrow> (string \<times> string \<times> int) go"
  HasASN :: "bool \<times> string option"
  GetASN :: "ip \<Rightarrow> (string \<times> int \<times> string option) go"
  HasLocation :: "bool \<times> string option"
  GetLocation :: "ip \<Rightarrow> (location option \<times> string option) go"

definition MAX_DISTANCE :: rat where
  "MAX_DISTANCE = 360"

definition MaxDistance :: "location \<Rightarrow> rat" where
  "MaxDistance l = MAX_DISTANCE"

definition Distance :: "(rat \<times> rat \<Rightarrow> rat \<times> rat \<Rightarrow> rat) \<Rightarrow> location \<Rightarrow> location option \<Rightarrow> rat" where
  "Distance angle l to =
     (case to of
        None \<Rightarrow> MAX_DISTANCE
      | Some p \<Rightarrow> \<bar>angle (Latitude l, Longitude l) (Latitude p, Longitude p)\<bar>)"

section \<open>Target options\<close>

definition TargetGlobal :: int where "TargetGlobal = 1"
definition TargetContinent :: int where "TargetContinent = 2"
definition TargetCountry :: int where "TargetCountry = 4"
definition TargetRegionGroup :: int where "TargetRegionGroup = 8"
definition TargetRegion :: int where "TargetRegion = 16"
definition TargetASN :: int where "TargetASN = 32"
definition TargetIP :: int where "TargetIP = 64"

lemmas target_defs = TargetGlobal_def TargetContinent_def TargetCountry_def TargetRegionGroup_def
  TargetRegion_def TargetASN_def TargetIP_def

text \<open>\<open>t&opt > 0\<close>\<close>

definition has :: "int \<Rightarrow> int \<Rightarrow> bool" where
  "has t opt = (0 < (t AND opt))"

definition add_if :: "bool \<Rightarrow> string \<Rightarrow> string list \<Rightarrow> string list" where
  "add_if b s targets = (if b then targets @ [s] else targets)"

text \<open>The part of \<open>getGeoTargets\<close> after the lookups.\<close>

definition geo_append ::
  "int \<Rightarrow> string \<Rightarrow> string \<Rightarrow> string \<Rightarrow> string \<Rightarrow> string list \<Rightarrow> string list" where
  "geo_append t country continent region regionGroup targets =
     (let targets = add_if (has t TargetRegion \<and> 0 < length region) region targets;
          targets = add_if (has t TargetRegionGroup \<and> 0 < length regionGroup) regionGroup targets;
          targets = add_if (has t TargetCountry \<and> 0 < length country) country targets
      in add_if (has t TargetContinent \<and> 0 < length continent) continent targets)"

definition getGeoTargets ::
  "geo_provider \<Rightarrow> int \<Rightarrow> ip \<Rightarrow> bool \<Rightarrow> (string list \<times> int \<times> location option) go" where
  "getGeoTargets g t ip hasClosest =
     go_bind
       (if has t TargetASN
        then go_bind (GetASN g ip) (\<lambda>(asn, _, err). Inr (add_if (0 < length asn) asn []))
        else Inr [])
       (\<lambda>targets.
          if has t TargetRegion \<or> has t TargetRegionGroup \<or> hasClosest then
            go_bind (GetLocation g ip) (\<lambda>(location, err).
              case location of
                None \<Rightarrow> Inr (targets, 0, None)
              | Some l \<Rightarrow>
                  if err \<noteq> None then Inr (targets, 0, None)
                  else Inr (geo_append t (Country l) (Continent l) (Region l) (RegionGroup l) targets,
                            0, Some l))
          else if has t TargetCountry \<or> has t TargetContinent then
            go_bind (GetCountry g ip) (\<lambda>(country, continent, netmask).
              Inr (geo_append t country continent [] [] targets, netmask, None))
          else Inr (targets, 0, None))"

definition bracket :: "string \<Rightarrow> string" where
  "bracket s = ''['' @ s @ '']''"

text \<open>The first block of \<open>GetTargets\<close>: the targets for the address itself and the address after
  the assignment through \<open>ip4\<close>.\<close>

definition ip_targets :: "ip \<Rightarrow> string list \<times> ip" where
  "ip_targets ip =
     (case To4 ip of
        Some ip4 \<Rightarrow>
          (if ip4 ! 3 \<noteq> 0
           then let ip' = set_ip4_last ip 0
                in ([bracket (IP_String ip), bracket (IP_String (ip4[3 := 0]))], ip')
           else ([bracket (IP_String ip)], ip))
      | None \<Rightarrow> ([bracket (IP_String ip), bracket (IP_String (Mask ip CIDRMask48))], ip))"

definition GetTargets ::
  "geo_provider option \<Rightarrow> int \<Rightarrow> ip \<Rightarrow> bool \<Rightarrow> (string list \<times> int \<times> location option \<times> ip) go" where
  "GetTargets gp t ip hasClosest =
     (let (targets, ip) = (if has t TargetIP then ip_targets ip else ([], ip))
      in go_bind
           (case gp of
              None \<Rightarrow> Inr (targets, 0, None)
            | Some g \<Rightarrow> go_bind (getGeoTargets g t ip hasClosest)
                (\<lambda>(geotargets, netmask, location). Inr (targets @ geotargets, netmask, location)))
           (\<lambda>(targets, netmask, location).
              Inr (add_if (has t TargetGlobal) ''@'' targets, netmask, location, ip)))"

definition TargetOptions_String :: "int \<Rightarrow> string" where
  "TargetOptions_String t =
     (let targets = [];
          targets = add_if (has t TargetGlobal) ''@'' targets;
          targets = add_if (has t TargetContinent) ''continent'' targets;
          targets = add_if (has t TargetCountry) ''country'' targets;
          targets = add_if (has t TargetRegionGroup) ''regiongroup'' targets;
          targets = add_if (has t TargetRegion) ''region'' targets;
          targets = add_if (has t TargetASN) ''asn'' targets;
          targets = add_if (has t TargetIP) ''ip'' targets
      in join '' '' targets)"

text \<open>The \<open>switch\<close> of \<open>ParseTargets\<close>: the option of a word, \<open>None\<close> for the \<open>default\<close> case.\<close>

definition target_of :: "string \<Rightarrow> int option" where
  "target_of t =
     (if t = ''@'' then Some TargetGlobal
      else if t = ''country'' then Some TargetCountry
      else if t = ''continent'' then Some TargetContinent
      else if t = ''regiongroup'' then Some TargetRegionGroup
      else if t = ''region'' then Some TargetRegion
      else if t = ''asn'' then Some TargetASN
      else if t = ''ip'' then Some TargetIP
      else None)"

fun parse_targets_loop :: "string list \<Rightarrow> int \<Rightarrow> string option \<Rightarrow> int \<times> string option" where
  "parse_targets_loop [] tgt err = (tgt, err)"
| "parse_targets_loop (t # ts) tgt err =
     (case target_of t of
        Some x \<Rightarrow> parse_targets_loop ts (tgt OR x) err
      | None \<Rightarrow> parse_targets_loop ts (tgt OR 0)
          (Some (''Unknown targeting option '' @ [CHR 0x27] @ t @ [CHR 0x27])))"

definition ParseTargets :: "string \<Rightarrow> int \<times> string option" where
  "ParseTargets v = parse_targets_loop (split_on (CHR '' '') v) 0 None"

section \<open>Lemmas\<close>

lemma add_if_conv: "add_if b s ts = ts @ (if b then [s] else [])"
  by (simp add: add_if_def)

lemma has_bit: "has t (2 ^ n) = bit t n"
  by (simp add: has_def order.strict_iff_order eq_commute [of 0] and_exp_eq_0_iff_not_bit)

text \<open>Every option a word names is a single bit.\<close>

lemma target_of_power: "target_of w = Some x \<Longrightarrow> \<exists>k. x = 2 ^ k"
proof -
  assume "target_of w = Some x"
  then have "x \<in> (\<lambda>k. 2 ^ k) ` set [0..<7]"
    by (auto simp: target_of_def target_defs upt_rec split: if_splits)
  then show ?thesis by auto
qed

lemma bit_parse_targets_loop:
  "bit (fst (parse_targets_loop ts tgt err)) n \<longleftrightarrow> bit tgt n \<or> (\<exists>w \<in> set ts. target_of w = Some (2 ^ n))"
proof (induction ts arbitrary: tgt err)
  case (Cons w ts)
  show ?case
  proof (cases "target_of w")
    case None
    with Cons show ?thesis by simp
  next
    case (Some x)
    then obtain k where "x = 2 ^ k" using target_of_power by blast
    with Some Cons show ?thesis by (auto simp: bit_simps)
  qed
qed simp

lemma err_parse_targets_loop:
  "snd (parse_targets_loop ts tgt err) = None \<longleftrightarrow> err = None \<and> (\<forall>w \<in> set ts. target_of w \<noteq> None)"
  by (induction ts arbitrary: tgt err) (auto split: option.splits)

text \<open>The printed form lists the words of the bits that are set.\<close>

definition option_words :: "(nat \<times> string) list" where
  "option_words = [(0, ''@''), (1, ''continent''), (2, ''country''), (3, ''regiongroup''), (4, ''region''),
     (5, ''asn''), (6, ''ip'')]"

definition target_words :: "int \<Rightarrow> string list" where
  "target_words t = map snd (filter (\<lambda>(k, w). bit t k) option_words)"

lemma has_option:
  "has t TargetGlobal = bit t 0" "has t TargetContinent = bit t 1" "has t TargetCountry = bit t 2"
  "has t TargetRegionGroup = bit t 3" "has t TargetRegion = bit t 4" "has t TargetASN = bit t 5"
  "has t TargetIP = bit t 6"
  using has_bit [of t 0] has_bit [of t 1] has_bit [of t 2] has_bit [of t 3] has_bit [of t 4] has_bit [of t 5]
    has_bit [of t 6] by (simp_all only: target_defs power_0 power_one_right) simp_all

lemma TargetOptions_String_words: "TargetOptions_String t = join '' '' (target_words t)"
  by (simp add: TargetOptions_String_def target_words_def option_words_def has_option add_if_conv)

lemma target_of_conv: "target_of w = map_option (\<lambda>k. 2 ^ k) (map_of (map prod.swap option_words) w)"
  by (simp add: target_of_def target_defs option_words_def)

lemma target_of_words: "(k, w) \<in> set option_words \<longleftrightarrow> target_of w = Some (2 ^ k)"
proof -
  have "distinct (map fst (map prod.swap option_words))" by (simp add: option_words_def)
  then have "map_of (map prod.swap option_words) w = Some k \<longleftrightarrow> (w, k) \<in> set (map prod.swap option_words)"
    by (rule map_of_eq_Some_iff)
  then show ?thesis by (auto simp: target_of_conv)
qed

lemma mem_target_words: "(\<exists>w \<in> set (target_words t). target_of w = Some (2 ^ n)) \<longleftrightarrow> n < 7 \<and> bit t n"
proof -
  have "(\<exists>w. (n, w) \<in> set option_words) \<longleftrightarrow> n \<in> fst ` set option_words" by force
  also have "fst ` set option_words = {..<7}" by (simp add: option_words_def numeral_eq_Suc lessThan_Suc insert_commute)
  finally have "(\<exists>w. (n, w) \<in> set option_words) \<longleftrightarrow> n < 7" by simp
  moreover have "(\<exists>w \<in> set (target_words t). target_of w = Some (2 ^ n)) \<longleftrightarrow> bit t n \<and> (\<exists>w. (n, w) \<in> set option_words)"
    unfolding target_of_words [symmetric]
  proof
    assume "\<exists>w \<in> set (target_words t). (n, w) \<in> set option_words"
    then obtain w k where "(k, w) \<in> set option_words" "bit t k" "(n, w) \<in> set option_words"
      by (auto simp: target_words_def)
    moreover from this(1,3) have "k = n" by (simp add: target_of_words)
    ultimately show "bit t n \<and> (\<exists>w. (n, w) \<in> set option_words)" by blast
  qed (force simp: target_words_def)
  ultimately show ?thesis by blast
qed

text \<open>The targets a located client gets, as a table of option and name in order of specificity.\<close>

definition located_targets :: "int \<Rightarrow> string \<Rightarrow> location \<Rightarrow> string list" where
  "located_targets t asn l =
     map snd (filter (\<lambda>(opt, s). has t opt \<and> s \<noteq> [])
       [(TargetASN, asn), (TargetRegion, Region l), (TargetRegionGroup, RegionGroup l),
        (TargetCountry, Country l), (TargetContinent, Continent l)])"

lemma getGeoTargets_located:
  assumes "GetASN g ip = Inr (asn, m, e)" and "GetLocation g ip = Inr (Some l, None)"
    and "has t TargetRegion \<or> has t TargetRegionGroup \<or> hasClosest"
  shows "getGeoTargets g t ip hasClosest = Inr (located_targets t asn l, 0, Some l)"
  using assms by (auto simp: getGeoTargets_def geo_append_def located_targets_def add_if_conv Let_def)

lemma GetTargets_geo:
  assumes "getGeoTargets g t (if has t TargetIP then snd (ip_targets ip) else ip) hasClosest = Inr (ts, nm, loc)"
  shows "GetTargets (Some g) t ip hasClosest =
    Inr ((if has t TargetIP then fst (ip_targets ip) else []) @ ts @ (if has t TargetGlobal then [''@''] else []),
         nm, loc, if has t TargetIP then snd (ip_targets ip) else ip)"
  using assms by (cases "ip_targets ip") (auto simp: GetTargets_def add_if_conv)

lemma ip_targets_host:
  assumes "To4 ip = Some ip4" and "ip4 ! 3 \<noteq> 0"
  shows "ip_targets ip = ([bracket (dotted ip4), bracket (dotted (ip4[3 := 0]))], set_ip4_last ip 0)"
    and "ip_targets (set_ip4_last ip 0) = ([bracket (dotted (ip4[3 := 0]))], set_ip4_last ip 0)"
proof -
  have len: "length ip4 = 4" by (rule To4_length [OF assms(1)])
  then have s4: "IP_String (ip4[3 := 0]) = dotted (ip4[3 := 0])"
    by (auto simp: IP_String_def To4_def)
  have str: "IP_String i = dotted p" if "To4 i = Some p" for i p
    using that by (auto simp: IP_String_def To4_def)
  have to4: "To4 (set_ip4_last ip 0) = Some (ip4[3 := 0])"
    by (rule set_ip4_last_To4 [OF assms(1)])
  show "ip_targets ip = ([bracket (dotted ip4), bracket (dotted (ip4[3 := 0]))], set_ip4_last ip 0)"
    using assms s4 by (simp add: ip_targets_def str)
  show "ip_targets (set_ip4_last ip 0) = ([bracket (dotted (ip4[3 := 0]))], set_ip4_last ip 0)"
    using len by (simp add: ip_targets_def to4 str)
qed

section \<open>Properties\<close>

text \<open>C32. Reading back the printed form of any non-empty set of target options gives that set, with
  no error.\<close>

theorem targeting_roundtrip:
  assumes "0 < t" and "t < 128"
  shows "ParseTargets (TargetOptions_String t) = (t, None)"
proof -
  have high: "\<not> bit t n" if "7 \<le> n" for n
  proof -
    have "(2::int) ^ 7 \<le> 2 ^ n" using that by (intro power_increasing) simp_all
    with assms have "t div 2 ^ n = 0" by (intro div_pos_pos_trivial) simp_all
    then show ?thesis by (simp add: bit_iff_odd)
  qed
  have "target_words t \<noteq> []"
  proof
    assume "target_words t = []"
    then have "\<not> (n < 7 \<and> bit t n)" for n using mem_target_words [of t n] by simp
    with high have "bit t n = bit 0 n" for n by (cases "n < 7") auto
    then have "t = 0" by (simp add: bit_eq_iff)
    with assms show False by simp
  qed
  moreover have "\<forall>w \<in> set (target_words t). CHR '' '' \<notin> set w"
    by (auto simp: target_words_def option_words_def split: if_splits)
  ultimately have words: "split_on (CHR '' '') (TargetOptions_String t) = target_words t"
    by (simp add: TargetOptions_String_words split_on_join)
  have "bit (fst (ParseTargets (TargetOptions_String t))) n = bit t n" for n
    using high [of n] by (cases "n < 7") (auto simp: ParseTargets_def words bit_parse_targets_loop mem_target_words)
  moreover have "snd (ParseTargets (TargetOptions_String t)) = None"
    by (auto simp: ParseTargets_def words err_parse_targets_loop target_words_def target_of_words)
  ultimately show ?thesis by (metis bit_eq_iff prod.collapse)
qed

theorem targeting_roundtrip_witness: "ParseTargets (TargetOptions_String 7) = (7, None)"
  by (rule targeting_roundtrip) simp_all

text \<open>\<open>ParseTargets\<close> sets the bit of an option exactly when one of the space-separated words
  names it, also when other words are unknown, and reports an error exactly when some word is
  unknown.\<close>

theorem parse_targets_spec:
  "(\<forall>w x. target_of w = Some x \<longrightarrow>
      (has (fst (ParseTargets v)) x \<longleftrightarrow>
        (\<exists>w' \<in> set (split_on (CHR '' '') v). target_of w' = Some x))) \<and>
   (snd (ParseTargets v) = None \<longleftrightarrow> (\<forall>w \<in> set (split_on (CHR '' '') v). target_of w \<noteq> None))"
proof (intro conjI allI impI)
  fix w x
  assume "target_of w = Some x"
  then obtain k where "x = 2 ^ k" using target_of_power by blast
  then show "has (fst (ParseTargets v)) x \<longleftrightarrow>
      (\<exists>w' \<in> set (split_on (CHR '' '') v). target_of w' = Some x)"
    by (simp add: ParseTargets_def has_bit bit_parse_targets_loop)
qed (simp add: ParseTargets_def err_parse_targets_loop)

theorem parse_targets_spec_witness:
  "has (fst (ParseTargets ''@ foo country'')) TargetCountry \<and> snd (ParseTargets ''@ foo country'') \<noteq> None"
proof -
  have "target_of ''country'' = Some TargetCountry" "target_of ''foo'' = None"
    by (simp_all add: target_of_def)
  moreover have "split_on (CHR '' '') ''@ foo country'' = [''@'', ''foo'', ''country'']" by simp
  ultimately show ?thesis using parse_targets_spec [of "''@ foo country''"] by force
qed

text \<open>C33. For a client whose network and location the provider knows, the targets are those of the
  address, then AS number, region, region group, country and continent, each when requested and
  known, then the global one: from the most to the least specific.\<close>

theorem get_targets_located:
  assumes "ip' = (if has t TargetIP then snd (ip_targets ip) else ip)"
    and "GetASN g ip' = Inr (asn, m, e)" and "GetLocation g ip' = Inr (Some l, None)"
    and "has t TargetRegion \<or> has t TargetRegionGroup \<or> hasClosest"
  shows "GetTargets (Some g) t ip hasClosest =
    Inr ((if has t TargetIP then fst (ip_targets ip) else []) @ located_targets t asn l @
         (if has t TargetGlobal then [''@''] else []), 0, Some l, ip')"
  using GetTargets_geo [of g t ip hasClosest] getGeoTargets_located [OF assms(2-4)] assms(1) by simp

definition sample_location :: location where
  "sample_location = \<lparr>Country = ''us'', Continent = ''north-america'', RegionGroup = ''us-west'',
     Region = ''us-ca'', Latitude = 37, Longitude = -122, Netmask = 0\<rparr>"

definition sample_provider :: geo_provider where
  "sample_provider = \<lparr>HasCountry = (True, None), GetCountry = (\<lambda>_. Inr (''us'', ''north-america'', 16)),
     HasASN = (True, None), GetASN = (\<lambda>_. Inr (''as7012'', 0, None)),
     HasLocation = (True, None), GetLocation = (\<lambda>_. Inr (Some sample_location, None))\<rparr>"

theorem get_targets_located_witness:
  "GetTargets (Some sample_provider) 61 [207, 171, 7, 49] False =
     Inr ([''as7012'', ''us-ca'', ''us-west'', ''us'', ''@''], 0, Some sample_location, [207, 171, 7, 49])"
  using get_targets_located [of "[207, 171, 7, 49]" 61 "[207, 171, 7, 49]" sample_provider "''as7012''" 0 None
      sample_location False]
  by (simp add: has_def target_defs located_targets_def sample_provider_def sample_location_def)

text \<open>C34. With IP targeting, \<open>GetTargets\<close> overwrites the last octet of the client's IPv4 address in
  place: the location lookups see the network address, the caller's address is changed, and a
  second call on it returns every target but that of the client itself.\<close>

theorem get_targets_clears_host:
  assumes "To4 ip = Some ip4" and "ip4 ! 3 \<noteq> 0" and "has t TargetIP"
    and "getGeoTargets g t (set_ip4_last ip 0) hasClosest = Inr (geo, nm, loc)"
  shows "\<exists>ts. GetTargets (Some g) t ip hasClosest =
           Inr (bracket (dotted ip4) # ts, nm, loc, set_ip4_last ip 0) \<and>
         GetTargets (Some g) t (set_ip4_last ip 0) hasClosest = Inr (ts, nm, loc, set_ip4_last ip 0)"
  using GetTargets_geo [of g t ip hasClosest geo nm loc]
    GetTargets_geo [of g t "set_ip4_last ip 0" hasClosest geo nm loc] assms ip_targets_host [OF assms(1,2)]
  by simp

theorem get_targets_clears_host_witness:
  "\<exists>ts. GetTargets (Some sample_provider) 65 [207, 171, 7, 49] False =
       Inr (''[207.171.7.49]'' # ts, 0, None, [207, 171, 7, 0]) \<and>
     GetTargets (Some sample_provider) 65 [207, 171, 7, 0] False = Inr (ts, 0, None, [207, 171, 7, 0])"
proof -
  have geo: "getGeoTargets sample_provider 65 (set_ip4_last [207, 171, 7, 49] 0) False = Inr ([], 0, None)"
    by (simp add: getGeoTargets_def has_def target_defs)
  have str: "bracket (dotted [207, 171, 7, 49]) = ''[207.171.7.49]''" by code_simp
  show ?thesis
    using get_targets_clears_host [OF _ _ _ geo, of "[207, 171, 7, 49]"]
    by (simp add: To4_def has_def target_defs set_ip4_last_def str)
qed

end
