(* ===== verification/GoSort.thy ===== *)
theory GoSort
  imports Prelude
begin

text \<open>
  The interface of \<open>sort.Sort\<close>. Go promises a permutation of the data in which no element is
  \<open>Less\<close> than one before it, and leaves the order of equivalent elements open; the components
  that sort take the routine as an argument and their lemmas rest on the locale \<open>go_sort\<close>. The
  interpretations supply \<open>insertionSort\<close>, the loop of \<open>sort.go\<close> that sorts short slices.
\<close>

section \<open>The interface\<close>

locale go_sort =
  fixes lt :: "'a \<Rightarrow> 'a \<Rightarrow> bool"
    and srt :: "'a list \<Rightarrow> 'a list"
  assumes sort_permutes: "mset (srt xs) = mset xs"
    and sort_orders: "sorted_wrt (\<lambda>x y. \<not> lt y x) (srt xs)"
begin

lemma length_sort [simp]: "length (srt xs) = length xs"
  by (metis sort_permutes size_mset)

lemma set_sort [simp]: "set (srt xs) = set xs"
  by (metis sort_permutes set_mset_mset)

lemma sum_list_sort: "sum_list (map f (srt xs)) = (sum_list (map f xs) :: int)"
  by (metis sort_permutes mset_map sum_mset_sum_list)

lemma sort_prefix_before_rest:
  assumes "x \<in> set (take n (srt xs))" and "y \<in> set (drop n (srt xs))"
  shows "\<not> lt y x"
proof -
  have "sorted_wrt (\<lambda>x y. \<not> lt y x) (take n (srt xs) @ drop n (srt xs))"
    by (simp add: sort_orders)
  then show ?thesis using assms unfolding sorted_wrt_append by blast
qed

end

section \<open>Insertion sort\<close>

text \<open>\<open>for j := i; j > a && Less(j, j-1); j-- { Swap(j, j-1) }\<close> moves an element left over the sorted
  part; the argument of \<open>sink\<close> is that part read from its end.\<close>

fun sink :: "('a \<Rightarrow> 'a \<Rightarrow> bool) \<Rightarrow> 'a \<Rightarrow> 'a list \<Rightarrow> 'a list" where
  "sink lt x [] = [x]"
| "sink lt x (y # ys) = (if lt x y then y # sink lt x ys else x # y # ys)"

definition insertionSort :: "('a \<Rightarrow> 'a \<Rightarrow> bool) \<Rightarrow> 'a list \<Rightarrow> 'a list" where
  "insertionSort lt xs = rev (fold (sink lt) xs [])"

lemma mset_sink: "mset (sink lt x ys) = add_mset x (mset ys)"
  by (induction ys) auto

lemma set_sink: "set (sink lt x ys) = insert x (set ys)"
  by (metis mset_sink set_mset_add_mset_insert set_mset_mset)

lemma mset_fold_sink: "mset (fold (sink lt) xs acc) = mset xs + mset acc"
  by (induction xs arbitrary: acc) (simp_all add: mset_sink)

text \<open>A \<open>Less\<close> that compares a key downwards: both uses of \<open>sort.Sort\<close> in the server are of this
  form.\<close>

definition less_by :: "('a \<Rightarrow> int) \<Rightarrow> 'a \<Rightarrow> 'a \<Rightarrow> bool" where
  "less_by key x y = (key y < key x)"

lemma sorted_sink:
  "sorted_wrt (\<lambda>x y. \<not> less_by key x y) ys \<Longrightarrow> sorted_wrt (\<lambda>x y. \<not> less_by key x y) (sink (less_by key) x ys)"
  by (induction ys) (auto simp: less_by_def set_sink)

lemma sorted_fold_sink:
  "sorted_wrt (\<lambda>x y. \<not> less_by key x y) acc \<Longrightarrow>
   sorted_wrt (\<lambda>x y. \<not> less_by key x y) (fold (sink (less_by key)) xs acc)"
  by (induction xs arbitrary: acc) (simp_all add: sorted_sink)

lemma go_sort_insertionSort: "go_sort (less_by key) (insertionSort (less_by key))"
proof
  show "mset (insertionSort (less_by key) xs) = mset xs" for xs
    by (simp add: insertionSort_def mset_fold_sink)
  show "sorted_wrt (\<lambda>x y. \<not> less_by key y x) (insertionSort (less_by key) xs)" for xs
    using sorted_fold_sink [of key "[]" xs] by (simp add: insertionSort_def sorted_wrt_rev)
qed

interpretation isort: go_sort "less_by key" "insertionSort (less_by key)" for key
  by (rule go_sort_insertionSort)

end
