(* ===== verification/ZoneStats.thy ===== *)
theory ZoneStats
  imports GoSort
begin

text \<open>
  \<open>zones/zone_stats.go\<close>: the ring buffer of the last queried labels of a zone, the counts over it
  and the list of the most frequent labels. The mutex is not modelled: \<open>Reset\<close>, \<open>add\<close>
  and \<open>Counts\<close> hold it for their whole body, so they run one after the other. \<open>Close\<close> does not take it; here too it is one step,
  so a \<open>Close\<close> in the middle of another method is not covered. The lemmas show that the ring holds exactly
  the most recent labels and that the top list neither loses nor invents counts.
\<close>

section \<open>Model\<close>

record zoneLabelStats =
  zs_pos :: nat
  zs_rotated :: bool
  zs_log :: "string list"

record labelStat =
  ls_Label :: string
  ls_Count :: int

definition NewZoneLabelStats :: "int \<Rightarrow> zoneLabelStats go" where
  "NewZoneLabelStats sz =
     (if sz < 0 then Inl MakeSliceLen
      else Inr \<lparr>zs_pos = 0, zs_rotated = False, zs_log = replicate (nat sz) []\<rparr>)"

definition zs_Close :: "zoneLabelStats \<Rightarrow> zoneLabelStats" where
  "zs_Close zs = zs\<lparr>zs_log := []\<rparr>"

definition zs_Reset :: "zoneLabelStats \<Rightarrow> zoneLabelStats" where
  "zs_Reset zs = zs\<lparr>zs_pos := 0, zs_log := replicate (length (zs_log zs)) [], zs_rotated := False\<rparr>"

definition zs_add :: "string \<Rightarrow> zoneLabelStats \<Rightarrow> zoneLabelStats go" where
  "zs_add l zs =
     (if \<not> zs_pos zs < length (zs_log zs) then Inl IndexOutOfRange
      else let zs = zs\<lparr>zs_log := (zs_log zs)[zs_pos zs := l]\<rparr>;
               zs = zs\<lparr>zs_pos := zs_pos zs + 1\<rparr>
           in Inr (if length (zs_log zs) < zs_pos zs + 1
                   then zs\<lparr>zs_rotated := True, zs_pos := 0\<rparr> else zs))"

definition zs_Add :: "string \<Rightarrow> zoneLabelStats \<Rightarrow> zoneLabelStats go" where
  "zs_Add l zs = zs_add l zs"

text \<open>The loop of \<open>Counts\<close> over \<open>range zs.log\<close>, with its \<open>break\<close>; \<open>i\<close> is the index.\<close>

fun counts_loop :: "bool \<Rightarrow> nat \<Rightarrow> nat \<Rightarrow> string list \<Rightarrow> (string \<times> int) list \<Rightarrow> (string \<times> int) list" where
  "counts_loop rotated pos i [] counts = counts"
| "counts_loop rotated pos i (l # ls) counts =
     (if rotated = False \<and> pos \<le> i then counts
      else counts_loop rotated pos (Suc i) ls (map_put l (map_get counts l 0 + 1) counts))"

definition Counts :: "zoneLabelStats \<Rightarrow> (string \<times> int) list" where
  "Counts zs = counts_loop (zs_rotated zs) (zs_pos zs) 0 (zs_log zs) []"

text \<open>\<open>labelStatsByCount.Less\<close>\<close>

definition labelStats_less :: "labelStat \<Rightarrow> labelStat \<Rightarrow> bool" where
  "labelStats_less = less_by ls_Count"

definition TopCounts ::
  "(labelStat list \<Rightarrow> labelStat list) \<Rightarrow> int \<Rightarrow> zoneLabelStats \<Rightarrow> labelStat list go" where
  "TopCounts srt n zs =
     (let cm = Counts zs;
          top = map (\<lambda>(l, c). \<lparr>ls_Label = l, ls_Count = c\<rparr>) cm;
          top = srt top
      in if n < int (length top) then
           (if n < 0 then Inl SliceBounds
            else let others = sum_list (map ls_Count (drop (nat n) top))
                 in Inr (take (nat n) top @ [\<lparr>ls_Label = ''Others'', ls_Count = others\<rparr>]))
         else Inr top)"

section \<open>The ring as a window on the history\<close>

definition last_n :: "nat \<Rightarrow> 'a list \<Rightarrow> 'a list" where
  "last_n n h = drop (length h - n) h"

text \<open>\<open>ring_rep sz h zs\<close>: \<open>zs\<close> has taken the labels \<open>h\<close>, oldest first, since it was empty.\<close>

definition ring_rep :: "nat \<Rightarrow> string list \<Rightarrow> zoneLabelStats \<Rightarrow> bool" where
  "ring_rep sz h zs \<longleftrightarrow>
     0 < sz \<and> length (zs_log zs) = sz \<and> zs_pos zs < sz \<and>
     (if length h < sz then \<not> zs_rotated zs \<and> zs_pos zs = length h \<and> take (length h) (zs_log zs) = h
      else zs_rotated zs \<and> drop (zs_pos zs) (zs_log zs) @ take (zs_pos zs) (zs_log zs) = last_n sz h)"

lemma last_n_snoc: "n \<le> length h \<Longrightarrow> 0 < n \<Longrightarrow> last_n n (h @ [l]) = tl (last_n n h) @ [l]"
  by (simp add: last_n_def Suc_diff_le drop_Suc tl_drop)

lemma ring_rep_new: "0 < sz \<Longrightarrow> NewZoneLabelStats (int sz) = Inr zs \<Longrightarrow> ring_rep sz [] zs"
  by (auto simp: NewZoneLabelStats_def ring_rep_def)

lemma ring_rep_reset: "ring_rep sz h zs \<Longrightarrow> ring_rep sz [] (zs_Reset zs)"
  by (simp add: ring_rep_def zs_Reset_def)

lemma ring_rep_add:
  assumes r: "ring_rep sz h zs"
  shows "\<exists>zs'. zs_add l zs = Inr zs' \<and> ring_rep sz (h @ [l]) zs'"
proof -
  let ?p = "zs_pos zs" and ?g = "zs_log zs"
  have len: "length ?g = sz" "0 < sz" "?p < sz" using r by (auto simp: ring_rep_def)
  have upd: "take (Suc ?p) (?g[?p := l]) = take ?p ?g @ [l]"
    using len by (simp add: take_Suc_conv_app_nth)
  have upd2: "drop (Suc ?p) (?g[?p := l]) = drop (Suc ?p) ?g" by simp
  show ?thesis
  proof (cases "length h < sz")
    case True
    with r have h: "\<not> zs_rotated zs" "?p = length h" "take ?p ?g = h" by (auto simp: ring_rep_def)
    show ?thesis
    proof (cases "Suc ?p < sz")
      case True
      with h len upd show ?thesis by (simp add: zs_add_def ring_rep_def Let_def)
    next
      case False
      with len have "take (Suc ?p) (?g[?p := l]) = ?g[?p := l]" by simp
      with False h len upd show ?thesis
        by (simp add: zs_add_def ring_rep_def Let_def last_n_def)
    qed
  next
    case False
    with r have h: "zs_rotated zs" "drop ?p ?g @ take ?p ?g = last_n sz h" by (auto simp: ring_rep_def)
    have tl: "tl (drop ?p ?g @ take ?p ?g) = drop (Suc ?p) ?g @ take ?p ?g"
      using len by (simp add: drop_Suc tl_drop)
    have new: "drop (Suc ?p) ?g @ take ?p ?g @ [l] = last_n sz (h @ [l])"
      using last_n_snoc [of sz h l] False len h(2) tl by simp
    show ?thesis
    proof (cases "Suc ?p < sz")
      case True
      with h len upd upd2 new False show ?thesis
        by (simp add: zs_add_def ring_rep_def Let_def)
    next
      case c: False
      with len have "take (Suc ?p) (?g[?p := l]) = ?g[?p := l]" by simp
      with upd new c len have "last_n sz (h @ [l]) = ?g[?p := l]" by simp
      with c False h len show ?thesis
        by (simp add: zs_add_def ring_rep_def Let_def)
    qed
  qed
qed

lemma ring_rep_fold:
  "ring_rep sz h zs \<Longrightarrow> \<exists>zs'. go_fold zs_add ls zs = Inr zs' \<and> ring_rep sz (h @ ls) zs'"
proof (induction ls arbitrary: h zs)
  case Nil
  then show ?case by simp
next
  case (Cons l ls)
  obtain zs1 where "zs_add l zs = Inr zs1" "ring_rep sz (h @ [l]) zs1"
    using ring_rep_add [OF Cons.prems] by blast
  then show ?case using Cons.IH [of "h @ [l]" zs1] by auto
qed

section \<open>Counts\<close>

definition count_map :: "string list \<Rightarrow> string \<Rightarrow> int option" where
  "count_map ls l = (if l \<in> set ls then Some (int (count_list ls l)) else None)"

fun tally :: "string list \<Rightarrow> (string \<times> int) list \<Rightarrow> (string \<times> int) list" where
  "tally [] m = m"
| "tally (l # ls) m = tally ls (map_put l (map_get m l 0 + 1) m)"

lemma counts_loop_tally:
  "counts_loop r pos i ls m = tally (if r then ls else take (pos - i) ls) m"
  by (induction r pos i ls m rule: counts_loop.induct) (auto simp: take_Cons' Suc_diff_Suc)

lemma map_of_tally:
  "map_of (tally ls m) l =
     (if l \<in> set ls then Some (map_get m l 0 + int (count_list ls l)) else map_of m l)"
proof (induction ls arbitrary: m)
  case (Cons a ls)
  then show ?case by (auto simp: map_get_def split: option.splits)
qed simp

lemma distinct_tally: "distinct (keys m) \<Longrightarrow> distinct (keys (tally ls m))"
  by (induction ls arbitrary: m) simp_all

lemma sum_map_put:
  "distinct (keys m) \<Longrightarrow>
   sum_list (map snd (map_put k v m)) = sum_list (map snd m) + v - (map_get m k 0 :: int)"
proof (induction m)
  case (Cons e m)
  have "k \<notin> set (keys m) \<Longrightarrow> map_get m k 0 = (0 :: int)"
    by (simp add: map_get_def map_of_eq_None_keys [THEN iffD2])
  with Cons show ?case by (cases e) (auto simp: map_get_def)
qed (simp add: map_get_def)

lemma sum_tally:
  "distinct (keys m) \<Longrightarrow> sum_list (map snd (tally ls m)) = sum_list (map snd m) + int (length ls)"
  by (induction ls arbitrary: m) (simp_all add: sum_map_put)

lemma Counts_window:
  assumes "ring_rep sz h zs"
  shows "Counts zs = tally (if length h < sz then h else zs_log zs) []"
    and "mset (if length h < sz then h else zs_log zs) = mset (last_n sz h)"
proof -
  show "Counts zs = tally (if length h < sz then h else zs_log zs) []"
    using assms by (auto simp: Counts_def counts_loop_tally ring_rep_def)
  show "mset (if length h < sz then h else zs_log zs) = mset (last_n sz h)"
  proof (cases "length h < sz")
    case True
    then show ?thesis by (simp add: last_n_def)
  next
    case False
    with assms have "mset (last_n sz h) = mset (drop (zs_pos zs) (zs_log zs) @ take (zs_pos zs) (zs_log zs))"
      by (simp add: ring_rep_def)
    also have "\<dots> = mset (take (zs_pos zs) (zs_log zs) @ drop (zs_pos zs) (zs_log zs))"
      by (simp only: mset_append add.commute)
    finally show ?thesis using False by simp
  qed
qed

lemma count_map_mset: "mset ls = mset ls' \<Longrightarrow> count_map ls = count_map ls'"
  by (rule ext) (metis count_map_def count_mset set_mset_mset)

lemma map_of_tally_Nil: "map_of (tally ls []) = count_map ls"
  by (rule ext) (simp add: map_of_tally count_map_def map_get_def)

lemma Counts_last_n: "ring_rep sz h zs \<Longrightarrow> map_of (Counts zs) = count_map (last_n sz h)"
  using Counts_window(1) [of sz h zs] count_map_mset [OF Counts_window(2) [of sz h zs]]
  by (simp only: map_of_tally_Nil)

lemma distinct_Counts: "distinct (keys (Counts zs))"
  by (simp add: Counts_def counts_loop_tally distinct_tally)

lemma sum_Counts:
  "ring_rep sz h zs \<Longrightarrow> sum_list (map snd (Counts zs)) = int (min (length h) sz)"
  by (simp add: Counts_window(1) sum_tally) (auto simp: ring_rep_def)

section \<open>Properties\<close>

text \<open>C30. After any sequence of labels, \<open>Counts\<close> of a ring of size \<open>sz\<close> gives exactly the number of
  occurrences of each label among the last \<open>sz\<close> labels added, and adding never panics.\<close>

theorem zone_stats_window:
  assumes "0 < sz"
  shows "\<exists>zs zs'. NewZoneLabelStats (int sz) = Inr zs \<and> go_fold zs_Add h zs = Inr zs' \<and>
           map_of (Counts zs') = count_map (last_n sz h)"
proof -
  obtain zs where zs: "NewZoneLabelStats (int sz) = Inr zs"
    by (simp add: NewZoneLabelStats_def)
  with ring_rep_fold [OF ring_rep_new [OF assms zs], of h] show ?thesis
    by (metis Counts_last_n append_Nil ext zs_Add_def)
qed

theorem zone_stats_window_witness:
  "\<exists>zs zs'. NewZoneLabelStats (int 2) = Inr zs \<and> go_fold zs_Add [''a'', ''b'', ''b'', ''a''] zs = Inr zs' \<and>
     map_of (Counts zs') ''a'' = Some 1 \<and> map_of (Counts zs') ''b'' = Some 1"
  using zone_stats_window [of 2 "[''a'', ''b'', ''b'', ''a'']"]
  by (fastforce simp: count_map_def last_n_def)

text \<open>The sorted list of all labels, before it is cut.\<close>

definition all_counts :: "(labelStat list \<Rightarrow> labelStat list) \<Rightarrow> zoneLabelStats \<Rightarrow> labelStat list" where
  "all_counts srt zs = srt (map (\<lambda>(l, c). \<lparr>ls_Label = l, ls_Count = c\<rparr>) (Counts zs))"

lemma all_counts_sum:
  assumes srt: "go_sort labelStats_less srt" and ring: "ring_rep sz h zs"
  shows "sum_list (map ls_Count (all_counts srt zs)) = int (min (length h) sz)"
  using go_sort.sum_list_sort [OF srt, of ls_Count] sum_Counts [OF ring]
  by (simp add: all_counts_def comp_def case_prod_unfold)

lemma all_counts_set:
  assumes srt: "go_sort labelStats_less srt" and ring: "ring_rep sz h zs"
  shows "x \<in> set (all_counts srt zs) \<longleftrightarrow> count_map (last_n sz h) (ls_Label x) = Some (ls_Count x)"
proof -
  have "(ls_Label x, ls_Count x) \<in> set (Counts zs) \<longleftrightarrow> map_of (Counts zs) (ls_Label x) = Some (ls_Count x)"
    using distinct_Counts [of zs] by (simp add: keys_def)
  moreover have "x \<in> (\<lambda>(l, c). \<lparr>ls_Label = l, ls_Count = c\<rparr>) ` A \<longleftrightarrow> (ls_Label x, ls_Count x) \<in> A" for A
    by (cases x) (force simp: image_iff)
  ultimately show ?thesis
    using go_sort.set_sort [OF srt] Counts_last_n [OF ring] by (simp add: all_counts_def)
qed

lemma all_counts_best:
  assumes srt: "go_sort labelStats_less srt" and ring: "ring_rep sz h zs"
    and x: "x \<in> set (take n (all_counts srt zs))" and l: "count_map (last_n sz h) l = Some c"
  shows "l \<in> ls_Label ` set (take n (all_counts srt zs)) \<or> c \<le> ls_Count x"
proof (cases "\<lparr>ls_Label = l, ls_Count = c\<rparr> \<in> set (take n (all_counts srt zs))")
  case True
  then show ?thesis by force
next
  case False
  moreover have "\<lparr>ls_Label = l, ls_Count = c\<rparr> \<in> set (all_counts srt zs)"
    using l by (simp add: all_counts_set [OF srt ring])
  ultimately have "\<lparr>ls_Label = l, ls_Count = c\<rparr> \<in> set (drop n (all_counts srt zs))"
    by (metis Un_iff append_take_drop_id set_append)
  then have "\<not> labelStats_less \<lparr>ls_Label = l, ls_Count = c\<rparr> x"
    using go_sort.sort_prefix_before_rest [OF srt] x by (auto simp: all_counts_def)
  then show ?thesis by (simp add: labelStats_less_def less_by_def)
qed

lemma TopCounts_all_counts:
  "0 \<le> n \<Longrightarrow> TopCounts srt n zs =
     Inr (if n < int (length (all_counts srt zs))
          then take (nat n) (all_counts srt zs) @
               [\<lparr>ls_Label = ''Others'', ls_Count = sum_list (map ls_Count (drop (nat n) (all_counts srt zs)))\<rparr>]
          else all_counts srt zs)"
  by (simp add: TopCounts_def all_counts_def Let_def)

text \<open>C39. \<open>TopCounts\<close> keeps the total: its counts, the entry for the others included, sum to the
  number of labels in the window; it has at most \<open>n + 1\<close> entries; and each of its first \<open>n\<close>
  entries carries the true count of its label, which is at least that of any label left out.\<close>

theorem zone_stats_top:
  assumes srt: "go_sort labelStats_less srt" and ring: "ring_rep sz h zs" and n: "0 \<le> n"
  shows "\<exists>top. TopCounts srt n zs = Inr top \<and>
           sum_list (map ls_Count top) = int (min (length h) sz) \<and>
           int (length top) \<le> n + 1 \<and>
           (\<forall>x \<in> set (take (nat n) top).
              count_map (last_n sz h) (ls_Label x) = Some (ls_Count x) \<and>
              (\<forall>l c. count_map (last_n sz h) l = Some c \<longrightarrow>
                     l \<in> ls_Label ` set (take (nat n) top) \<or> c \<le> ls_Count x))"
proof -
  let ?all = "all_counts srt zs"
  let ?top = "if n < int (length ?all)
    then take (nat n) ?all @ [\<lparr>ls_Label = ''Others'', ls_Count = sum_list (map ls_Count (drop (nat n) ?all))\<rparr>]
    else ?all"
  have split: "sum_list (map ls_Count (take (nat n) ?all)) + sum_list (map ls_Count (drop (nat n) ?all)) =
      sum_list (map ls_Count ?all)"
    by (metis append_take_drop_id map_append sum_list_append)
  have sum: "sum_list (map ls_Count ?top) = int (min (length h) sz)"
    using split all_counts_sum [OF srt ring] by simp
  have len: "int (length ?top) \<le> n + 1" using n by simp
  have pre: "take (nat n) ?top = take (nat n) ?all" using n by simp
  have "count_map (last_n sz h) (ls_Label x) = Some (ls_Count x)" if "x \<in> set (take (nat n) ?all)" for x
    using in_set_takeD [OF that] all_counts_set [OF srt ring] by blast
  with all_counts_best [OF srt ring] TopCounts_all_counts [OF n] sum len pre show ?thesis
    by (intro exI [of _ ?top]) auto
qed

theorem zone_stats_top_witness:
  "\<exists>top. TopCounts (insertionSort (less_by ls_Count)) 1
       \<lparr>zs_pos = 0, zs_rotated = True, zs_log = [''a'', ''b'', ''a'']\<rparr> = Inr top \<and>
     sum_list (map ls_Count top) = 3 \<and> int (length top) \<le> 2"
proof -
  have srt: "go_sort labelStats_less (insertionSort (less_by ls_Count))"
    unfolding labelStats_less_def by (rule go_sort_insertionSort)
  have ring: "ring_rep 3 [''a'', ''b'', ''a''] \<lparr>zs_pos = 0, zs_rotated = True, zs_log = [''a'', ''b'', ''a'']\<rparr>"
    by (simp add: ring_rep_def last_n_def)
  show ?thesis using zone_stats_top [OF srt ring, of 1] by auto
qed

text \<open>A closed ring cannot take another label: \<open>Add\<close> after \<open>Close\<close> indexes an empty slice.\<close>

theorem zone_stats_add_after_close: "zs_Add l (zs_Close zs) = Inl IndexOutOfRange"
  by (simp add: zs_Add_def zs_add_def zs_Close_def)

end
