(* ===== verification/Zone.thy ===== *)
theory Zone
  imports DnsMsg Health Targeting ZoneStats
begin

text \<open>
  \<open>zones/zone.go\<close>: the zone data model and its operations. A label's \<open>Records\<close> are pointers that
  may be nil while a zone is being read; the type parameter \<open>'r\<close> of a label is the type of its
  records, \<open>zrecord option\<close> during reading and \<open>zrecord\<close> in a zone that is served. The statistics
  rings a zone points to live in a store, because a reloaded zone shares them with the zone it
  replaces. \<open>newRR\<close>, the zone-file parser of the vendored library, is a parameter; its \<open>None\<close> is
  an error. Alias chains are followed by recursion in \<open>FindLabels\<close> with no guard against loops,
  so the model takes the depth of the stack as an argument and running out of it is the panic
  \<open>StackOverflow\<close>.
\<close>

section \<open>Data\<close>

record zone_options =
  zo_Serial :: int
  zo_Ttl :: int
  zo_MaxHosts :: int
  zo_Contact :: string
  zo_Targeting :: int
  zo_Closest :: bool

record zone_logging =
  zl_StatHat :: bool
  zl_StatHatAPI :: string

record zrecord =
  rec_RR :: rr
  rec_Weight :: int
  rec_Loc :: "location option"
  rec_Test :: string

record 'r label =
  lb_Label :: string
  lb_MaxHosts :: int
  lb_Ttl :: int
  lb_Records :: "(uint16 \<times> 'r list) list"
  lb_Weight :: "(uint16 \<times> int) list"
  lb_Closest :: bool
  lb_Test :: "health_reference option"

text \<open>References into the store of statistics rings.\<close>

type_synonym stats_ref = nat
type_synonym stats_store = "zoneLabelStats list"

record zone_metrics =
  zm_LabelStats :: "stats_ref option"
  zm_ClientStats :: "stats_ref option"

record 'r zone =
  z_Origin :: string
  z_Labels :: "(string \<times> 'r label) list"
  z_LabelCount :: nat
  z_Options :: zone_options
  z_Logging :: "zone_logging option"
  z_Metrics :: zone_metrics
  z_HasClosest :: bool
  z_ParseIP :: bool

text \<open>\<open>LabelMatch\<close>: the label pointer may be nil.\<close>

type_synonym label_match = "zrecord label option \<times> uint16"

section \<open>Operations\<close>

definition NewZone :: "string \<Rightarrow> 'r zone" where
  "NewZone name =
     \<lparr>z_Origin = name, z_Labels = [], z_LabelCount = CountLabel name,
      z_Options = \<lparr>zo_Serial = 0, zo_Ttl = 120, zo_MaxHosts = 2, zo_Contact = ''hostmaster.'' @ name,
                   zo_Targeting = TargetGlobal + TargetCountry + TargetContinent, zo_Closest = False\<rparr>,
      z_Logging = None, z_Metrics = \<lparr>zm_LabelStats = None, zm_ClientStats = None\<rparr>,
      z_HasClosest = False, z_ParseIP = False\<rparr>"

text \<open>\<open>NewZoneLabelStats(10000)\<close> and the pointer to it.\<close>

definition alloc_stats :: "stats_ref option \<Rightarrow> stats_store \<Rightarrow> stats_ref option \<times> stats_store" where
  "alloc_stats p st =
     (case p of
        Some r \<Rightarrow> (p, st)
      | None \<Rightarrow> (Some (length st), st @ [\<lparr>zs_pos = 0, zs_rotated = False, zs_log = replicate 10000 []\<rparr>]))"

definition SetupMetrics :: "'r zone \<Rightarrow> 'r zone option \<Rightarrow> stats_store \<Rightarrow> 'r zone \<times> stats_store" where
  "SetupMetrics z old st =
     (let m = (case old of Some o' \<Rightarrow> z_Metrics o' | None \<Rightarrow> z_Metrics z);
          (l, st) = alloc_stats (zm_LabelStats m) st;
          (c, st) = alloc_stats (zm_ClientStats m) st
      in (z\<lparr>z_Metrics := \<lparr>zm_LabelStats = l, zm_ClientStats = c\<rparr>\<rparr>, st))"

definition close_stats :: "stats_ref option \<Rightarrow> stats_store \<Rightarrow> stats_store" where
  "close_stats p st = (case p of None \<Rightarrow> st | Some r \<Rightarrow> st[r := zs_Close (st ! r)])"

definition zone_Close :: "'r zone \<Rightarrow> stats_store \<Rightarrow> stats_store" where
  "zone_Close z st = close_stats (zm_ClientStats (z_Metrics z)) (close_stats (zm_LabelStats (z_Metrics z)) st)"

text \<open>\<open>l.Records[dnsType][0].RR\<close>: a missing type reads as a nil slice.\<close>

definition FirstRR :: "zrecord label \<Rightarrow> uint16 \<Rightarrow> rr go" where
  "FirstRR l dnsType =
     (case map_get (lb_Records l) dnsType [] of [] \<Rightarrow> Inl IndexOutOfRange | r # _ \<Rightarrow> Inr (rec_RR r))"

definition new_label :: "string \<Rightarrow> 'r zone \<Rightarrow> 'r label" where
  "new_label k z =
     \<lparr>lb_Label = k, lb_MaxHosts = zo_MaxHosts (z_Options z), lb_Ttl = 0, lb_Records = [], lb_Weight = [],
      lb_Closest = zo_Closest (z_Options z), lb_Test = None\<rparr>"

definition AddLabel :: "string \<Rightarrow> 'r zone \<Rightarrow> 'r label \<times> 'r zone" where
  "AddLabel k z =
     (let k = toLower k; label = new_label k z
      in (label, z\<lparr>z_Labels := map_put k label (z_Labels z)\<rparr>))"

definition SoaRR :: "zrecord zone \<Rightarrow> rr go" where
  "SoaRR z = (case map_of (z_Labels z) [] of None \<Rightarrow> Inl NilDeref | Some l \<Rightarrow> FirstRR l TypeSOA)"

definition as_NS :: "rr \<Rightarrow> string go" where
  "as_NS r = (case r of RR_NS _ ns \<Rightarrow> Inr ns | _ \<Rightarrow> Inl TypeAssertion)"

definition soa_ttl :: "int \<Rightarrow> int" where
  "soa_ttl zttl =
     (let ttl = wrap64 (zttl * 10);
          ttl = (if 3600 < ttl then 3600 else ttl)
      in if ttl = 0 then 600 else ttl)"

definition soa_string :: "zrecord zone \<Rightarrow> string \<Rightarrow> string" where
  "soa_string z primaryNs =
     z_Origin z @ ''. '' @ itoa (soa_ttl (zo_Ttl (z_Options z))) @ '' IN SOA '' @
     primaryNs @ '' '' @ zo_Contact (z_Options z) @ '' '' @
     itoa (zo_Serial (z_Options z)) @ '' 5400 5400 1209600 3600''"

definition addSOA :: "(string \<Rightarrow> rr option) \<Rightarrow> zrecord zone \<Rightarrow> zrecord zone go" where
  "addSOA newRR z =
     (let (label, z) = (case map_of (z_Labels z) [] of Some l \<Rightarrow> (l, z) | None \<Rightarrow> AddLabel [] z)
      in go_bind
           (case map_of (lb_Records label) TypeNS of
              None \<Rightarrow> Inr ''ns''
            | Some [] \<Rightarrow> Inl IndexOutOfRange
            | Some (r # _) \<Rightarrow> as_NS (rec_RR r))
           (\<lambda>primaryNs.
              case newRR (soa_string z primaryNs) of
                None \<Rightarrow> Inl (Panic ''Could not setup SOA'')
              | Some rr \<Rightarrow>
                  let rec = \<lparr>rec_RR = rr, rec_Weight = 0, rec_Loc = None, rec_Test = []\<rparr>;
                      label = label\<lparr>lb_Records := map_put TypeSOA [rec] (lb_Records label)\<rparr>
                  in Inr (z\<lparr>z_Labels := map_put [] label (z_Labels z)\<rparr>)))"

definition AddSOA :: "(string \<Rightarrow> rr option) \<Rightarrow> zrecord zone \<Rightarrow> zrecord zone go" where
  "AddSOA newRR z = addSOA newRR z"

section \<open>Finding labels\<close>

text \<open>The name looked up for a target: the \<open>switch\<close> at the top of the loop.\<close>

definition target_name :: "string \<Rightarrow> string \<Rightarrow> string" where
  "target_name s target =
     (if target = ''@'' then s else if 0 < length s then s @ ''.'' @ target else target)"

definition has_records :: "zrecord label \<Rightarrow> uint16 \<Rightarrow> bool" where
  "has_records l qtype = (case map_of (lb_Records l) qtype of None \<Rightarrow> False | Some rs \<Rightarrow> 0 < length rs)"

definition as_MF :: "rr \<Rightarrow> string go" where
  "as_MF r = (case r of RR_MF _ mf \<Rightarrow> Inr mf | _ \<Rightarrow> Inl TypeAssertion)"

text \<open>The body of the inner loop for one query type; \<open>rec\<close> is the recursive call.\<close>

definition find_qtype ::
  "(string \<Rightarrow> label_match list go) \<Rightarrow> zrecord zone \<Rightarrow> string \<Rightarrow> zrecord label \<Rightarrow> uint16 \<Rightarrow>
   label_match list \<Rightarrow> label_match list go" where
  "find_qtype rec z s label qtype matches =
     (if qtype = TypeANY then Inr (matches @ [(map_of (z_Labels z) s, qtype)])
      else if qtype = TypeMF then
        (case map_of (lb_Records label) TypeMF of
           None \<Rightarrow> Inr matches
         | Some _ \<Rightarrow>
             go_bind (go_bind (FirstRR label TypeMF) as_MF) (\<lambda>name.
             go_bind (rec name) (\<lambda>aliases. Inr (matches @ aliases))))
      else if has_records label qtype then Inr (matches @ [(Some label, qtype)])
      else Inr matches)"

definition find_target ::
  "(string \<Rightarrow> label_match list go) \<Rightarrow> zrecord zone \<Rightarrow> string \<Rightarrow> uint16 list \<Rightarrow> string \<Rightarrow>
   label_match list \<Rightarrow> label_match list go" where
  "find_target rec z s qts target matches =
     (case map_of (z_Labels z) (target_name s target) of
        None \<Rightarrow> Inr matches
      | Some label \<Rightarrow> go_fold (find_qtype rec z s label) qts matches)"

definition no_match_fallback :: "zrecord zone \<Rightarrow> string \<Rightarrow> label_match list \<Rightarrow> label_match list" where
  "no_match_fallback z s matches =
     (if length matches = 0
      then (case map_of (z_Labels z) s of Some label \<Rightarrow> matches @ [(Some label, 0)] | None \<Rightarrow> matches)
      else matches)"

fun FindLabels ::
  "nat \<Rightarrow> zrecord zone \<Rightarrow> string \<Rightarrow> string list \<Rightarrow> uint16 list \<Rightarrow> label_match list go" where
  "FindLabels 0 z s targets qts = Inl StackOverflow"
| "FindLabels (Suc depth) z s targets qts =
     go_bind (go_fold (find_target (\<lambda>name. FindLabels depth z name targets qts) z s qts) targets [])
       (\<lambda>matches. Inr (no_match_fallback z s matches))"

definition findFirstLabel ::
  "nat \<Rightarrow> zrecord zone \<Rightarrow> string \<Rightarrow> string list \<Rightarrow> uint16 list \<Rightarrow> label_match option go" where
  "findFirstLabel depth z s targets qts =
     go_bind (FindLabels depth z s targets qts)
       (\<lambda>matches. Inr (if length matches = 0 then None else Some (matches ! 0)))"

section \<open>Locations and health tests of records\<close>

definition rr_address :: "rr \<Rightarrow> ip option" where
  "rr_address r = (case r of RR_A _ a \<Rightarrow> Some a | RR_AAAA _ a \<Rightarrow> Some a | _ \<Rightarrow> None)"

definition locate_record :: "geo_provider \<Rightarrow> zrecord \<Rightarrow> zrecord go" where
  "locate_record g r =
     (let r = r\<lparr>rec_Loc := None\<rparr>
      in case rr_address (rec_RR r) of
           None \<Rightarrow> Inr r
         | Some ip \<Rightarrow> go_bind (GetLocation g ip) (\<lambda>(location, err).
             Inr (if err \<noteq> None then r else r\<lparr>rec_Loc := location\<rparr>)))"

definition locate_type :: "geo_provider \<Rightarrow> uint16 \<Rightarrow> zrecord label \<Rightarrow> zrecord label go" where
  "locate_type g qtype l =
     (case map_of (lb_Records l) qtype of
        None \<Rightarrow> Inr l
      | Some rs \<Rightarrow> go_bind (go_map (locate_record g) rs)
          (\<lambda>rs'. Inr (l\<lparr>lb_Records := map_put qtype rs' (lb_Records l)\<rparr>)))"

definition locate_label :: "geo_provider \<Rightarrow> string \<times> zrecord label \<Rightarrow> (string \<times> zrecord label) go" where
  "locate_label g e =
     (if lb_Closest (snd e)
      then go_bind (go_fold (locate_type g) [TypeA, TypeAAAA] (snd e)) (\<lambda>l. Inr (fst e, l))
      else Inr e)"

definition SetLocations :: "geo_provider \<Rightarrow> zrecord zone \<Rightarrow> zrecord zone go" where
  "SetLocations g z = go_bind (go_map (locate_label g) (z_Labels z)) (\<lambda>ls. Inr (z\<lparr>z_Labels := ls\<rparr>))"

definition addHealthReference :: "(rat \<Rightarrow> string) \<Rightarrow> 'r label \<Rightarrow> json \<Rightarrow> 'r label go" where
  "addHealthReference fmtFloat l data =
     (case data of
        JObj i \<Rightarrow> go_bind (NewReferenceFromMap fmtFloat i)
          (\<lambda>res. Inr (case res of Inl err \<Rightarrow> l | Inr tester \<Rightarrow> l\<lparr>lb_Test := Some tester\<rparr>))
      | _ \<Rightarrow> Inr l)"

definition default_test :: "zrecord \<Rightarrow> zrecord" where
  "default_test r =
     (if 0 < length (rec_Test r) then r
      else case rec_RR r of
             RR_A _ a \<Rightarrow> r\<lparr>rec_Test := IP_String a\<rparr>
           | RR_AAAA _ a \<Rightarrow> r\<lparr>rec_Test := IP_String a\<rparr>
           | RR_MX _ mx _ \<Rightarrow> r\<lparr>rec_Test := mx\<rparr>
           | _ \<Rightarrow> r)"

definition setup_label_tests :: "zrecord label \<Rightarrow> zrecord label" where
  "setup_label_tests l =
     (if lb_Test l = None then l
      else l\<lparr>lb_Records := map (\<lambda>(qt, rs). (qt, map default_test rs)) (lb_Records l)\<rparr>)"

definition setupHealthTests :: "zrecord zone \<Rightarrow> zrecord zone" where
  "setupHealthTests z = z\<lparr>z_Labels := map (\<lambda>(k, l). (k, setup_label_tests l)) (z_Labels z)\<rparr>"

text \<open>The health map is always empty, so its JSON text is \<open>{}\<close>.\<close>

definition HealthRR :: "string \<Rightarrow> string \<Rightarrow> rr list" where
  "HealthRR label baseLabel =
     (let h = \<lparr>Name = label, Rrtype = TypeTXT, Class = ClassINET, Ttl = 1, Rdlength = 0\<rparr>
      in [RR_TXT h [''{}'']])"

end
