(* ===== verification/ZoneLookup.thy ===== *)
theory ZoneLookup
  imports Zone
begin

text \<open>
  The search for labels, \<open>FindLabels\<close> of \<open>zones/zone.go\<close>: which aliases a lookup follows, when the
  recursion over them ends, what the matches are, and the order they come in.
\<close>

section \<open>The alias relation\<close>

text \<open>The names the lookup of \<open>s\<close> recurses to: the targets of the first alias record of every label
  the targets select.\<close>

definition alias_of :: "zrecord label \<Rightarrow> string option" where
  "alias_of l =
     (case map_of (lb_Records l) TypeMF of
        Some (r # _) \<Rightarrow> (case rec_RR r of RR_MF _ mf \<Rightarrow> Some mf | _ \<Rightarrow> None)
      | _ \<Rightarrow> None)"

definition aliases :: "zrecord zone \<Rightarrow> string list \<Rightarrow> string \<Rightarrow> string list" where
  "aliases z targets s =
     List.map_filter (\<lambda>t. Option.bind (map_of (z_Labels z) (target_name s t)) alias_of) targets"

definition alias_edges :: "zrecord zone \<Rightarrow> string list \<Rightarrow> (string \<times> string) set" where
  "alias_edges z targets = {(s, t). t \<in> set (aliases z targets s)}"

text \<open>A label with an entry for alias records has at least one, and the first is an \<open>MF\<close> record. The reader does not check this:
  it accepts an alias that is an empty list, and a search that meets one panics (\<open>empty_alias_panics\<close>). So it is a hypothesis of the
  results below.\<close>

definition alias_label_ok :: "zrecord label \<Rightarrow> bool" where
  "alias_label_ok l \<longleftrightarrow> (map_of (lb_Records l) TypeMF = None \<or> alias_of l \<noteq> None)"

definition aliases_ok :: "zrecord zone \<Rightarrow> bool" where
  "aliases_ok z \<longleftrightarrow> list_all (\<lambda>(k, l). alias_label_ok l) (z_Labels z)"

lemma aliases_okD: "aliases_ok z \<Longrightarrow> map_of (z_Labels z) k = Some l \<Longrightarrow> alias_label_ok l"
  by (auto simp: aliases_ok_def list_all_iff dest: map_of_SomeD)

lemma mem_aliases:
  "t \<in> set (aliases z targets s) \<longleftrightarrow>
   (\<exists>g \<in> set targets. \<exists>l. map_of (z_Labels z) (target_name s g) = Some l \<and> alias_of l = Some t)"
  by (induction targets) (auto simp: aliases_def List.map_filter_simps split: option.splits bind_splits)

lemma alias_label_FirstRR:
  "alias_label_ok l \<Longrightarrow> map_of (lb_Records l) TypeMF = Some rs \<Longrightarrow>
   \<exists>name. alias_of l = Some name \<and> go_bind (FirstRR l TypeMF) as_MF = Inr name"
  by (auto simp: alias_label_ok_def alias_of_def FirstRR_def map_get_def as_MF_def
      split: list.splits rr.splits)

lemma rrtype_distinct: "TypeMF \<noteq> TypeANY" "TypeMF \<noteq> TypeCNAME" "TypeCNAME \<noteq> TypeANY" "TypeMF \<noteq> 0" "TypeANY \<noteq> 0"
  "TypeCNAME \<noteq> 0"
  by (simp_all add: rrtype_defs)

text \<open>The body of the loop fails only through a recursive call.\<close>

lemma find_qtype_cases:
  assumes "alias_label_ok l"
  shows "(\<exists>ms'. find_qtype rec z s l q ms = Inr ms') \<or>
    (\<exists>p. find_qtype rec z s l q ms = Inl p \<and> (\<exists>name. alias_of l = Some name \<and> rec name = Inl p))"
proof (cases "q = TypeMF \<and> map_of (lb_Records l) TypeMF \<noteq> None")
  case True
  then obtain rs where "map_of (lb_Records l) TypeMF = Some rs" by blast
  with assms obtain name where n: "alias_of l = Some name" "go_bind (FirstRR l TypeMF) as_MF = Inr name"
    using alias_label_FirstRR by blast
  with True show ?thesis
    by (cases "rec name") (auto simp: find_qtype_def rrtype_distinct)
qed (auto simp: find_qtype_def rrtype_distinct)

lemma find_qtype_mono:
  assumes "find_qtype rec z s l q ms = Inr ms'" and "\<And>n r. rec n = Inr r \<Longrightarrow> rec' n = Inr r"
  shows "find_qtype rec' z s l q ms = Inr ms'"
  using assms by (auto simp: find_qtype_def go_bind_Inr split: if_splits option.splits)

lemma find_target_mono:
  assumes "find_target rec z s qts g ms = Inr ms'" and "\<And>n r. rec n = Inr r \<Longrightarrow> rec' n = Inr r"
  shows "find_target rec' z s qts g ms = Inr ms'"
  using assms by (auto simp: find_target_def intro: go_fold_mono find_qtype_mono split: option.splits)

lemma FindLabels_Suc: "FindLabels d z s ts qts = Inr ms \<Longrightarrow> FindLabels (Suc d) z s ts qts = Inr ms"
proof (induction d arbitrary: s ms)
  case (Suc d)
  let ?rec = "\<lambda>k name. FindLabels k z name ts qts"
  from Suc.prems obtain ms0 where fold: "go_fold (find_target (?rec d) z s qts) ts [] = Inr ms0"
    and ms: "ms = no_match_fallback z s ms0" by (auto simp: go_bind_Inr)
  from fold have "go_fold (find_target (?rec (Suc d)) z s qts) ts [] = Inr ms0"
    by (rule go_fold_mono) (erule find_target_mono, rule Suc.IH)
  with ms show ?case by simp
qed simp

lemma FindLabels_mono: "FindLabels d z s ts qts = Inr ms \<Longrightarrow> d \<le> d' \<Longrightarrow> FindLabels d' z s ts qts = Inr ms"
proof -
  assume ms: "FindLabels d z s ts qts = Inr ms" and "d \<le> d'"
  from \<open>d \<le> d'\<close> show ?thesis by (induction rule: dec_induct) (use ms FindLabels_Suc in blast)+
qed

lemma find_target_cases:
  assumes "aliases_ok z"
  shows "(\<exists>u. find_target rec z s qts g ms = Inr u) \<or>
    (\<exists>p. find_target rec z s qts g ms = Inl p \<and>
      (\<exists>l name. map_of (z_Labels z) (target_name s g) = Some l \<and> alias_of l = Some name \<and> rec name = Inl p))"
proof (cases "map_of (z_Labels z) (target_name s g)")
  case (Some l)
  then have "alias_label_ok l" using aliases_okD [OF assms] by blast
  from go_fold_cases [of qts "find_qtype rec z s l" "\<lambda>q p. \<exists>name. alias_of l = Some name \<and> rec name = Inl p" ms,
      OF find_qtype_cases [OF this]] Some
  show ?thesis by (auto simp: find_target_def)
qed (simp add: find_target_def)

lemma FindLabels_progress:
  assumes "aliases_ok z"
  shows "(\<exists>ms. FindLabels (Suc d) z s ts qts = Inr ms) \<or>
         (\<exists>t \<in> set (aliases z ts s). \<exists>p. FindLabels d z t ts qts = Inl p \<and> FindLabels (Suc d) z s ts qts = Inl p)"
proof -
  let ?rec = "\<lambda>name. FindLabels d z name ts qts"
  let ?Q = "\<lambda>g p. \<exists>l name. map_of (z_Labels z) (target_name s g) = Some l \<and> alias_of l = Some name \<and> ?rec name = Inl p"
  from go_fold_cases [of ts "find_target ?rec z s qts" ?Q "[]", OF find_target_cases [OF assms]]
  show ?thesis
  proof (elim disjE exE conjE bexE)
    fix p g l name
    assume "go_fold (find_target ?rec z s qts) ts [] = Inl p" and "g \<in> set ts"
      and "map_of (z_Labels z) (target_name s g) = Some l" "alias_of l = Some name" "?rec name = Inl p"
    moreover then have "name \<in> set (aliases z ts s)" by (auto simp: mem_aliases)
    ultimately show ?thesis by auto
  qed simp
qed

lemma FindLabels_panic:
  "aliases_ok z \<Longrightarrow> FindLabels d z s ts qts = Inl p \<Longrightarrow> p = StackOverflow"
proof (induction d arbitrary: s p)
  case (Suc d)
  from FindLabels_progress [OF Suc.prems(1), of d s ts qts] Suc.prems(2)
  obtain t where "FindLabels d z t ts qts = Inl p" by (auto simp del: FindLabels.simps)
  then show ?case by (rule Suc.IH [OF Suc.prems(1)])
qed simp

lemma FindLabels_alias_returns:
  assumes "aliases_ok z" and "TypeMF \<in> set qts" and "t \<in> set (aliases z ts s)"
    and "FindLabels (Suc d) z s ts qts = Inr ms"
  shows "\<exists>r. FindLabels d z t ts qts = Inr r"
proof -
  from assms(3) obtain g l where g: "g \<in> set ts" "map_of (z_Labels z) (target_name s g) = Some l"
    and l: "alias_of l = Some t" by (auto simp: mem_aliases)
  let ?rec = "\<lambda>name. FindLabels d z name ts qts"
  from assms(4) obtain ms0 where "go_fold (find_target ?rec z s qts) ts [] = Inr ms0"
    by (auto simp: go_bind_Inr)
  from go_fold_step [OF this g(1)] g(2) obtain u v where "go_fold (find_qtype ?rec z s l) qts u = Inr v"
    by (auto simp: find_target_def)
  from go_fold_step [OF this assms(2)] obtain u v where "find_qtype ?rec z s l TypeMF u = Inr v" by blast
  moreover from l obtain rs where rs: "map_of (lb_Records l) TypeMF = Some rs"
    by (auto simp: alias_of_def split: option.splits)
  moreover from alias_label_FirstRR [OF aliases_okD [OF assms(1) g(2)] rs] l
  have "go_bind (FirstRR l TypeMF) as_MF = Inr t" by auto
  ultimately show ?thesis by (auto simp: find_qtype_def rrtype_distinct go_bind_Inr)
qed

lemma finite_target_sources: "finite {s. target_name s g = k}"
proof (rule finite_subset)
  show "{s. target_name s g = k} \<subseteq> insert [] ((\<lambda>n. take n k) ` {0..length k})"
  proof
    fix s assume "s \<in> {s. target_name s g = k}"
    then have "s = [] \<or> take (length s) k = s \<and> length s \<le> length k"
      by (auto simp: target_name_def split: if_splits)
    then show "s \<in> insert [] ((\<lambda>n. take n k) ` {0..length k})"
      by (metis atLeastAtMost_iff image_eqI insert_iff le0)
  qed
qed simp

lemma finite_alias_edges: "finite (alias_edges z ts)"
proof -
  let ?S = "\<Union>g \<in> set ts. \<Union>k \<in> set (keys (z_Labels z)). {s. target_name s g = k}"
  let ?T = "the ` alias_of ` snd ` set (z_Labels z)"
  have "alias_edges z ts \<subseteq> ?S \<times> ?T"
  proof (clarify)
    fix s t assume "(s, t) \<in> alias_edges z ts"
    then obtain g l where g: "g \<in> set ts" "map_of (z_Labels z) (target_name s g) = Some l" "alias_of l = Some t"
      by (auto simp: alias_edges_def mem_aliases)
    from g(2) have mem: "(target_name s g, l) \<in> set (z_Labels z)" by (rule map_of_SomeD)
    then have "target_name s g \<in> set (keys (z_Labels z))" by (force simp: keys_def)
    moreover from mem g(3) have "t \<in> ?T" by (metis image_eqI option.sel snd_conv)
    ultimately show "s \<in> ?S \<and> t \<in> ?T" using g(1) by blast
  qed
  moreover have "finite (?S \<times> ?T)" by (simp add: finite_target_sources)
  ultimately show ?thesis by (rule finite_subset)
qed


text \<open>A lookup can run into a cycle of aliases when one is reachable from the name.\<close>

definition reaches_cycle :: "(string \<times> string) set \<Rightarrow> string \<Rightarrow> bool" where
  "reaches_cycle E s \<longleftrightarrow> (\<exists>t. (s, t) \<in> E\<^sup>* \<and> (t, t) \<in> E\<^sup>+)"

lemma wf_reachable_part:
  assumes "finite E" and "\<not> reaches_cycle E s"
  shows "wf ({(u, t). (t, u) \<in> E \<and> (s, t) \<in> E\<^sup>*})"
proof -
  let ?R = "{(t, u). (t, u) \<in> E \<and> (s, t) \<in> E\<^sup>*}"
  have sub: "?R \<subseteq> E" by auto
  have "acyclic ?R"
  proof (rule acyclicI, clarify)
    fix t assume t: "(t, t) \<in> ?R\<^sup>+"
    then obtain u where "(t, u) \<in> ?R" by (meson tranclD)
    then have "(s, t) \<in> E\<^sup>*" by simp
    moreover from t have "(t, t) \<in> E\<^sup>+" using trancl_mono [OF _ sub] by blast
    ultimately show False using assms(2) by (auto simp: reaches_cycle_def)
  qed
  moreover have "finite ?R" using assms(1) sub by (rule rev_finite_subset)
  ultimately have "wf (?R\<inverse>)" by (simp add: finite_acyclic_wf_converse)
  moreover have "?R\<inverse> = {(u, t). (t, u) \<in> E \<and> (s, t) \<in> E\<^sup>*}" by auto
  ultimately show ?thesis by simp
qed

lemma FindLabels_returns:
  assumes ok: "aliases_ok z" and "\<not> reaches_cycle (alias_edges z ts) s"
  shows "\<exists>d ms. FindLabels d z s ts qts = Inr ms"
proof -
  let ?E = "alias_edges z ts"
  have "(s, t) \<in> ?E\<^sup>* \<longrightarrow> (\<exists>d ms. FindLabels d z t ts qts = Inr ms)" for t
    using wf_reachable_part [OF finite_alias_edges assms(2)]
  proof (induction t rule: wf_induct_rule)
    case (less t)
    show ?case
    proof
      assume st: "(s, t) \<in> ?E\<^sup>*"
      have "\<exists>d ms. FindLabels d z u ts qts = Inr ms" if "u \<in> set (aliases z ts t)" for u
      proof -
        from that have "(t, u) \<in> ?E" by (simp add: alias_edges_def)
        with st less show ?thesis by (metis (mono_tags, lifting) CollectI case_prodI rtrancl.rtrancl_into_rtrancl)
      qed
      then obtain dep where dep: "\<And>u. u \<in> set (aliases z ts t) \<Longrightarrow> \<exists>ms. FindLabels (dep u) z u ts qts = Inr ms"
        by metis
      let ?d = "Max (insert 0 (dep ` set (aliases z ts t)))"
      have "\<exists>ms. FindLabels ?d z u ts qts = Inr ms" if "u \<in> set (aliases z ts t)" for u
        using dep [OF that] FindLabels_mono [of "dep u" z u ts qts _ ?d] that by force
      then show "\<exists>d ms. FindLabels d z t ts qts = Inr ms"
        using FindLabels_progress [OF ok, of ?d t ts qts] by (metis sum.distinct(1))
    qed
  qed
  then show ?thesis by blast
qed

lemma FindLabels_cycle:
  assumes ok: "aliases_ok z" and "TypeMF \<in> set qts" and "reaches_cycle (alias_edges z ts) s"
  shows "FindLabels d z s ts qts \<noteq> Inr ms"
  using assms(3)
proof (induction d arbitrary: s ms)
  case (Suc d)
  then obtain t where t: "(s, t) \<in> (alias_edges z ts)\<^sup>*" "(t, t) \<in> (alias_edges z ts)\<^sup>+"
    by (auto simp: reaches_cycle_def)
  then have "\<exists>u. (s, u) \<in> alias_edges z ts \<and> (u, t) \<in> (alias_edges z ts)\<^sup>*"
    by (metis converse_rtranclE tranclD)
  then obtain u where u: "u \<in> set (aliases z ts s)" "(u, t) \<in> (alias_edges z ts)\<^sup>*"
    by (auto simp: alias_edges_def)
  with t(2) have "reaches_cycle (alias_edges z ts) u" by (auto simp: reaches_cycle_def)
  with Suc.IH have "FindLabels d z u ts qts \<noteq> Inr r" for r by blast
  then show ?case using FindLabels_alias_returns [OF ok assms(2) u(1)] by blast
qed simp

section \<open>Soundness and completeness of the matches\<close>

definition match_ok :: "zrecord zone \<Rightarrow> uint16 list \<Rightarrow> label_match \<Rightarrow> bool" where
  "match_ok z qts m =
     (case m of
        (None, q) \<Rightarrow> q = TypeANY \<and> TypeANY \<in> set qts
      | (Some l, q) \<Rightarrow>
          l \<in> snd ` set (z_Labels z) \<and>
          (q = 0 \<or> q \<in> set qts \<and> (q = TypeANY \<or> q \<noteq> TypeMF \<and> has_records l q)))"

lemma label_mem: "map_of m k = Some l \<Longrightarrow> l \<in> snd ` set m"
  by (force dest: map_of_SomeD)

lemma match_ok_intros:
  "l \<in> snd ` set (z_Labels z) \<Longrightarrow> match_ok z qts (Some l, 0)"
  "l \<in> snd ` set (z_Labels z) \<Longrightarrow> q \<in> set qts \<Longrightarrow> q \<noteq> TypeMF \<Longrightarrow> has_records l q \<Longrightarrow> match_ok z qts (Some l, q)"
  "TypeANY \<in> set qts \<Longrightarrow> match_ok z qts (map_of (z_Labels z) s, TypeANY)"
  by (auto simp: match_ok_def label_mem split: option.splits)

lemma find_qtype_sound:
  assumes "find_qtype rec z s l q ms = Inr ms'" and "q \<in> set qts" and "l \<in> snd ` set (z_Labels z)"
    and "list_all (match_ok z qts) ms" and "\<And>n r. rec n = Inr r \<Longrightarrow> list_all (match_ok z qts) r"
  shows "list_all (match_ok z qts) ms'"
  using assms(1,2,4,5) match_ok_intros(2) [OF assms(3,2)]
  by (auto simp: find_qtype_def go_bind_Inr match_ok_intros(3) split: if_splits option.splits)

lemma find_target_sound:
  assumes "find_target rec z s qts g ms = Inr ms'" and "list_all (match_ok z qts) ms"
    and "\<And>n r. rec n = Inr r \<Longrightarrow> list_all (match_ok z qts) r"
  shows "list_all (match_ok z qts) ms'"
proof (cases "map_of (z_Labels z) (target_name s g)")
  case (Some l)
  with assms(1) have "go_fold (find_qtype rec z s l) qts ms = Inr ms'" by (simp add: find_target_def)
  then show ?thesis
    by (rule go_fold_invariant [where P = "list_all (match_ok z qts)", OF _ assms(2)])
      (rule find_qtype_sound [OF _ _ label_mem [OF Some]], assumption+, erule assms(3))
qed (use assms in \<open>simp add: find_target_def\<close>)

lemma FindLabels_sound: "FindLabels d z s ts qts = Inr ms \<Longrightarrow> list_all (match_ok z qts) ms"
proof (induction d arbitrary: s ms)
  case (Suc d)
  let ?rec = "\<lambda>name. FindLabels d z name ts qts"
  from Suc.prems obtain ms0 where fold: "go_fold (find_target ?rec z s qts) ts [] = Inr ms0"
    and ms: "ms = no_match_fallback z s ms0" by (auto simp: go_bind_Inr)
  from fold have "list_all (match_ok z qts) ms0"
  proof (rule go_fold_invariant [where P = "list_all (match_ok z qts)"])
    fix g u v
    assume "list_all (match_ok z qts) u" and "find_target ?rec z s qts g u = Inr v"
    from find_target_sound [OF this(2,1)] Suc.IH show "list_all (match_ok z qts) v" by blast
  qed simp
  with ms show ?case
    by (auto simp: no_match_fallback_def match_ok_intros label_mem split: option.splits)
qed simp

text \<open>Matches are only ever appended.\<close>

lemma find_qtype_extends: "find_qtype rec z s l q ms = Inr ms' \<Longrightarrow> set ms \<subseteq> set ms'"
  by (auto simp: find_qtype_def go_bind_Inr split: if_splits option.splits)

lemma find_target_extends: "find_target rec z s qts g ms = Inr ms' \<Longrightarrow> set ms \<subseteq> set ms'"
  by (auto simp: find_target_def split: option.splits dest!: go_fold_extends dest: find_qtype_extends)

lemma FindLabels_complete:
  assumes "FindLabels d z s ts qts = Inr ms" and "g \<in> set ts" and "q \<in> set qts"
    and "map_of (z_Labels z) (target_name s g) = Some l" and "has_records l q"
    and "q \<noteq> TypeMF" and "q \<noteq> TypeANY"
  shows "(Some l, q) \<in> set ms"
proof (cases d)
  case (Suc d')
  let ?rec = "\<lambda>name. FindLabels d' z name ts qts"
  from Suc assms(1) obtain ms0 where fold: "go_fold (find_target ?rec z s qts) ts [] = Inr ms0"
    and ms: "ms = no_match_fallback z s ms0" by (auto simp: go_bind_Inr)
  have "(Some l, q) \<in> set v" if "find_target ?rec z s qts g u = Inr v" for u v
  proof -
    from that assms(4) have "go_fold (find_qtype ?rec z s l) qts u = Inr v" by (simp add: find_target_def)
    then show ?thesis
    proof (rule go_fold_collects [OF _ assms(3)])
      show "(Some l, q) \<in> set w" if "find_qtype ?rec z s l q t = Inr w" for t w
        using that assms(5-7) by (auto simp: find_qtype_def)
    qed (rule find_qtype_extends)
  qed
  with go_fold_collects [OF fold assms(2)] find_target_extends have "(Some l, q) \<in> set ms0" by blast
  with ms show ?thesis by (auto simp: no_match_fallback_def)
qed (use assms in simp)

lemma FindLabels_label_found:
  assumes "FindLabels d z s ts qts = Inr ms" and "map_of (z_Labels z) s = Some l"
  shows "ms \<noteq> []"
  using assms by (cases d) (auto simp: go_bind_Inr no_match_fallback_def split: if_splits)

section \<open>Zones without aliases\<close>

text \<open>What the search means for a zone without aliases.\<close>

definition label_matches :: "zrecord zone \<Rightarrow> string \<Rightarrow> uint16 list \<Rightarrow> string \<Rightarrow> label_match list" where
  "label_matches z s qts g =
     (case map_of (z_Labels z) (target_name s g) of
        None \<Rightarrow> []
      | Some l \<Rightarrow> map (\<lambda>q. (Some l, q)) (filter (has_records l) qts))"

lemma find_qtype_plain:
  assumes "map_of (lb_Records l) TypeMF = None" and "q \<noteq> TypeANY"
  shows "find_qtype rec z s l q ms = Inr (ms @ (if has_records l q then [(Some l, q)] else []))"
  using assms by (auto simp: find_qtype_def has_records_def)

lemma go_fold_find_qtype_plain:
  assumes "map_of (lb_Records l) TypeMF = None" and "TypeANY \<notin> set qts"
  shows "go_fold (find_qtype rec z s l) qts ms = Inr (ms @ map (\<lambda>q. (Some l, q)) (filter (has_records l) qts))"
  using assms by (induction qts arbitrary: ms) (auto simp: find_qtype_plain)

lemma go_fold_find_target_plain:
  assumes "\<And>g l. g \<in> set ts \<Longrightarrow> map_of (z_Labels z) (target_name s g) = Some l \<Longrightarrow> map_of (lb_Records l) TypeMF = None"
    and "TypeANY \<notin> set qts"
  shows "go_fold (find_target rec z s qts) ts ms = Inr (ms @ concat (map (label_matches z s qts) ts))"
  using assms(1)
proof (induction ts arbitrary: ms)
  case (Cons g ts)
  have "find_target rec z s qts g ms = Inr (ms @ label_matches z s qts g)"
    using Cons.prems [of g] by (auto simp: find_target_def label_matches_def go_fold_find_qtype_plain assms(2)
        split: option.splits)
  moreover have "go_fold (find_target rec z s qts) ts u = Inr (u @ concat (map (label_matches z s qts) ts))" for u
    using Cons.prems by (intro Cons.IH) auto
  ultimately show ?case by simp
qed simp

section \<open>Properties\<close>

text \<open>C6. In a zone where no alias is an empty list, the search for labels returns exactly when no cycle of aliases can be reached from the
  name: then some depth of recursion is enough and every larger one gives the same matches;
  otherwise it exhausts the stack at every depth.\<close>

theorem find_labels_termination:
  assumes "aliases_ok z" and "TypeMF \<in> set qts"
  shows "if reaches_cycle (alias_edges z targets) s
    then \<forall>depth. FindLabels depth z s targets qts = Inl StackOverflow
    else \<exists>d ms. \<forall>depth \<ge> d. FindLabels depth z s targets qts = Inr ms"
proof (cases "reaches_cycle (alias_edges z targets) s")
  case True
  have "FindLabels depth z s targets qts = Inl StackOverflow" for depth
  proof (cases "FindLabels depth z s targets qts")
    case (Inl p)
    with FindLabels_panic [OF assms(1) Inl] show ?thesis by simp
  qed (use FindLabels_cycle [OF assms True] in blast)
  with True show ?thesis by simp
next
  case False
  from FindLabels_returns [OF assms(1) False] obtain d ms where "FindLabels d z s targets qts = Inr ms" by blast
  then have "\<forall>depth \<ge> d. FindLabels depth z s targets qts = Inr ms" by (blast intro: FindLabels_mono)
  with False show ?thesis by (simp only: if_False) blast
qed


definition sample_rr :: "uint16 \<Rightarrow> rr_header" where
  "sample_rr t = \<lparr>Name = ''www.example.com.'', Rrtype = t, Class = ClassINET, Ttl = 600, Rdlength = 0\<rparr>"

definition sample_rec :: "rr \<Rightarrow> zrecord" where
  "sample_rec r = \<lparr>rec_RR = r, rec_Weight = 1, rec_Loc = None, rec_Test = []\<rparr>"

definition sample_label :: "string \<Rightarrow> (uint16 \<times> zrecord list) list \<Rightarrow> zrecord label" where
  "sample_label k rs =
     \<lparr>lb_Label = k, lb_MaxHosts = 2, lb_Ttl = 0, lb_Records = rs,
      lb_Weight = map (\<lambda>(t, r). (t, int (length r))) rs, lb_Closest = False, lb_Test = None\<rparr>"

definition sample_zone :: "(string \<times> (uint16 \<times> zrecord list) list) list \<Rightarrow> zrecord zone" where
  "sample_zone ls = (NewZone ''example.com'')\<lparr>z_Labels := map (\<lambda>(k, rs). (k, sample_label k rs)) ls\<rparr>"

definition loop_zone :: "zrecord zone" where
  "loop_zone = sample_zone [(''a'', [(TypeMF, [sample_rec (RR_MF (sample_rr TypeMF) ''b'')])]),
                            (''b'', [(TypeMF, [sample_rec (RR_MF (sample_rr TypeMF) ''a'')])])]"

theorem find_labels_termination_witness:
  "FindLabels 1000000 loop_zone ''a'' [''@''] [TypeMF, TypeCNAME, TypeA] = Inl StackOverflow"
proof -
  have ok: "aliases_ok loop_zone"
    by (simp add: aliases_ok_def loop_zone_def sample_zone_def sample_label_def alias_label_ok_def
        alias_of_def sample_rec_def NewZone_def)
  have al: "aliases loop_zone [''@''] ''a'' = [''b'']" "aliases loop_zone [''@''] ''b'' = [''a'']"
    by (simp_all add: aliases_def loop_zone_def sample_zone_def sample_label_def target_name_def
        alias_of_def sample_rec_def NewZone_def List.map_filter_simps)
  then have e: "(''a'', ''b'') \<in> alias_edges loop_zone [''@'']" "(''b'', ''a'') \<in> alias_edges loop_zone [''@'']"
    by (simp_all add: alias_edges_def)
  have "(''a'', ''a'') \<in> (alias_edges loop_zone [''@''])\<^sup>+"
    by (rule trancl_into_trancl [OF r_into_trancl [OF e(1)] e(2)])
  then have "reaches_cycle (alias_edges loop_zone [''@'']) ''a''"
    unfolding reaches_cycle_def by blast
  moreover have "TypeMF \<in> set [TypeMF, TypeCNAME, TypeA]" by simp
  ultimately show ?thesis using find_labels_termination [OF ok, of _ "[''@'']" "''a''"] by presburger
qed

text \<open>C10. Without aliases among the labels the targets select, a search that does not ask for ANY is the concatenation over
  the targets, in order, of all the types asked for that the target's label has (not only the first such type of a target), and
  the bare label of the name when there are none.\<close>

theorem find_labels_reference:
  assumes "\<forall>g \<in> set targets. \<forall>l. map_of (z_Labels z) (target_name s g) = Some l \<longrightarrow> map_of (lb_Records l) TypeMF = None"
    and "TypeANY \<notin> set qts" and "0 < depth"
  shows "FindLabels depth z s targets qts =
    Inr (no_match_fallback z s (concat (map (label_matches z s qts) targets)))"
  using assms by (cases depth) (auto simp: go_fold_find_target_plain)

definition geo_zone :: "zrecord zone" where
  "geo_zone = sample_zone
     [(''www.us'', [(TypeA, [sample_rec (RR_A (sample_rr TypeA) [10, 0, 0, 1])])]),
      (''www'', [(TypeA, [sample_rec (RR_A (sample_rr TypeA) [10, 0, 0, 2]),
                         sample_rec (RR_A (sample_rr TypeA) [10, 0, 0, 3])])])]"

theorem find_labels_reference_witness:
  "FindLabels 1 geo_zone ''www'' [''us'', ''europe'', ''@''] [TypeMF, TypeCNAME, TypeA] =
     Inr [(map_of (z_Labels geo_zone) ''www.us'', TypeA), (map_of (z_Labels geo_zone) ''www'', TypeA)]"
  using find_labels_reference [of "[''us'', ''europe'', ''@'']" geo_zone "''www''" "[TypeMF, TypeCNAME, TypeA]" 1]
  by (simp add: geo_zone_def sample_zone_def sample_label_def NewZone_def target_name_def rrtype_defs
      label_matches_def has_records_def no_match_fallback_def)

text \<open>C9. Every match of a search is a label of the zone with records of the type matched, one of
  the types asked for, or a label that merely exists (type 0); only a search for ANY can return a
  nil label. Every selected label with records of an asked type (aliases and ANY apart) is among
  the matches, and a search for an existing name never returns the empty list.\<close>

theorem find_labels_correct:
  assumes "FindLabels depth z s targets qts = Inr ms"
  shows "list_all (match_ok z qts) ms \<and>
    (\<forall>g \<in> set targets. \<forall>q \<in> set qts. \<forall>l. map_of (z_Labels z) (target_name s g) = Some l \<longrightarrow>
       has_records l q \<longrightarrow> q \<notin> {TypeMF, TypeANY} \<longrightarrow> (Some l, q) \<in> set ms) \<and>
    (map_of (z_Labels z) s \<noteq> None \<longrightarrow> ms \<noteq> [])"
  using FindLabels_sound [OF assms] FindLabels_complete [OF assms] FindLabels_label_found [OF assms] by auto

theorem find_labels_correct_witness:
  "\<exists>ms. FindLabels 1 geo_zone ''www'' [''us'', ''@''] [TypeMF, TypeCNAME, TypeAAAA] = Inr ms \<and> ms \<noteq> [] \<and>
     list_all (match_ok geo_zone [TypeMF, TypeCNAME, TypeAAAA]) ms"
proof -
  have r: "FindLabels 1 geo_zone ''www'' [''us'', ''@''] [TypeMF, TypeCNAME, TypeAAAA] =
     Inr [(map_of (z_Labels geo_zone) ''www'', 0)]"
    by (simp add: geo_zone_def sample_zone_def sample_label_def NewZone_def target_name_def rrtype_defs
      find_target_def find_qtype_def has_records_def no_match_fallback_def)
  from find_labels_correct [OF r] show ?thesis using r by simp
qed

end
