(* ===== verification/Picker.thy ===== *)
theory Picker
  imports ZoneLookup
begin

text \<open>
  \<open>zones/picker.go\<close>: the choice of the records of an answer. The random numbers \<open>math/rand\<close> hands
  out are a sequence \<open>rnd\<close>, of which a call of \<open>Intn\<close> consumes the next element; a theorem that
  holds for every sequence holds for every outcome. The slots of the result are pointers that the
  selection loop may leave nil, so a result is a list of options, inside an option for the nil
  slice. \<open>servers\<close> is a copy of the label's slice, and the in-place filters only write positions the
  loop has already read, so they are the filtered list.
\<close>

section \<open>Model\<close>

type_synonym angle_fn = "rat \<times> rat \<Rightarrow> rat \<times> rat \<Rightarrow> rat"
type_synonym rnd_state = "(nat \<Rightarrow> nat) \<times> nat"

definition rand_Intn :: "int \<Rightarrow> rnd_state \<Rightarrow> (int \<times> rnd_state) go" where
  "rand_Intn n st =
     (case st of (rnd, k) \<Rightarrow>
        if n \<le> 0 then Inl IntnArgument else Inr (int (rnd k) mod n, (rnd, Suc k)))"

definition AlwaysWeighted :: "uint16 list" where
  "AlwaysWeighted = [TypeA, TypeAAAA, TypeCNAME]"

text \<open>\<open>alwaysWeighted\<close> is the set of the types in that list.\<close>

definition alwaysWeighted :: "uint16 \<Rightarrow> bool" where
  "alwaysWeighted t = List.member AlwaysWeighted t"

definition filter_step :: "registry \<Rightarrow> zrecord \<Rightarrow> zrecord list \<times> int \<Rightarrow> (zrecord list \<times> int) go" where
  "filter_step reg s acc =
     (case acc of (tmpServers, wsum) \<Rightarrow>
        go_bind (if length (rec_Test s) = 0 then Inr True
                 else go_bind (GetStatus reg (rec_Test s)) (\<lambda>st. Inr (st = StatusHealthy)))
          (\<lambda>ok. Inr (if ok then (tmpServers @ [s], wrap64 (wsum + rec_Weight s)) else (tmpServers, wsum))))"

definition filterHealth :: "registry \<Rightarrow> zrecord list \<Rightarrow> (zrecord list \<times> int) go" where
  "filterHealth reg servers = go_fold (filter_step reg) servers ([], 0)"

text \<open>One round of the loop over distances: the least distance of the servers not chosen yet,
  starting from the largest possible one.\<close>

definition min_dist :: "rat \<Rightarrow> rat list \<Rightarrow> bool list \<Rightarrow> rat" where
  "min_dist maxDist distances picked =
     fold (\<lambda>(d, c) m. if \<not> c \<and> d \<le> m then d else m) (zip distances picked) maxDist"

definition choose_within :: "rat \<Rightarrow> rat list \<Rightarrow> bool list \<Rightarrow> bool list" where
  "choose_within bound distances picked = map (\<lambda>(d, c). c \<or> d \<le> bound) (zip distances picked)"

text \<open>\<open>for chosen < max\<close>: \<open>chosen\<close> counts the entries set, as the source counts while it sets them.
  Nothing makes a round picked a server, so the loop is a partial function.\<close>

partial_function (option) choose_loop :: "rat \<Rightarrow> rat list \<Rightarrow> int \<Rightarrow> int \<Rightarrow> bool list \<Rightarrow> bool list option" where
  "choose_loop maxDist distances maxn chosen picked =
     (if chosen < maxn then
        (let minDist = min_dist maxDist distances picked * (105 / 100);
             picked' = choose_within minDist distances picked;
             chosen' = chosen + int (length (filter (\<lambda>(c, c'). \<not> c \<and> c') (zip picked picked')))
         in choose_loop maxDist distances maxn chosen' picked')
      else Some picked)"

text \<open>The block for the closest servers: the servers chosen and the sum of their weights; \<open>None\<close> when
  the loop does not end.\<close>

definition choose_closest ::
  "angle_fn \<Rightarrow> location \<Rightarrow> int \<Rightarrow> zrecord list \<Rightarrow> (zrecord list \<times> int) option" where
  "choose_closest angle loc maxn servers =
     (let distances = map (\<lambda>s. Distance angle loc (rec_Loc s)) servers
      in map_option
           (\<lambda>picked.
              let tmpServers = map fst (filter snd (zip servers picked))
              in (tmpServers, fold (\<lambda>s wsum. wrap64 (wsum + rec_Weight s)) tmpServers 0))
           (choose_loop (MaxDistance loc) distances maxn 0 (replicate (length servers) False)))"

text \<open>The inner loop of the weighted selection: the index of the first server at which the running
  sum \<open>s\<close> of the weights reaches \<open>n\<close>.\<close>

fun pick_index :: "int \<Rightarrow> int \<Rightarrow> nat \<Rightarrow> zrecord list \<Rightarrow> nat option" where
  "pick_index n s i [] = None"
| "pick_index n s i (r # rs) =
     (let s = wrap64 (s + rec_Weight r) in if n \<le> s then Some i else pick_index n s (Suc i) rs)"

text \<open>The outer loop: \<open>k\<close> slots of the result are still to be filled.\<close>

fun pick_loop ::
  "nat \<Rightarrow> int \<Rightarrow> zrecord list \<Rightarrow> rnd_state \<Rightarrow> (zrecord option list \<times> rnd_state) go" where
  "pick_loop 0 wsum servers st = Inr ([], st)"
| "pick_loop (Suc k) wsum servers st =
     go_bind (rand_Intn (wrap64 (wsum + 1)) st) (\<lambda>(n, st).
       case pick_index n 0 0 servers of
         None \<Rightarrow> go_bind (pick_loop k wsum servers st) (\<lambda>(res, st). Inr (None # res, st))
       | Some i \<Rightarrow>
           go_bind (pick_loop k (wrap64 (wsum - rec_Weight (servers ! i)))
                      (take i servers @ drop (Suc i) servers) st)
             (\<lambda>(res, st). Inr (Some (servers ! i) # res, st)))"

text \<open>A result: \<open>None\<close> is a call that does not return.\<close>

type_synonym pick_result = "(zrecord option list option \<times> rnd_state) go option"

definition pick_return :: "zrecord list \<Rightarrow> rnd_state \<Rightarrow> pick_result" where
  "pick_return servers st = Some (Inr (Some (map Some servers), st))"

text \<open>The part of \<open>Picker\<close> after the health filter.\<close>

definition pick_weighted ::
  "angle_fn \<Rightarrow> zrecord label \<Rightarrow> uint16 \<Rightarrow> int \<Rightarrow> location option \<Rightarrow>
   zrecord list \<Rightarrow> int \<Rightarrow> rnd_state \<Rightarrow> pick_result" where
  "pick_weighted angle label qtype maxn loc servers wsum st =
     (if map_get (lb_Weight label) qtype 0 = 0 then pick_return servers st
      else
        let maxn = (if qtype = TypeCNAME \<or> qtype = TypeMF then 1 else maxn);
            rrCount = int (length servers);
            maxn = (if rrCount < maxn then rrCount else maxn)
        in if maxn < 0 then Some (Inl MakeSliceLen)
           else map_option
             (\<lambda>(servers, wsum).
                go_bind (pick_loop (nat maxn) wsum servers st) (\<lambda>(res, st). Inr (Some res, st)))
             (case loc of
                Some l \<Rightarrow>
                  if (qtype = TypeA \<or> qtype = TypeAAAA) \<and> maxn < rrCount
                  then choose_closest angle l maxn servers else Some (servers, wsum)
              | None \<Rightarrow> Some (servers, wsum)))"

definition pick_type ::
  "registry \<Rightarrow> angle_fn \<Rightarrow> zrecord label \<Rightarrow> uint16 \<Rightarrow> int \<Rightarrow> location option \<Rightarrow>
   rnd_state \<Rightarrow> pick_result" where
  "pick_type reg angle label qtype maxn loc st =
     (case map_of (lb_Records label) qtype of
        None \<Rightarrow> Some (Inr (None, st))
      | Some labelRR \<Rightarrow>
          if lb_Test label \<noteq> None then
            (case filterHealth reg labelRR of
               Inl p \<Rightarrow> Some (Inl p)
             | Inr (servers, wsum) \<Rightarrow>
                 if wsum = 0 then pick_return servers st
                 else pick_weighted angle label qtype maxn loc servers wsum st)
          else pick_weighted angle label qtype maxn loc labelRR (map_get (lb_Weight label) qtype 0) st)"

text \<open>The loop of an ANY query over the record types of the label. A label with records of type ANY
  would send \<open>Picker\<close> into itself for ever.\<close>

fun pick_any ::
  "registry \<Rightarrow> angle_fn \<Rightarrow> zrecord label \<Rightarrow> uint16 list \<Rightarrow> int \<Rightarrow> location option \<Rightarrow>
   zrecord option list option \<Rightarrow> rnd_state \<Rightarrow> pick_result" where
  "pick_any reg angle label [] maxn loc result st = Some (Inr (result, st))"
| "pick_any reg angle label (rtype # rtypes) maxn loc result st =
     (if rtype = TypeANY then Some (Inl StackOverflow)
      else case pick_type reg angle label rtype maxn loc st of
             None \<Rightarrow> None
           | Some (Inl p) \<Rightarrow> Some (Inl p)
           | Some (Inr (rtypeRecords, st)) \<Rightarrow>
               pick_any reg angle label rtypes maxn loc
                 (Some ((case result of None \<Rightarrow> [] | Some r \<Rightarrow> r) @
                        (case rtypeRecords of None \<Rightarrow> [] | Some r \<Rightarrow> r))) st)"

definition Picker ::
  "registry \<Rightarrow> angle_fn \<Rightarrow> zrecord label \<Rightarrow> uint16 \<Rightarrow> int \<Rightarrow> location option \<Rightarrow>
   rnd_state \<Rightarrow> pick_result" where
  "Picker reg angle label qtype maxn loc st =
     (if qtype = TypeANY then pick_any reg angle label (keys (lb_Records label)) maxn loc None st
      else pick_type reg angle label qtype maxn loc st)"

section \<open>The weighted selection\<close>

definition weight_sum :: "zrecord list \<Rightarrow> int" where
  "weight_sum rs = sum_list (map rec_Weight rs)"

definition weights_ok :: "zrecord list \<Rightarrow> bool" where
  "weights_ok rs \<longleftrightarrow> list_all (\<lambda>r. 0 \<le> rec_Weight r) rs \<and> weight_sum rs < 2 ^ 63 - 1"

lemma weight_sum_simps [simp]:
  "weight_sum [] = 0" "weight_sum (r # rs) = rec_Weight r + weight_sum rs"
  "weight_sum (xs @ ys) = weight_sum xs + weight_sum ys"
  by (simp_all add: weight_sum_def)

lemma weight_sum_nonneg: "list_all (\<lambda>r. 0 \<le> rec_Weight r) rs \<Longrightarrow> 0 \<le> weight_sum rs"
  by (induction rs) auto

lemma weight_sum_mset: "mset xs = mset ys \<Longrightarrow> weight_sum xs = weight_sum ys"
  unfolding weight_sum_def by (metis mset_map sum_mset_sum_list)

lemma weight_sum_subset:
  assumes "mset xs \<subseteq># mset ys" and "list_all (\<lambda>r. 0 \<le> rec_Weight r) ys"
  shows "weight_sum xs \<le> weight_sum ys"
proof -
  obtain zs where zs: "mset ys = mset (xs @ zs)"
    using assms(1) by (metis ex_mset mset_append subset_mset.add_diff_inverse)
  then have "set zs \<subseteq> set ys" by (metis Un_upper2 set_append set_mset_mset)
  then have "0 \<le> weight_sum zs" using assms(2) by (intro weight_sum_nonneg) (auto simp: list_all_iff)
  then show ?thesis using weight_sum_mset [OF zs] by simp
qed

lemma weights_ok_subset: "mset xs \<subseteq># mset ys \<Longrightarrow> weights_ok ys \<Longrightarrow> weights_ok xs"
  using weight_sum_subset [of xs ys] set_mset_mono [of "mset xs" "mset ys"]
  by (auto simp: weights_ok_def list_all_iff)

lemma pick_index_Some_iff:
  assumes "list_all (\<lambda>r. 0 \<le> rec_Weight r) rs" and "0 \<le> s" and "s + weight_sum rs < 2 ^ 63"
  shows "pick_index n s i rs = Some j \<longleftrightarrow>
    i \<le> j \<and> j - i < length rs \<and> n \<le> s + weight_sum (take (Suc (j - i)) rs) \<and>
    (i < j \<longrightarrow> s + weight_sum (take (j - i) rs) < n)"
  using assms
proof (induction rs arbitrary: s i)
  case (Cons r rs)
  have nn: "0 \<le> weight_sum rs" "0 \<le> rec_Weight r" using Cons.prems by (simp_all add: weight_sum_nonneg)
  with Cons.prems have w: "wrap64 (s + rec_Weight r) = s + rec_Weight r" by (intro wrap64_id) (simp add: int64_def)
  have pos: "0 \<le> weight_sum (take k rs)" for k
    using Cons.prems(1) by (intro weight_sum_nonneg list_all_take) simp
  show ?case
  proof (cases "n \<le> s + rec_Weight r")
    case True
    have "\<not> s + weight_sum (take (j - i) (r # rs)) < n" if "i < j"
      using that True pos [of "j - Suc i"] by (simp add: Suc_diff_Suc [symmetric])
    then show ?thesis using True w by auto
  next
    case False
    with w have "pick_index n s i (r # rs) = Some j \<longleftrightarrow> pick_index n (s + rec_Weight r) (Suc i) rs = Some j" by simp
    also have "\<dots> \<longleftrightarrow> Suc i \<le> j \<and> j - Suc i < length rs \<and>
        n \<le> (s + rec_Weight r) + weight_sum (take (Suc (j - Suc i)) rs) \<and>
        (Suc i < j \<longrightarrow> (s + rec_Weight r) + weight_sum (take (j - Suc i) rs) < n)"
      using Cons.prems nn by (intro Cons.IH) auto
    also have "\<dots> \<longleftrightarrow> i \<le> j \<and> j - i < length (r # rs) \<and> n \<le> s + weight_sum (take (Suc (j - i)) (r # rs)) \<and>
        (i < j \<longrightarrow> s + weight_sum (take (j - i) (r # rs)) < n)"
    proof (cases "i < j")
      case True
      then obtain m where "j = Suc (i + m)" by (auto simp: less_iff_Suc_add)
      then show ?thesis using False by (cases m) (auto simp: add.assoc)
    qed (use False in auto)
    finally show ?thesis .
  qed
qed simp

lemma pick_index_found:
  assumes "list_all (\<lambda>r. 0 \<le> rec_Weight r) rs" and "0 \<le> s" and "s + weight_sum rs < 2 ^ 63"
    and "rs \<noteq> []" and "n \<le> s + weight_sum rs"
  shows "\<exists>j. pick_index n s i rs = Some j"
  using assms
proof (induction rs arbitrary: s i)
  case (Cons r rs)
  have nn: "0 \<le> weight_sum rs" "0 \<le> rec_Weight r" using Cons.prems by (simp_all add: weight_sum_nonneg)
  with Cons.prems have w: "wrap64 (s + rec_Weight r) = s + rec_Weight r" by (intro wrap64_id) (simp add: int64_def)
  show ?case
  proof (cases "n \<le> s + rec_Weight r")
    case False
    then have "rs \<noteq> []" using Cons.prems by auto
    with Cons.IH [of "s + rec_Weight r" "Suc i"] Cons.prems nn False w show ?thesis by (auto simp: add.assoc)
  qed (simp add: w)
qed simp

lemma pick_loop_ok:
  assumes "weights_ok servers" and "k \<le> length servers"
  shows "\<exists>rs st'. pick_loop k (weight_sum servers) servers st = Inr (map Some rs, st') \<and> length rs = k \<and>
           mset rs \<subseteq># mset servers"
  using assms
proof (induction k arbitrary: servers st)
  case (Suc k)
  obtain rnd c where st: "st = (rnd, c)" by (cases st)
  let ?W = "weight_sum servers"
  from Suc.prems have w: "list_all (\<lambda>r. 0 \<le> rec_Weight r) servers" "0 \<le> ?W" "?W < 2 ^ 63 - 1"
    by (simp_all add: weights_ok_def weight_sum_nonneg)
  then have wr: "wrap64 (?W + 1) = ?W + 1" by (intro wrap64_id) (simp add: int64_def)
  define n where "n = int (rnd c) mod (?W + 1)"
  have n: "0 \<le> n" "n \<le> ?W" using w pos_mod_bound [of "?W + 1" "int (rnd c)"] by (simp_all add: n_def)
  have ne: "servers \<noteq> []" using Suc.prems(2) by auto
  from pick_index_found [OF w(1), of 0 n 0] w(3) ne n obtain i where i: "pick_index n 0 0 servers = Some i" by auto
  then have il: "i < length servers" using pick_index_Some_iff [OF w(1), of 0 n 0 i] w(3) by simp
  let ?rest = "take i servers @ drop (Suc i) servers"
  have rest: "mset ?rest = mset servers - {#servers ! i#}" by (rule mset_remove_nth [OF il])
  have wrest: "weight_sum ?rest = ?W - rec_Weight (servers ! i)"
    using sum_list_remove_nth [OF il, of rec_Weight] by (simp add: weight_sum_def)
  have sub: "mset ?rest \<subseteq># mset servers" unfolding rest by simp
  have okr: "weights_ok ?rest" by (rule weights_ok_subset [OF sub Suc.prems(1)])
  then have "0 \<le> weight_sum ?rest" by (simp add: weights_ok_def weight_sum_nonneg del: weight_sum_simps)
  with wrest w weight_sum_subset [OF sub w(1)] have "int64 (?W - rec_Weight (servers ! i))"
    by (simp add: int64_def del: weight_sum_simps)
  then have wr': "wrap64 (?W - rec_Weight (servers ! i)) = weight_sum ?rest" by (simp only: wrap64_id wrest)
  have len: "k \<le> length ?rest" using Suc.prems(2) il by simp
  from Suc.IH [OF okr len, of "(rnd, Suc c)"] obtain rs st'
    where rec: "pick_loop k (weight_sum ?rest) ?rest (rnd, Suc c) = Inr (map Some rs, st')"
      and rs: "length rs = k" "mset rs \<subseteq># mset ?rest" by blast
  have "pick_loop (Suc k) ?W servers st = Inr (map Some (servers ! i # rs), st')"
    using w(2) rec by (simp add: st rand_Intn_def wr n_def [symmetric] i wr' del: weight_sum_simps)
  moreover have "mset (servers ! i # rs) \<subseteq># mset servers"
    using rs(2) il unfolding rest by (simp add: insert_subset_eq_iff in_multiset_in_set)
  ultimately show ?case using rs(1) by (metis length_Cons)
qed simp

section \<open>The closest servers\<close>

definition near :: "rat \<Rightarrow> rat list \<Rightarrow> bool list" where
  "near t ds = map (\<lambda>d. d \<le> t) ds"

definition count_near :: "rat \<Rightarrow> rat list \<Rightarrow> nat" where
  "count_near t ds = length (filter (\<lambda>d. d \<le> t) ds)"

lemma choose_within_near: "choose_within b ds (near t ds) = near (max t b) ds"
  by (induction ds) (auto simp: choose_within_def near_def)

lemma count_step:
  "t \<le> t' \<Longrightarrow> count_near t ds + length (filter (\<lambda>(c, c'). \<not> c \<and> c') (zip (near t ds) (near t' ds))) = count_near t' ds"
  by (induction ds) (auto simp: near_def count_near_def)

lemma fold_min_dist:
  fixes m :: rat
  defines "f \<equiv> \<lambda>(d, c) m. if \<not> c \<and> d \<le> m then d else m"
  shows "fold f xs m \<le> m \<and> (\<forall>d. (d, False) \<in> set xs \<longrightarrow> d \<le> m \<longrightarrow> fold f xs m \<le> d) \<and>
    (fold f xs m = m \<or> (fold f xs m, False) \<in> set xs)"
proof (induction xs arbitrary: m)
  case (Cons x xs)
  obtain d c where x: "x = (d, c)" by (cases x)
  show ?case
  proof (cases "\<not> c \<and> d \<le> m")
    case True
    then have "f x m = d" "c = False" by (simp_all add: f_def x)
    with Cons.IH [of d] True show ?thesis
      by (auto simp: x)
  next
    case False
    then have "f x m = m" by (auto simp: f_def x)
    with Cons.IH [of m] False show ?thesis by (auto simp: x)
  qed
qed simp

lemma min_dist_spec:
  assumes "\<forall>d \<in> set ds. d \<le> mx" and "\<exists>d \<in> set ds. \<not> d \<le> t"
  shows "min_dist mx ds (near t ds) \<in> set ds \<and> t < min_dist mx ds (near t ds) \<and>
    (\<forall>d \<in> set ds. t < d \<longrightarrow> min_dist mx ds (near t ds) \<le> d)"
proof -
  have z: "(d, False) \<in> set (zip ds (near t ds)) \<longleftrightarrow> d \<in> set ds \<and> t < d" for d
    by (induction ds) (auto simp: near_def not_le)
  note spec = fold_min_dist [of "zip ds (near t ds)" mx]
  have m: "\<forall>d \<in> set ds. t < d \<longrightarrow> min_dist mx ds (near t ds) \<le> d"
    "min_dist mx ds (near t ds) = mx \<or> min_dist mx ds (near t ds) \<in> set ds \<and> t < min_dist mx ds (near t ds)"
    using spec assms(1) unfolding min_dist_def z by blast+
  from assms(2) obtain d where "d \<in> set ds" "t < d" by (auto simp: not_le)
  with m assms(1) show ?thesis by (metis antisym)
qed

text \<open>The bound of the last round, for distances in ascending order: a round takes every server within 5\% of the nearest one
  left; the rounds end when \<open>n\<close> servers are taken.\<close>

function closest_bound :: "int \<Rightarrow> rat list \<Rightarrow> rat" where
  "closest_bound n [] = 0"
| "closest_bound n (d # ds) =
     (let bound = d * (105 / 100);
          taken = 1 + int (length (filter (\<lambda>x. x \<le> bound) ds))
      in if n \<le> taken then bound else closest_bound (n - taken) (filter (\<lambda>x. bound < x) ds))"
  by pat_completeness auto
termination
  by (relation "measure (length \<circ> snd)") (simp_all add: le_imp_less_Suc)

lemma count_near_sort [simp]: "count_near t (sort ds) = count_near t ds"
  unfolding count_near_def by (metis mset_filter mset_sort size_mset)

lemma filter_band:
  fixes t b :: rat
  shows "t \<le> b \<Longrightarrow> length (filter (\<lambda>d. d \<le> b) xs) = length (filter (\<lambda>d. d \<le> t) xs) + length (filter (\<lambda>d. t < d \<and> d \<le> b) xs)"
  by (induction xs) (auto simp: not_le)

lemma choose_loop_bound:
  assumes "\<forall>d \<in> set ds. 0 \<le> d \<and> d \<le> mx" and "maxn \<le> int (length ds)" and "int (count_near t ds) < maxn"
  shows "choose_loop mx ds maxn (int (count_near t ds)) (near t ds) =
    Some (near (closest_bound (maxn - int (count_near t ds)) (filter (\<lambda>d. t < d) (sort ds))) ds)"
  using assms(3)
proof (induction "length ds - count_near t ds" arbitrary: t rule: less_induct)
  case less
  have far: "\<exists>d \<in> set ds. \<not> d \<le> t"
  proof (rule ccontr)
    assume "\<not> (\<exists>d \<in> set ds. \<not> d \<le> t)"
    then have "count_near t ds = length ds" by (simp add: count_near_def)
    with less.prems assms(2) show False by simp
  qed
  then obtain m rest where rest: "filter (\<lambda>d. t < d) (sort ds) = m # rest"
    by (cases "filter (\<lambda>d. t < d) (sort ds)") (auto simp: filter_empty_conv not_le)
  have "sorted (m # rest)" using sorted_filter [of "\<lambda>x. x" "sort ds" "\<lambda>d. t < d"] rest by simp
  moreover have set: "set (m # rest) = {d \<in> set ds. t < d}" using arg_cong [OF rest, of set] by simp
  ultimately have m: "m \<in> set ds" "t < m" "\<forall>d \<in> set ds. t < d \<longrightarrow> m \<le> d" by auto
  have min: "min_dist mx ds (near t ds) = m"
    using min_dist_spec [OF _ far, of mx] assms(1) m by (metis antisym)
  define b where "b = m * (105 / 100)"
  have cb: "closest_bound n (m # rest) = (let taken = 1 + int (length (filter (\<lambda>x. x \<le> b) rest))
      in if n \<le> taken then b else closest_bound (n - taken) (filter (\<lambda>x. b < x) rest))" for n
    by (simp only: closest_bound.simps b_def Let_def)
  have mt: "m \<le> b" using m(1) assms(1) by (simp add: b_def)
  then have tt: "t \<le> b" "max t b = b" using m(2) by auto
  have taken: "int (count_near b ds) = int (count_near t ds) + (1 + int (length (filter (\<lambda>x. x \<le> b) rest)))"
  proof -
    have "filter (\<lambda>d. d \<le> b) (m # rest) = filter (\<lambda>d. t < d \<and> d \<le> b) (sort ds)" unfolding rest [symmetric] by simp
    from arg_cong [OF this [symmetric], of length] mt
    have "length (filter (\<lambda>d. t < d \<and> d \<le> b) (sort ds)) = 1 + length (filter (\<lambda>x. x \<le> b) rest)" by simp
    moreover have "count_near b (sort ds) = count_near t (sort ds) + length (filter (\<lambda>d. t < d \<and> d \<le> b) (sort ds))"
      unfolding count_near_def by (rule filter_band [OF tt(1)])
    ultimately show ?thesis by simp
  qed
  have step: "choose_loop mx ds maxn (int (count_near t ds)) (near t ds) =
      choose_loop mx ds maxn (int (count_near b ds)) (near b ds)"
    using less.prems count_step [OF tt(1), of ds]
    by (subst choose_loop.simps) (simp only: min b_def [symmetric] choose_within_near tt(2) Let_def if_True of_nat_add [symmetric])
  show ?case
  proof (cases "int (count_near b ds) < maxn")
    case False
    then have "choose_loop mx ds maxn (int (count_near b ds)) (near b ds) = Some (near b ds)"
      by (subst choose_loop.simps) simp
    with step False taken show ?thesis by (simp add: rest cb Let_def del: closest_bound.simps)
  next
    case True
    have "filter (\<lambda>d. b < d) (sort ds) = filter (\<lambda>d. b < d) (m # rest)"
      unfolding rest [symmetric] using tt(1) by (auto intro: filter_cong)
    then have r: "filter (\<lambda>d. b < d) (sort ds) = filter (\<lambda>d. b < d) rest" using mt by simp
    have "length ds - count_near b ds < length ds - count_near t ds"
      using taken True assms(2) by linarith
    from less.hyps [OF this True] step r taken True show ?thesis by (simp add: rest cb Let_def diff_diff_eq del: closest_bound.simps)
  qed
qed

lemma fold_weights:
  assumes "list_all (\<lambda>r. 0 \<le> rec_Weight r) rs" and "0 \<le> a" and "a + weight_sum rs < 2 ^ 63"
  shows "fold (\<lambda>s wsum. wrap64 (wsum + rec_Weight s)) rs a = a + weight_sum rs"
  using assms
proof (induction rs arbitrary: a)
  case (Cons r rs)
  have "0 \<le> weight_sum rs" using Cons.prems by (simp add: weight_sum_nonneg)
  with Cons.prems have "wrap64 (a + rec_Weight r) = a + rec_Weight r" by (intro wrap64_id) (simp add: int64_def)
  with Cons.IH [of "a + rec_Weight r"] Cons.prems show ?case by simp
qed simp

definition server_distance :: "angle_fn \<Rightarrow> location \<Rightarrow> zrecord \<Rightarrow> rat" where
  "server_distance angle loc s = Distance angle loc (rec_Loc s)"

lemma server_distance_nonneg: "0 \<le> server_distance angle loc s"
  by (simp add: server_distance_def Distance_def MAX_DISTANCE_def split: option.splits)

lemma chosen_servers: "map fst (filter snd (zip xs (map P xs))) = filter P xs"
  by (induction xs) auto

lemma choose_closest_bound:
  assumes "weights_ok servers" and "0 < maxn" and "maxn \<le> int (length servers)"
    and "\<forall>s \<in> set servers. server_distance angle loc s \<le> MAX_DISTANCE"
  defines "b \<equiv> closest_bound maxn (sort (map (server_distance angle loc) servers))"
  shows "choose_closest angle loc maxn servers =
    (let cs = filter (\<lambda>s. server_distance angle loc s \<le> b) servers in Some (cs, weight_sum cs))"
proof -
  let ?f = "server_distance angle loc"
  let ?ds = "map ?f servers"
  have ds: "\<forall>d \<in> set ?ds. 0 \<le> d \<and> d \<le> MAX_DISTANCE" using assms(4) server_distance_nonneg by auto
  have pos: "- 1 < ?f s" for s using server_distance_nonneg [of angle loc s] by linarith
  have all: "filter (\<lambda>d. - 1 < d) (sort ?ds) = sort ?ds" by (intro filter_True) (simp add: pos)
  have none: "near (- 1) ?ds = replicate (length servers) False" "count_near (- 1) ?ds = 0"
    using server_distance_nonneg [of angle loc]
    by (simp_all add: near_def count_near_def map_replicate_const [symmetric] filter_empty_conv not_le)
      (auto intro: less_le_trans [of "- 1" 0] simp: not_le)
  have loop: "choose_loop MAX_DISTANCE ?ds maxn 0 (replicate (length servers) False) = Some (near b ?ds)"
    using choose_loop_bound [OF ds, of maxn "- 1"] assms(2,3) none all by (simp add: b_def)
  let ?cs = "filter (\<lambda>s. ?f s \<le> b) servers"
  have "map fst (filter snd (zip servers (near b ?ds))) = ?cs"
    using chosen_servers [of servers "\<lambda>s. ?f s \<le> b"] by (simp add: near_def comp_def)
  moreover have "weights_ok ?cs" by (rule weights_ok_subset [OF _ assms(1)]) (simp add: mset_filter)
  then have "fold (\<lambda>s wsum. wrap64 (wsum + rec_Weight s)) ?cs 0 = weight_sum ?cs"
    using fold_weights [of ?cs 0] by (simp add: weights_ok_def)
  ultimately show ?thesis
    using loop by (simp add: choose_closest_def server_distance_def [symmetric] MaxDistance_def Let_def)
qed

lemma closest_bound_enough:
  assumes "0 < n" "n \<le> int (length ds)" "\<forall>d \<in> set ds. 0 \<le> d"
  shows "n \<le> int (count_near (closest_bound n ds) ds)"
  using assms
proof (induction n ds rule: closest_bound.induct)
  case (2 n d ds)
  define b where "b = d * (105 / 100)"
  define near far where "near = filter (\<lambda>x. x \<le> b) ds" and "far = filter (\<lambda>x. b < x) ds"
  have b: "d \<le> b" using "2.prems"(3) by (simp add: b_def)
  have len: "length ds = length near + length far"
    unfolding near_def far_def using sum_length_filter_compl [of "\<lambda>x. x \<le> b" ds] by (simp only: not_le)
  show ?case
  proof (cases "n \<le> 1 + int (length near)")
    case True
    then have "closest_bound n (d # ds) = b" by (simp add: b_def near_def Let_def)
    with True b show ?thesis by (simp add: count_near_def near_def)
  next
    case False
    define c where "c = closest_bound (n - (1 + int (length near))) far"
    have eq: "closest_bound n (d # ds) = c"
      unfolding c_def near_def far_def b_def using False [unfolded near_def b_def] by (simp only: closest_bound.simps Let_def if_False)
    have IH: "n - (1 + int (length near)) \<le> int (count_near c far)"
      unfolding c_def near_def far_def b_def
      by (rule "2.IH" [OF refl refl])
        (use False "2.prems" len in \<open>auto simp only: near_def far_def b_def set_filter mem_Collect_eq list.set insert_iff length_Cons\<close>)
    then have "count_near c far \<noteq> 0" using False by linarith
    then obtain x where "x \<in> set far" "x \<le> c" by (auto simp: count_near_def filter_empty_conv)
    then have bc: "b \<le> c" by (simp add: far_def)
    have "count_near c ds = length near + count_near c far"
      unfolding count_near_def near_def far_def using bc by (induction ds) auto
    with IH b bc show ?thesis unfolding eq by (simp add: count_near_def)
  qed
qed simp

section \<open>The health filter\<close>

definition is_healthy :: "registry \<Rightarrow> zrecord \<Rightarrow> bool" where
  "is_healthy reg r \<longleftrightarrow> rec_Test r = [] \<or> GetStatus reg (rec_Test r) = Inr StatusHealthy"

definition tests_ok :: "registry \<Rightarrow> zrecord list \<Rightarrow> bool" where
  "tests_ok reg rs \<longleftrightarrow> list_all (\<lambda>r. rec_Test r = [] \<or> go_ok (GetStatus reg (rec_Test r))) rs"

lemma filter_step_ok:
  "rec_Test r = [] \<or> go_ok (GetStatus reg (rec_Test r)) \<Longrightarrow>
   filter_step reg r (tmp, w) =
     Inr (if is_healthy reg r then (tmp @ [r], wrap64 (w + rec_Weight r)) else (tmp, w))"
  by (auto simp: filter_step_def is_healthy_def go_ok_iff)

lemma filterHealth_loop:
  assumes "tests_ok reg rs" and "list_all (\<lambda>r. 0 \<le> rec_Weight r) rs" and "0 \<le> w" and "w + weight_sum rs < 2 ^ 63"
  shows "go_fold (filter_step reg) rs (tmp, w) =
    Inr (tmp @ filter (is_healthy reg) rs, w + weight_sum (filter (is_healthy reg) rs))"
  using assms
proof (induction rs arbitrary: tmp w)
  case (Cons r rs)
  have "0 \<le> weight_sum rs" using Cons.prems by (simp add: weight_sum_nonneg)
  with Cons.prems have w: "wrap64 (w + rec_Weight r) = w + rec_Weight r" by (intro wrap64_id) (simp add: int64_def)
  from Cons.prems(1) have "tests_ok reg rs" and "rec_Test r = [] \<or> go_ok (GetStatus reg (rec_Test r))"
    by (simp_all add: tests_ok_def)
  then show ?case using Cons.prems Cons.IH [of "w + rec_Weight r" "tmp @ [r]"] Cons.IH [of w tmp] w \<open>0 \<le> weight_sum rs\<close>
    by (simp add: filter_step_ok)
qed simp

lemma filterHealth_spec:
  assumes "tests_ok reg rs" and "weights_ok rs"
  shows "filterHealth reg rs = Inr (filter (is_healthy reg) rs, weight_sum (filter (is_healthy reg) rs))"
  using filterHealth_loop [OF assms(1), of 0 "[]"] assms(2) by (simp add: filterHealth_def weights_ok_def)

section \<open>The whole choice\<close>

text \<open>The weights of a label as the reader leaves them: \<open>Weight[qtype]\<close> is the sum of the weights of the
  records, none is negative and the sum does not overflow.\<close>

definition label_ok :: "zrecord label \<Rightarrow> uint16 \<Rightarrow> bool" where
  "label_ok l qtype =
     (case map_of (lb_Records l) qtype of
        None \<Rightarrow> True
      | Some rs \<Rightarrow> weights_ok rs \<and> map_get (lb_Weight l) qtype 0 = weight_sum rs)"

definition pick_count :: "uint16 \<Rightarrow> int \<Rightarrow> zrecord list \<Rightarrow> nat" where
  "pick_count qtype maxn servers =
     (if weight_sum servers = 0 then length servers
      else min (nat (if qtype = TypeCNAME \<or> qtype = TypeMF then 1 else maxn)) (length servers))"

lemma choose_closest_zero: "choose_closest angle loc 0 servers = Some ([], 0)"
proof -
  have "choose_loop mx ds 0 0 picked = Some picked" for mx ds picked by (subst choose_loop.simps) simp
  moreover have "map fst (filter snd (zip servers (replicate (length servers) False))) = []"
    using chosen_servers [of servers "\<lambda>_. False"] by (simp add: map_replicate_const)
  ultimately show ?thesis by (simp add: choose_closest_def)
qed

lemma closest_cover:
  assumes "0 < n" "n \<le> int (length servers)"
  shows "n \<le> int (length (filter (\<lambda>s. server_distance angle loc s \<le>
    closest_bound n (sort (map (server_distance angle loc) servers))) servers))"
proof -
  have "n \<le> int (count_near (closest_bound n (sort (map (server_distance angle loc) servers))) (map (server_distance angle loc) servers))"
    using closest_bound_enough [of n "sort (map (server_distance angle loc) servers)"] assms server_distance_nonneg by simp
  then show ?thesis by (simp add: count_near_def filter_map comp_def)
qed

lemma choose_closest_ok:
  assumes "weights_ok servers" and "0 \<le> k" and "k \<le> int (length servers)"
    and "\<forall>s \<in> set servers. server_distance angle l s \<le> MAX_DISTANCE"
  shows "\<exists>cs. choose_closest angle l k servers = Some (cs, weight_sum cs) \<and> mset cs \<subseteq># mset servers \<and> k \<le> int (length cs)"
proof (cases "k = 0")
  case True
  then show ?thesis by (intro exI [of _ "[]"]) (simp add: choose_closest_zero)
next
  case False
  let ?ds = "sort (map (server_distance angle l) servers)"
  let ?cs = "filter (\<lambda>s. server_distance angle l s \<le> closest_bound k ?ds) servers"
  have "choose_closest angle l k servers = Some (?cs, weight_sum ?cs)"
    using choose_closest_bound [OF assms(1) _ assms(3,4)] False assms(2) by (simp add: Let_def)
  with closest_cover [OF _ assms(3), of angle l] False assms(2) show ?thesis by (simp add: mset_filter)
qed

lemma pick_weighted_ok:
  assumes "weights_ok servers" and "weight_sum servers = 0 \<longleftrightarrow> map_get (lb_Weight label) qtype 0 = 0" and "0 \<le> maxn"
    and "\<forall>l. loc = Some l \<longrightarrow> (\<forall>s \<in> set servers. server_distance angle l s \<le> MAX_DISTANCE)"
  shows "\<exists>rs st'. pick_weighted angle label qtype maxn loc servers (weight_sum servers) st =
      Some (Inr (Some (map Some rs), st')) \<and> mset rs \<subseteq># mset servers \<and> length rs = pick_count qtype maxn servers"
proof (cases "map_get (lb_Weight label) qtype 0 = 0")
  case True
  with assms(2) show ?thesis by (auto simp: pick_weighted_def pick_return_def pick_count_def)
next
  case False
  let ?m = "if qtype = TypeCNAME \<or> qtype = TypeMF then 1 else maxn"
  let ?k = "if int (length servers) < ?m then int (length servers) else ?m"
  let ?S = "case loc of
      Some l \<Rightarrow> if (qtype = TypeA \<or> qtype = TypeAAAA) \<and> ?k < int (length servers)
        then choose_closest angle l ?k servers else Some (servers, weight_sum servers)
    | None \<Rightarrow> Some (servers, weight_sum servers)"
  have k: "0 \<le> ?k" "?k \<le> int (length servers)" using assms(3) by auto
  have "\<exists>cs. ?S = Some (cs, weight_sum cs) \<and> mset cs \<subseteq># mset servers \<and> ?k \<le> int (length cs)"
  proof (cases "?S = Some (servers, weight_sum servers)")
    case False
    then obtain l where "loc = Some l" "?S = choose_closest angle l ?k servers" by (cases loc) (auto split: if_splits)
    with choose_closest_ok [OF assms(1) k] assms(4) show ?thesis by simp
  qed (use k in auto)
  then obtain cs where cs: "?S = Some (cs, weight_sum cs)" "mset cs \<subseteq># mset servers" "?k \<le> int (length cs)" by blast
  have "weights_ok cs" by (rule weights_ok_subset [OF cs(2) assms(1)])
  from pick_loop_ok [OF this, of "nat ?k" st] cs(3) obtain rs st' where
    rs: "pick_loop (nat ?k) (weight_sum cs) cs st = Inr (map Some rs, st')" "length rs = nat ?k" "mset rs \<subseteq># mset cs"
    by (auto simp: nat_le_iff)
  have "pick_weighted angle label qtype maxn loc servers (weight_sum servers) st = Some (Inr (Some (map Some rs), st'))"
    using False k(1) cs(1) rs(1) by (simp only: pick_weighted_def Let_def if_False not_less [symmetric] option.map) simp
  moreover have "length rs = pick_count qtype maxn servers"
    using rs(2) False assms(2) by (auto simp: pick_count_def)
  ultimately show ?thesis using rs(3) cs(2) by (meson subset_mset.order_trans)
qed

text \<open>The records a query of one type may be answered from.\<close>

definition candidates :: "registry \<Rightarrow> zrecord label \<Rightarrow> uint16 \<Rightarrow> zrecord list" where
  "candidates reg label qtype =
     (let rs = map_get (lb_Records label) qtype []
      in if lb_Test label = None then rs else filter (is_healthy reg) rs)"

lemma mset_candidates: "mset (candidates reg label qtype) \<subseteq># mset (map_get (lb_Records label) qtype [])"
  by (simp add: candidates_def Let_def mset_filter)

lemma pick_type_ok:
  assumes "map_of (lb_Records label) qtype = Some rrs" and "label_ok label qtype" and "tests_ok reg rrs" and "0 \<le> maxn"
    and "\<forall>l. loc = Some l \<longrightarrow> (\<forall>s \<in> set rrs. server_distance angle l s \<le> MAX_DISTANCE)"
  shows "\<exists>rs st'. pick_type reg angle label qtype maxn loc st = Some (Inr (Some (map Some rs), st')) \<and>
    mset rs \<subseteq># mset (candidates reg label qtype) \<and> length rs = pick_count qtype maxn (candidates reg label qtype)"
proof -
  let ?c = "candidates reg label qtype"
  have ok: "weights_ok rrs" and w: "map_get (lb_Weight label) qtype 0 = weight_sum rrs"
    using assms(1,2) by (simp_all add: label_ok_def)
  have sub: "mset ?c \<subseteq># mset rrs" using mset_candidates [of reg label qtype] assms(1) by (simp add: map_get_def)
  have okc: "weights_ok ?c" by (rule weights_ok_subset [OF sub ok])
  have dist: "\<forall>l. loc = Some l \<longrightarrow> (\<forall>s \<in> set ?c. server_distance angle l s \<le> MAX_DISTANCE)"
    using assms(5) sub by (metis mset_subset_eqD set_mset_mset)
  show ?thesis
  proof (cases "lb_Test label = None")
    case True
    then have "?c = rrs" using assms(1) by (simp add: candidates_def map_get_def)
    with True pick_weighted_ok [OF ok _ assms(4,5), of label qtype st] assms(1) w show ?thesis by (simp add: pick_type_def)
  next
    case False
    then have c: "?c = filter (is_healthy reg) rrs" using assms(1) by (auto simp: candidates_def map_get_def)
    then have f: "filterHealth reg rrs = Inr (?c, weight_sum ?c)" using filterHealth_spec [OF assms(3) ok] by simp
    show ?thesis
    proof (cases "weight_sum ?c = 0")
      case True
      with False f assms(1) show ?thesis by (auto simp: pick_type_def pick_return_def pick_count_def)
    next
      case ne: False
      have "weight_sum ?c \<le> weight_sum rrs" using weight_sum_subset [OF sub] ok by (simp add: weights_ok_def)
      moreover have "0 \<le> weight_sum ?c" using okc by (simp add: weights_ok_def weight_sum_nonneg)
      ultimately have "weight_sum ?c = 0 \<longleftrightarrow> map_get (lb_Weight label) qtype 0 = 0" using ne w by simp
      from pick_weighted_ok [OF okc this assms(4) dist, of st] False f ne assms(1) show ?thesis
        by (simp add: pick_type_def)
    qed
  qed
qed

text \<open>What a caller of \<open>Picker\<close> relies on, for every query type: no panic, no nil slot, and only records
  of the label.\<close>

definition label_pickable :: "registry \<Rightarrow> angle_fn \<Rightarrow> location option \<Rightarrow> zrecord label \<Rightarrow> bool" where
  "label_pickable reg angle loc label \<longleftrightarrow>
     distinct (keys (lb_Records label)) \<and> TypeANY \<notin> set (keys (lb_Records label)) \<and> 0 \<le> lb_MaxHosts label \<and>
     (\<forall>(t, rs) \<in> set (lb_Records label). label_ok label t \<and> tests_ok reg rs \<and>
        (\<forall>l. loc = Some l \<longrightarrow> (\<forall>s \<in> set rs. server_distance angle l s \<le> MAX_DISTANCE)))"

definition label_records :: "zrecord label \<Rightarrow> zrecord set" where
  "label_records label = (\<Union>(t, rs) \<in> set (lb_Records label). set rs)"

definition pick_safe :: "zrecord label \<Rightarrow> pick_result \<Rightarrow> bool" where
  "pick_safe label res \<longleftrightarrow>
     (\<exists>r st. res = Some (Inr (r, st)) \<and> (\<forall>xs. r = Some xs \<longrightarrow> set xs \<subseteq> Some ` label_records label))"

lemma pick_type_safe:
  assumes "label_pickable reg angle loc label"
  shows "pick_safe label (pick_type reg angle label qtype (lb_MaxHosts label) loc st)"
proof (cases "map_of (lb_Records label) qtype")
  case None
  then show ?thesis by (simp add: pick_type_def pick_safe_def)
next
  case (Some rrs)
  then have mem: "(qtype, rrs) \<in> set (lb_Records label)" by (rule map_of_SomeD)
  with assms have "label_ok label qtype" "tests_ok reg rrs" "0 \<le> lb_MaxHosts label"
    "\<forall>l. loc = Some l \<longrightarrow> (\<forall>s \<in> set rrs. server_distance angle l s \<le> MAX_DISTANCE)"
    by (auto simp: label_pickable_def)
  from pick_type_ok [OF Some this, of st] obtain rs st'
    where "pick_type reg angle label qtype (lb_MaxHosts label) loc st = Some (Inr (Some (map Some rs), st'))"
      and sub: "mset rs \<subseteq># mset (candidates reg label qtype)" by blast
  moreover have "set rs \<subseteq> set rrs"
    using sub mset_candidates [of reg label qtype] Some
    by (metis map_get_def option.case(2) set_mset_mono set_mset_mset subset_mset.order_trans)
  ultimately show ?thesis using mem by (auto simp: pick_safe_def label_records_def)
qed

lemma pick_any_safe:
  assumes "label_pickable reg angle loc label" and "TypeANY \<notin> set ts"
    and "\<forall>xs. res = Some xs \<longrightarrow> set xs \<subseteq> Some ` label_records label"
  shows "pick_safe label (pick_any reg angle label ts (lb_MaxHosts label) loc res st)"
  using assms(2,3)
proof (induction ts arbitrary: res st)
  case Nil
  then show ?case by (simp add: pick_safe_def)
next
  case (Cons t ts)
  from pick_type_safe [OF assms(1), of t st] obtain r st'
    where r: "pick_type reg angle label t (lb_MaxHosts label) loc st = Some (Inr (r, st'))"
      "\<forall>xs. r = Some xs \<longrightarrow> set xs \<subseteq> Some ` label_records label" by (auto simp: pick_safe_def)
  have "pick_safe label (pick_any reg angle label ts (lb_MaxHosts label) loc
      (Some ((case res of None \<Rightarrow> [] | Some r \<Rightarrow> r) @ (case r of None \<Rightarrow> [] | Some r \<Rightarrow> r))) st')"
    using Cons.prems r(2) by (intro Cons.IH) (auto split: option.splits)
  with Cons.prems r(1) show ?case by auto
qed

lemma Picker_safe:
  assumes "label_pickable reg angle loc label"
  shows "pick_safe label (Picker reg angle label qtype (lb_MaxHosts label) loc st)"
  using pick_type_safe [OF assms] pick_any_safe [OF assms, of "keys (lb_Records label)" None] assms
  by (simp add: Picker_def label_pickable_def)

section \<open>Automatic health tests\<close>

text \<open>A test named after the address of its record has no registry prefix, so its status is unknown.\<close>

lemma default_test_unhealthy:
  "rec_Test r = [] \<Longrightarrow> rr_address (rec_RR r) \<noteq> None \<Longrightarrow>
   \<not> is_healthy reg (default_test r) \<and> go_ok (GetStatus reg (rec_Test (default_test r)))"
proof -
  assume r: "rec_Test r = []" "rr_address (rec_RR r) \<noteq> None"
  then obtain ip where ip: "rec_Test (default_test r) = IP_String ip"
    by (auto simp: default_test_def rr_address_def split: rr.splits)
  moreover have "IP_String ip \<noteq> []" by (rule IP_String_nonempty)
  moreover have "GetStatus reg (IP_String ip) = Inr StatusUnknown"
    by (rule GetStatus_no_slash [OF IP_String_no_slash])
  ultimately show ?thesis by (simp add: is_healthy_def status_defs)
qed

section \<open>Properties\<close>

text \<open>C8. For a label whose weights add up, health lookups that do not panic and a limit that is not negative, \<open>Picker\<close> always returns: no slot of the answer is nil, the
  answer is drawn without repetition from the healthy records of the type, and it has
  \<open>max_hosts\<close> of them, one for a CNAME, all of them when they are fewer or carry no weight.\<close>

theorem picker_selects:
  assumes "qtype \<noteq> TypeANY" and "map_of (lb_Records label) qtype = Some rrs" and "label_ok label qtype"
    and "tests_ok reg rrs" and "0 \<le> maxn"
    and "\<forall>l. loc = Some l \<longrightarrow> (\<forall>s \<in> set rrs. server_distance angle l s \<le> MAX_DISTANCE)"
  shows "\<exists>rs st'. Picker reg angle label qtype maxn loc st = Some (Inr (Some (map Some rs), st')) \<and>
    mset rs \<subseteq># mset (candidates reg label qtype) \<and> length rs = pick_count qtype maxn (candidates reg label qtype)"
  using pick_type_ok [OF assms(2-6), of st] assms(1) by (simp add: Picker_def)

text \<open>C11. The servers kept for a located client are found in rounds: a round keeps every server within 5\% of the nearest
  one that is left, and the rounds end when \<open>max\<close> servers are kept. So the servers kept are exactly those within the bound
  \<open>closest_bound\<close> computes from the sorted distances, the bound of the last round, and there are at least \<open>max\<close> of them. It
  is the nearest server of that round that is taken 5\% more of, not the \<open>max\<close>'th nearest of all.\<close>

theorem closest_servers:
  assumes "weights_ok servers" and "0 < maxn" and "maxn \<le> int (length servers)"
    and "\<forall>s \<in> set servers. server_distance angle loc s \<le> MAX_DISTANCE"
  shows "let b = closest_bound maxn (sort (map (server_distance angle loc) servers));
             cs = filter (\<lambda>s. server_distance angle loc s \<le> b) servers
         in choose_closest angle loc maxn servers = Some (cs, weight_sum cs) \<and> maxn \<le> int (length cs)"
  using choose_closest_bound [OF assms] closest_cover [OF assms(2,3)] by (simp add: Let_def)

text \<open>C12. The weighted choice of one of several servers: of the \<open>sum + 1\<close> equally likely draws exactly
  as many as its weight fall to a server, and one more to the first, the heaviest. \<close>

theorem weighted_pick_frequency:
  assumes "qtype \<notin> {TypeANY}" and "map_of (lb_Records label) qtype = Some rrs" and "label_ok label qtype"
    and "lb_Test label = None" and "0 < weight_sum rrs" and "distinct rrs" and "i < length rrs"
  shows "int (card {n. int n \<le> weight_sum rrs \<and>
      (\<exists>st'. Picker reg angle label qtype 1 None ((\<lambda>_. n), 0) = Some (Inr (Some [Some (rrs ! i)], st')))}) =
    rec_Weight (rrs ! i) + (if i = 0 then 1 else 0)"
proof -
  let ?W = "weight_sum rrs"
  have ok: "list_all (\<lambda>r. 0 \<le> rec_Weight r) rrs" "?W < 2 ^ 63 - 1" "map_get (lb_Weight label) qtype 0 = ?W"
    using assms(2,3) by (simp_all add: label_ok_def weights_ok_def)
  then have wr: "wrap64 (?W + 1) = ?W + 1" using assms(5) by (intro wrap64_id) (simp add: int64_def)
  have one: "(\<exists>st'. Picker reg angle label qtype 1 None ((\<lambda>_. n), 0) = Some (Inr (Some [Some (rrs ! i)], st'))) \<longleftrightarrow>
      pick_index (int n) 0 0 rrs = Some i" if n: "int n \<le> ?W" for n
  proof -
    have "rrs \<noteq> []" using assms(7) by auto
    then obtain j where j: "pick_index (int n) 0 0 rrs = Some j" "j < length rrs"
      using pick_index_found [OF ok(1), of 0 "int n" 0] pick_index_Some_iff [OF ok(1), of 0 "int n" 0] ok(2) n by force
    have "int n mod (?W + 1) = int n" using n by simp
    then have "\<exists>st'. Picker reg angle label qtype 1 None ((\<lambda>_. n), 0) = Some (Inr (Some [Some (rrs ! j)], st'))"
      using j assms(1,2,4,5,7) ok(3) wr
      by (auto simp: Picker_def pick_type_def pick_weighted_def rand_Intn_def Let_def)
    then show ?thesis using j assms(6,7) by (auto simp: nth_eq_iff_index_eq)
  qed
  define l where "l = (if i = 0 then 0 else weight_sum (take i rrs) + 1)"
  define u where "u = weight_sum (take (Suc i) rrs)"
  have w: "0 \<le> weight_sum (take i rrs)" "0 \<le> rec_Weight (rrs ! i)"
    using ok(1) assms(7) by (auto simp: list_all_length intro: weight_sum_nonneg list_all_take)
  have "weight_sum rrs = weight_sum (take (Suc i) rrs) + weight_sum (drop (Suc i) rrs)"
    by (metis append_take_drop_id weight_sum_simps(3))
  moreover have "0 \<le> weight_sum (drop (Suc i) rrs)"
    using ok(1) by (metis append_take_drop_id list_all_append weight_sum_nonneg)
  ultimately have lu: "0 \<le> l" "l \<le> u + 1" "u \<le> ?W"
    using w assms(7) by (auto simp: l_def u_def take_Suc_conv_app_nth)
  have idx: "pick_index n 0 0 rrs = Some i \<longleftrightarrow> n \<le> u \<and> (0 < i \<longrightarrow> weight_sum (take i rrs) < n)" for n
    using pick_index_Some_iff [OF ok(1), of 0 n 0 i] ok(2) assms(7) by (simp add: u_def)
  have "{n. int n \<le> ?W \<and> (\<exists>st'. Picker reg angle label qtype 1 None ((\<lambda>_. n), 0) = Some (Inr (Some [Some (rrs ! i)], st')))}
      = {n. int n \<le> ?W \<and> pick_index (int n) 0 0 rrs = Some i}" using one by blast
  also have "\<dots> = nat ` {l..u}"
  proof (intro set_eqI iffI)
    fix n assume "n \<in> {n. int n \<le> ?W \<and> pick_index (int n) 0 0 rrs = Some i}"
    then have "int n \<in> {l..u}" by (auto simp: idx l_def u_def)
    then have "nat (int n) \<in> nat ` {l..u}" by (rule imageI)
    then show "n \<in> nat ` {l..u}" by simp
  next
    fix n assume "n \<in> nat ` {l..u}"
    then show "n \<in> {n. int n \<le> ?W \<and> pick_index (int n) 0 0 rrs = Some i}"
      using lu assms(7) by (auto simp: idx l_def u_def)
  qed
  also have "card \<dots> = card {l..u}"
    using lu by (intro card_image inj_onI) (auto simp: eq_nat_nat_iff)
  finally show ?thesis using lu assms(7) by (auto simp: l_def u_def take_Suc_conv_app_nth)
qed

definition sample_server :: "byte \<Rightarrow> int \<Rightarrow> location option \<Rightarrow> zrecord" where
  "sample_server b w loc = \<lparr>rec_RR = RR_A (sample_rr TypeA) [10, 0, 0, b], rec_Weight = w, rec_Loc = loc, rec_Test = []\<rparr>"

definition sample_servers :: "zrecord list" where
  "sample_servers = [sample_server 1 50 (Some sample_location), sample_server 2 30 None, sample_server 3 20 None]"

definition sample_balanced :: "zrecord label" where
  "sample_balanced = (sample_label ''www'' [(TypeA, sample_servers)])\<lparr>lb_Weight := [(TypeA, 100)]\<rparr>"

lemmas sample_picker_defs = sample_balanced_def sample_servers_def sample_server_def sample_label_def

lemma sample_balanced_ok: "map_of (lb_Records sample_balanced) TypeA = Some sample_servers"
  "label_ok sample_balanced TypeA" "tests_ok reg sample_servers" "weights_ok sample_servers"
  "weight_sum sample_servers = 100" "lb_Test sample_balanced = None" "TypeA \<noteq> TypeANY"
  by (simp_all add: sample_picker_defs label_ok_def weights_ok_def tests_ok_def map_get_def rrtype_defs)

lemma sample_distances:
  "\<forall>s \<in> set sample_servers. server_distance (\<lambda>_ _. 0) sample_location s \<le> MAX_DISTANCE"
  by (simp add: sample_picker_defs server_distance_def Distance_def MAX_DISTANCE_def)

theorem picker_selects_witness:
  "\<exists>rs st'. Picker [] (\<lambda>_ _. 0) sample_balanced TypeA 2 None ((\<lambda>_. 42), 0) = Some (Inr (Some (map Some rs), st')) \<and>
    mset rs \<subseteq># mset sample_servers \<and> length rs = 2"
proof -
  have "candidates [] sample_balanced TypeA = sample_servers" "pick_count TypeA 2 sample_servers = 2"
    using sample_balanced_ok(1,5,6) by (simp_all add: candidates_def map_get_def pick_count_def)
      (simp_all add: sample_servers_def rrtype_defs)
  then show ?thesis
    using picker_selects [OF sample_balanced_ok(7,1,2,3), of 2 None "\<lambda>_ _. 0" "[]" "((\<lambda>_. 42), 0)"] by simp
qed

text \<open>Servers at the distances 107, 100 and 104: two are wanted, and the one at 107 is left out although it is within 5\% of
  the second nearest.\<close>

definition at_latitude :: "rat \<Rightarrow> location" where
  "at_latitude d = sample_location\<lparr>Latitude := d\<rparr>"

definition spread_servers :: "zrecord list" where
  "spread_servers = [sample_server 1 50 (Some (at_latitude 107)), sample_server 2 30 (Some (at_latitude 100)),
     sample_server 3 20 (Some (at_latitude 104))]"

theorem closest_servers_witness:
  "choose_closest (\<lambda>_ p. fst p) sample_location 2 spread_servers =
     Some ([sample_server 2 30 (Some (at_latitude 100)), sample_server 3 20 (Some (at_latitude 104))], 50)"
proof -
  have d: "map (server_distance (\<lambda>_ p. fst p) sample_location) spread_servers = [107, 100, 104]"
    by (simp add: spread_servers_def sample_server_def server_distance_def Distance_def at_latitude_def)
  have b: "closest_bound 2 (sort [107, 100, 104]) = 105" by code_simp
  have w: "weights_ok spread_servers" "(2 :: int) \<le> int (length spread_servers)"
    by (simp_all add: spread_servers_def sample_server_def weights_ok_def)
  have m: "\<forall>s \<in> set spread_servers. server_distance (\<lambda>_ p. fst p) sample_location s \<le> MAX_DISTANCE"
    by (simp add: spread_servers_def sample_server_def server_distance_def Distance_def at_latitude_def MAX_DISTANCE_def)
  have "filter (\<lambda>s. server_distance (\<lambda>_ p. fst p) sample_location s \<le> 105) spread_servers =
      [sample_server 2 30 (Some (at_latitude 100)), sample_server 3 20 (Some (at_latitude 104))]"
    by (simp add: spread_servers_def sample_server_def server_distance_def Distance_def at_latitude_def)
  with closest_servers [OF w(1) _ w(2) m] show ?thesis unfolding d b by (simp add: Let_def sample_server_def)
qed

theorem weighted_pick_frequency_witness:
  "card {n. int n \<le> 100 \<and> (\<exists>st'. Picker [] (\<lambda>_ _. 0) sample_balanced TypeA 1 None ((\<lambda>_. n), 0) =
       Some (Inr (Some [Some (sample_server 2 30 None)], st')))} = 30"
  using weighted_pick_frequency [of TypeA sample_balanced sample_servers 1 "[]" "\<lambda>_ _. 0"] sample_balanced_ok
  by (simp add: sample_servers_def) (simp add: sample_server_def)

text \<open>A negative \<open>max_hosts\<close> panics when a weighted label is picked from.\<close>

theorem picker_negative_max_panics:
  assumes "qtype \<notin> {TypeANY, TypeCNAME, TypeMF}" and "map_of (lb_Records label) qtype = Some rrs"
    and "lb_Test label = None" and "map_get (lb_Weight label) qtype 0 \<noteq> 0" and "maxn < 0"
  shows "Picker reg angle label qtype maxn loc st = Some (Inl MakeSliceLen)"
  using assms by (auto simp: Picker_def pick_type_def pick_weighted_def)

theorem picker_negative_max_panics_witness:
  "Picker [] (\<lambda>_ _. 0) sample_balanced TypeA (-1) None ((\<lambda>_. 42), 0) = Some (Inl MakeSliceLen)"
  by (rule picker_negative_max_panics [where rrs = sample_servers])
    (simp_all add: sample_balanced_ok, simp_all add: sample_balanced_def map_get_def rrtype_defs)

text \<open>C38. In a label that refers to a health check, the address records that do not name a test
  themselves get one named after their address alone, which no registry knows; so whatever the health
  registry holds, a label none of whose records of the type names a test answers with no record of that type at all.\<close>

theorem auto_health_test_hides_records:
  assumes "lb_Test l \<noteq> None" and "map_of (lb_Records l) qtype = Some rrs" and "qtype \<noteq> TypeANY"
    and "\<forall>r \<in> set rrs. rec_Test r = [] \<and> rr_address (rec_RR r) \<noteq> None"
  shows "Picker reg angle (setup_label_tests l) qtype maxn loc st = Some (Inr (Some [], st))"
proof -
  let ?rs = "map default_test rrs"
  have m: "map_of (map (\<lambda>(qt, rs). (qt, map default_test rs)) m) qtype = map_option (map default_test) (map_of m qtype)"
    for m :: "(uint16 \<times> zrecord list) list"
    by (induction m) auto
  with assms(1,2) have l: "map_of (lb_Records (setup_label_tests l)) qtype = Some ?rs"
    "lb_Test (setup_label_tests l) \<noteq> None" by (auto simp: setup_label_tests_def)
  have step: "filter_step reg r (tmp, w) = Inr (tmp, w)" if "r \<in> set ?rs" for r tmp w
    using that assms(4) default_test_unhealthy [of _ reg] by (auto simp: filter_step_ok)
  have "go_fold (filter_step reg) xs ([], 0) = Inr ([], 0)" if "set xs \<subseteq> set ?rs" for xs
    using that step by (induction xs) auto
  then have "filterHealth reg ?rs = Inr ([], 0)" by (simp add: filterHealth_def)
  with l assms(3) show ?thesis by (auto simp: Picker_def pick_type_def pick_return_def)
qed

definition sample_checked :: "zrecord label" where
  "sample_checked = sample_balanced\<lparr>lb_Test := Some \<lparr>hr_name = ''web''\<rparr>\<rparr>"

theorem auto_health_test_hides_records_witness:
  "Picker [(''web'', \<lparr>sf_filename = ''web.json'', sf_m = Some [(''10.0.0.1'', Some StatusHealthy)]\<rparr>)] (\<lambda>_ _. 0)
     (setup_label_tests sample_checked) TypeA 2 None ((\<lambda>_. 42), 0) = Some (Inr (Some [], ((\<lambda>_. 42), 0)))"
proof -
  have "lb_Test sample_checked \<noteq> None" "map_of (lb_Records sample_checked) TypeA = Some sample_servers"
    using sample_balanced_ok(1) by (simp_all add: sample_checked_def)
  moreover have "\<forall>r \<in> set sample_servers. rec_Test r = [] \<and> rr_address (rec_RR r) \<noteq> None"
    by (simp add: sample_picker_defs rr_address_def)
  ultimately show ?thesis using auto_health_test_hides_records sample_balanced_ok(7) by blast
qed

end
