(* ===== verification/Reader.thy ===== *)
theory Reader
  imports Picker
begin

text \<open>
  \<open>zones/reader.go\<close>: from the decoded JSON of a zone file to a zone. While the data is read a slot of
  a record list may be nil (\<open>zrecord option\<close>); the last pass dereferences every slot, so the zone
  that is served has none. A panic anywhere in the reader is recovered into the error
  \<open>ReadZoneFile\<close> returns; a zone that failed to read is dropped by the caller, so the model returns
  the error alone. Labels the last pass adds while ranging over the label map carry no records and
  bring no further labels, so whether Go visits them makes no difference; the model adds them first.
  \<open>srt\<close> is \<open>sort.Sort\<close> on records by weight, \<open>newRR\<close> the zone-file parser of the vendored library.
\<close>

section \<open>Records of one type\<close>

definition recordTypes :: "(string \<times> uint16) list" where
  "recordTypes =
     [(''a'', TypeA), (''aaaa'', TypeAAAA), (''alias'', TypeMF), (''cname'', TypeCNAME), (''mx'', TypeMX),
      (''ns'', TypeNS), (''txt'', TypeTXT), (''spf'', TypeSPF), (''srv'', TypeSRV), (''ptr'', TypePTR)]"

text \<open>An element of \<open>records[rType]\<close>: a JSON value, or the \<open>[]string\<close> pair made from the map syntax.\<close>

datatype rdata_item = RJson json | RPair string string

definition rdata_items :: "json \<Rightarrow> rdata_item list go" where
  "rdata_items rdata =
     (case rdata of
        JObj m \<Rightarrow>
          go_map (\<lambda>(k, v). if v = JNull then Inr (RPair k []) else go_bind (as_string v) (\<lambda>s. Inr (RPair k s))) m
      | JStr s \<Rightarrow> Inr [RJson (JStr s)]
      | JArr xs \<Rightarrow> Inr (map RJson xs)
      | _ \<Rightarrow> Inl TypeAssertion)"

definition getStringWeight :: "json list \<Rightarrow> (string \<times> int) go" where
  "getStringWeight rec =
     (case rec of
        [] \<Rightarrow> Inl IndexOutOfRange
      | r0 # rest \<Rightarrow>
          go_bind (as_string r0) (\<lambda>str.
            case rest of
              JStr s # _ \<Rightarrow>
                (case atoi s of
                   None \<Rightarrow> Inl (Panic ''Error converting weight to integer'')
                 | Some w \<Rightarrow> Inr (str, w))
            | JNum q # _ \<Rightarrow> Inr (str, int_of_float q)
            | _ \<Rightarrow> Inr (str, 0)))"

text \<open>The header of a new record.\<close>

definition record_header :: "string \<Rightarrow> string \<Rightarrow> uint16 \<Rightarrow> rr_header" where
  "record_header origin label dnsType =
     \<lparr>Name = (if length label = 0 then origin @ ''.'' else label @ ''.'' @ origin @ ''.''),
      Rrtype = dnsType, Class = ClassINET, Ttl = 0, Rdlength = 0\<rparr>"

text \<open>The override of the test name by a \<open>health\<close> entry that is a string.\<close>

definition health_override :: "rdata_item \<Rightarrow> string" where
  "health_override item =
     (case item of
        RJson (JObj rec) \<Rightarrow> (case jget rec ''health'' of JStr h \<Rightarrow> h | _ \<Rightarrow> [])
      | _ \<Rightarrow> [])"

definition mk_record :: "rr \<Rightarrow> int \<Rightarrow> string \<Rightarrow> zrecord" where
  "mk_record rr w t = \<lparr>rec_RR = rr, rec_Weight = w, rec_Loc = None, rec_Test = t\<rparr>"

text \<open>\<open>if w, ok := r[k]; ok { x = conv(w) }\<close>\<close>

definition opt_field :: "jobject \<Rightarrow> string \<Rightarrow> (json \<Rightarrow> 'a go) \<Rightarrow> 'a \<Rightarrow> 'a go" where
  "opt_field r k conv dflt = (case map_of r k of None \<Rightarrow> Inr dflt | Some w \<Rightarrow> conv w)"

text \<open>\<open>if rec[k] != nil { x = conv(rec[k]) }\<close>\<close>

definition nonnil_field :: "jobject \<Rightarrow> string \<Rightarrow> (json \<Rightarrow> 'a go) \<Rightarrow> 'a \<Rightarrow> 'a go" where
  "nonnil_field r k conv dflt = (if jget r k = JNull then Inr dflt else conv (jget r k))"

definition ToUint16 :: "json \<Rightarrow> uint16 go" where
  "ToUint16 v = go_bind (ToInt v) (\<lambda>i. Inr (word_of_int i))"

text \<open>\<open>case dns.TypeA, dns.TypeAAAA, dns.TypePTR\<close>: first the text, weight and test of the record.\<close>

definition address_fields ::
  "(rat \<Rightarrow> string) \<Rightarrow> uint16 \<Rightarrow> string \<Rightarrow> rdata_item \<Rightarrow> (string \<times> int \<times> string) go" where
  "address_fields fmtFloat dnsType test item =
     (case item of
        RJson (JArr xs) \<Rightarrow> go_bind (getStringWeight xs) (\<lambda>(str, w). Inr (str, w, test))
      | RJson (JObj r) \<Rightarrow>
          go_bind (opt_field r ''ip'' as_string []) (\<lambda>ip.
          go_bind (if length ip = 0 \<or> dnsType = TypePTR
                   then (if dnsType = TypeA then as_string (jget r ''a'')
                         else if dnsType = TypeAAAA then as_string (jget r ''aaaa'')
                         else as_string (jget r ''ptr''))
                   else Inr ip) (\<lambda>ip.
          go_bind (opt_field r ''weight'' ToInt 0) (\<lambda>w.
          go_bind (opt_field r ''health'' (ToString fmtFloat) test) (\<lambda>test.
          Inr (ip, w, test)))))
      | _ \<Rightarrow> Inr ([], 0, test))"

definition read_address ::
  "(rat \<Rightarrow> string) \<Rightarrow> rr_header \<Rightarrow> uint16 \<Rightarrow> string \<Rightarrow> rdata_item \<Rightarrow> zrecord go" where
  "read_address fmtFloat h dnsType test item =
     go_bind (address_fields fmtFloat dnsType test item) (\<lambda>(ip, w, test).
       if dnsType = TypePTR then Inr (mk_record (RR_PTR h ip) w test)
       else case ParseIP ip of
              None \<Rightarrow> Inl (Panic (if dnsType = TypeA then ''Bad A record'' else ''Bad AAAA record''))
            | Some x \<Rightarrow> Inr (mk_record (if dnsType = TypeA then RR_A h x else RR_AAAA h x) w test))"

definition item_object :: "rdata_item \<Rightarrow> jobject go" where
  "item_object item = (case item of RJson v \<Rightarrow> as_object v | RPair _ _ \<Rightarrow> Inl TypeAssertion)"

definition read_mx :: "rr_header \<Rightarrow> string \<Rightarrow> rdata_item \<Rightarrow> zrecord go" where
  "read_mx h test item =
     go_bind (item_object item) (\<lambda>rec.
     go_bind (as_string (jget rec ''mx'')) (\<lambda>mx.
     let mx = (if hasSuffix mx ''.'' then mx else mx @ ''.'')
     in go_bind (nonnil_field rec ''weight'' ToInt 0) (\<lambda>w.
        go_bind (nonnil_field rec ''preference'' ToUint16 0) (\<lambda>pref.
        Inr (mk_record (RR_MX h mx pref) w test)))))"

definition relative_name :: "string \<Rightarrow> string \<Rightarrow> string" where
  "relative_name origin target = (if IsFqdn target then target else target @ ''.'' @ origin)"

definition read_srv :: "string \<Rightarrow> rr_header \<Rightarrow> string \<Rightarrow> rdata_item \<Rightarrow> zrecord go" where
  "read_srv origin h test item =
     go_bind (item_object item) (\<lambda>rec.
     go_bind (as_string (jget rec ''target'')) (\<lambda>target.
     go_bind (nonnil_field rec ''srv_weight'' ToUint16 0) (\<lambda>srv_weight.
     go_bind (nonnil_field rec ''port'' ToUint16 0) (\<lambda>port.
     go_bind (nonnil_field rec ''priority'' ToUint16 0) (\<lambda>priority.
     Inr (mk_record (RR_SRV h priority srv_weight port (relative_name origin target)) 0 test))))))"

definition cname_fields ::
  "(rat \<Rightarrow> string) \<Rightarrow> string \<Rightarrow> rdata_item \<Rightarrow> (string \<times> int \<times> string) go" where
  "cname_fields fmtFloat test item =
     (case item of
        RJson (JStr s) \<Rightarrow> Inr (s, 0, test)
      | RJson (JArr xs) \<Rightarrow> go_bind (getStringWeight xs) (\<lambda>(str, w). Inr (str, w, test))
      | RJson (JObj r) \<Rightarrow>
          go_bind (opt_field r ''cname'' (ToString fmtFloat) []) (\<lambda>target.
          go_bind (opt_field r ''weight'' ToInt 0) (\<lambda>w.
          go_bind (opt_field r ''health'' (ToString fmtFloat) test) (\<lambda>test.
          Inr (target, w, test))))
      | _ \<Rightarrow> Inr ([], 0, test))"

definition read_cname ::
  "(rat \<Rightarrow> string) \<Rightarrow> string \<Rightarrow> rr_header \<Rightarrow> string \<Rightarrow> rdata_item \<Rightarrow> zrecord go" where
  "read_cname fmtFloat origin h test item =
     go_bind (cname_fields fmtFloat test item) (\<lambda>(target, w, test).
       Inr (mk_record (RR_CNAME h (Fqdn (relative_name origin target))) w test))"

definition item_string :: "rdata_item \<Rightarrow> string go" where
  "item_string item = (case item of RJson v \<Rightarrow> as_string v | RPair _ _ \<Rightarrow> Inl TypeAssertion)"

definition read_mf :: "rr_header \<Rightarrow> string \<Rightarrow> rdata_item \<Rightarrow> zrecord go" where
  "read_mf h test item = go_bind (item_string item) (\<lambda>mf. Inr (mk_record (RR_MF h mf) 0 test))"

definition read_ns :: "rr_header \<Rightarrow> string \<Rightarrow> rdata_item \<Rightarrow> zrecord go" where
  "read_ns h test item =
     (case item of
        RJson (JStr ns) \<Rightarrow> Inr (mk_record (RR_NS h (Fqdn ns)) 0 test)
      | RPair ns _ \<Rightarrow> Inr (mk_record (RR_NS h (Fqdn ns)) 0 test)
      | _ \<Rightarrow> Inl (Panic ''Unrecognized NS format/syntax''))"

text \<open>TXT and SPF records: a text of length zero is skipped (\<open>continue\<close>), which leaves the slot nil.\<close>

definition text_fields :: "string \<Rightarrow> rdata_item \<Rightarrow> (string \<times> int) go" where
  "text_fields key item =
     (case item of
        RJson (JStr s) \<Rightarrow> Inr (s, 0)
      | RJson (JObj recmap) \<Rightarrow>
          go_bind (opt_field recmap ''weight'' ToInt 0) (\<lambda>w.
          go_bind (opt_field recmap key as_string []) (\<lambda>txt. Inr (txt, w)))
      | _ \<Rightarrow> Inr ([], 0))"

definition read_txt :: "rr_header \<Rightarrow> string \<Rightarrow> rdata_item \<Rightarrow> zrecord option go" where
  "read_txt h test item =
     go_bind (text_fields ''txt'' item) (\<lambda>(txt, w).
       Inr (if 0 < length txt then Some (mk_record (RR_TXT h [txt]) w test) else None))"

definition read_spf :: "rr_header \<Rightarrow> string \<Rightarrow> rdata_item \<Rightarrow> zrecord option go" where
  "read_spf h test item =
     go_bind (text_fields ''spf'' item) (\<lambda>(spf, w).
       Inr (if 0 < length spf then Some (mk_record (RR_SPF h [spf]) w test) else None))"

definition some_record :: "zrecord go \<Rightarrow> zrecord option go" where
  "some_record m = go_bind m (\<lambda>r. Inr (Some r))"

text \<open>The \<open>switch dnsType\<close>.\<close>

definition read_record ::
  "(rat \<Rightarrow> string) \<Rightarrow> string \<Rightarrow> string \<Rightarrow> uint16 \<Rightarrow> rdata_item \<Rightarrow> zrecord option go" where
  "read_record fmtFloat origin label dnsType item =
     (let h = record_header origin label dnsType; test = health_override item
      in if dnsType = TypeA \<or> dnsType = TypeAAAA \<or> dnsType = TypePTR
         then some_record (read_address fmtFloat h dnsType test item)
         else if dnsType = TypeMX then some_record (read_mx h test item)
         else if dnsType = TypeSRV then some_record (read_srv origin h test item)
         else if dnsType = TypeCNAME then some_record (read_cname fmtFloat origin h test item)
         else if dnsType = TypeMF then some_record (read_mf h test item)
         else if dnsType = TypeNS then some_record (read_ns h test item)
         else if dnsType = TypeTXT then read_txt h test item
         else if dnsType = TypeSPF then read_spf h test item
         else Inl (Panic ''Dont know how to handle this type''))"

section \<open>Labels\<close>

type_synonym raw_label = "zrecord option label"
type_synonym raw_zone = "zrecord option zone"
type_synonym record_sort = "zrecord list \<Rightarrow> zrecord list"

text \<open>\<open>RecordsByWeight.Less\<close>\<close>

definition records_less :: "zrecord \<Rightarrow> zrecord \<Rightarrow> bool" where
  "records_less = less_by rec_Weight"

text \<open>\<open>sort.Sort(RecordsByWeight{...})\<close> compares every element of a slice of two or more, and comparing
  a nil record panics.\<close>

definition sort_records :: "record_sort \<Rightarrow> zrecord option list \<Rightarrow> zrecord option list go" where
  "sort_records srt rs =
     (if list_all (\<lambda>r. r \<noteq> None) rs then Inr (map Some (srt (map the rs)))
      else if length rs < 2 then Inr rs
      else Inl NilDeref)"

text \<open>One round of \<open>for i := 0; i < len(records[rType]); i++\<close>; the slots are filled in order.\<close>

definition add_record ::
  "(rat \<Rightarrow> string) \<Rightarrow> string \<Rightarrow> uint16 \<Rightarrow> rdata_item \<Rightarrow> raw_label \<Rightarrow> raw_label go" where
  "add_record fmtFloat origin dnsType item label =
     go_bind (read_record fmtFloat origin (lb_Label label) dnsType item) (\<lambda>rec.
       let slots = map_get (lb_Records label) dnsType [];
           label = label\<lparr>lb_Records := map_put dnsType (slots @ [rec]) (lb_Records label)\<rparr>
       in Inr (case rec of
                 None \<Rightarrow> label
               | Some record \<Rightarrow>
                   label\<lparr>lb_Weight := map_put dnsType
                     (wrap64 (map_get (lb_Weight label) dnsType 0 + rec_Weight record)) (lb_Weight label)\<rparr>))"

definition add_records ::
  "(rat \<Rightarrow> string) \<Rightarrow> record_sort \<Rightarrow> string \<Rightarrow> uint16 \<Rightarrow> json \<Rightarrow> raw_label \<Rightarrow> raw_label go" where
  "add_records fmtFloat srt origin dnsType rdata label =
     go_bind (rdata_items rdata) (\<lambda>items.
     let label = label\<lparr>lb_Records := map_put dnsType [] (lb_Records label)\<rparr>
     in go_bind (go_fold (add_record fmtFloat origin dnsType) items label) (\<lambda>label.
        if 0 < map_get (lb_Weight label) dnsType 0
        then go_bind (sort_records srt (map_get (lb_Records label) dnsType []))
               (\<lambda>rs. Inr (label\<lparr>lb_Records := map_put dnsType rs (lb_Records label)\<rparr>))
        else Inr label))"

text \<open>One entry of a label; the state is the label and the zone's \<open>HasClosest\<close>.\<close>

definition label_entry ::
  "(rat \<Rightarrow> string) \<Rightarrow> record_sort \<Rightarrow> string \<Rightarrow> string \<times> json \<Rightarrow> raw_label \<times> bool \<Rightarrow> (raw_label \<times> bool) go" where
  "label_entry fmtFloat srt origin kv st =
     (case kv of (rType, rdata) \<Rightarrow> case st of (label, hasClosest) \<Rightarrow>
        if rType = ''max_hosts'' then
          go_bind (ToInt rdata) (\<lambda>i. Inr (label\<lparr>lb_MaxHosts := i\<rparr>, hasClosest))
        else if rType = ''closest'' then
          go_bind (as_bool rdata) (\<lambda>b. Inr (label\<lparr>lb_Closest := b\<rparr>, hasClosest \<or> b))
        else if rType = ''ttl'' then
          go_bind (ToInt rdata) (\<lambda>i. Inr (label\<lparr>lb_Ttl := i\<rparr>, hasClosest))
        else if rType = ''health'' then
          go_bind (addHealthReference fmtFloat label rdata) (\<lambda>label. Inr (label, hasClosest))
        else case map_of recordTypes rType of
               None \<Rightarrow> Inr st
             | Some dnsType \<Rightarrow>
                 if rdata = JNull then Inr st
                 else go_bind (add_records fmtFloat srt origin dnsType rdata label) (\<lambda>label. Inr (label, hasClosest)))"

text \<open>One label of the data: \<open>AddLabel\<close> puts a fresh label under the lower-case name, and the entries
  are then written into it.\<close>

definition read_label ::
  "(rat \<Rightarrow> string) \<Rightarrow> record_sort \<Rightarrow> string \<times> json \<Rightarrow> raw_zone \<Rightarrow> raw_zone go" where
  "read_label fmtFloat srt kv zone =
     (case kv of (dk, dv_inter) \<Rightarrow>
        go_bind (as_object dv_inter) (\<lambda>dv.
          case AddLabel dk zone of (label, zone) \<Rightarrow>
            go_bind (go_fold (label_entry fmtFloat srt (z_Origin zone)) dv (label, z_HasClosest zone))
              (\<lambda>(label, hasClosest).
                 Inr (zone\<lparr>z_Labels := map_put (lb_Label label) label (z_Labels zone), z_HasClosest := hasClosest\<rparr>))))"

section \<open>The last pass\<close>

text \<open>The proper parent names of a label: \<open>strings.Join(subLabels[i:], ".")\<close> for \<open>i \<ge> 1\<close>.\<close>

definition parent_names :: "string \<Rightarrow> string list" where
  "parent_names k =
     (let subLabels = split_on (CHR ''.'') k
      in map (\<lambda>i. join ''.'' (drop i subLabels)) [1..<length subLabels])"

definition add_missing :: "string \<Rightarrow> 'r zone \<Rightarrow> 'r zone" where
  "add_missing name zone = (if map_of (z_Labels zone) name = None then snd (AddLabel name zone) else zone)"

definition add_parents :: "string \<Rightarrow> 'r zone \<Rightarrow> 'r zone" where
  "add_parents k zone = (if contains_char k (CHR ''.'') then fold add_missing (parent_names k) zone else zone)"

text \<open>The TTL of a record: that of the label if it has one, else a day for NS records and the zone's
  for all others.\<close>

definition default_ttl :: "zone_options \<Rightarrow> int \<Rightarrow> uint16 \<Rightarrow> uint32" where
  "default_ttl opts labelTtl rrtype =
     (let defaultTtl = (if rrtype \<noteq> TypeNS then word_of_int (zo_Ttl opts) else 86400)
      in if 0 < labelTtl then word_of_int labelTtl else defaultTtl)"

definition finish_record :: "zone_options \<Rightarrow> int \<Rightarrow> bool \<Rightarrow> zrecord option \<Rightarrow> zrecord go" where
  "finish_record opts labelTtl setWeight slot =
     (case slot of
        None \<Rightarrow> Inl NilDeref
      | Some r \<Rightarrow>
          let r = (if setWeight then r\<lparr>rec_Weight := 1\<rparr> else r);
              ttl = default_ttl opts labelTtl (Rrtype (rr_hdr (rec_RR r)))
          in Inr (if Ttl (rr_hdr (rec_RR r)) = 0 then r\<lparr>rec_RR := set_ttl ttl (rec_RR r)\<rparr> else r))"

definition finish_type ::
  "zone_options \<Rightarrow> raw_label \<Rightarrow> uint16 \<times> zrecord option list \<Rightarrow>
   (uint16 \<times> zrecord list) list \<times> (uint16 \<times> int) list \<Rightarrow>
   ((uint16 \<times> zrecord list) list \<times> (uint16 \<times> int) list) go" where
  "finish_type opts l e st =
     (case e of (qtype, slots) \<Rightarrow> case st of (recs, weight) \<Rightarrow>
        let setWeight = (alwaysWeighted qtype \<and> map_get weight qtype 0 = 0)
        in go_bind (go_map (finish_record opts (lb_Ttl l) setWeight) slots) (\<lambda>rs.
             Inr (recs @ [(qtype, rs)],
                  if setWeight \<and> rs \<noteq> []
                  then map_put qtype (fold (\<lambda>r w. wrap64 (w + rec_Weight r)) rs (map_get weight qtype 0)) weight
                  else weight)))"

definition finish_label :: "zone_options \<Rightarrow> raw_label \<Rightarrow> zrecord label go" where
  "finish_label opts l =
     go_bind (go_fold (finish_type opts l) (lb_Records l) ([], lb_Weight l)) (\<lambda>(recs, weight).
       Inr \<lparr>lb_Label = lb_Label l, lb_MaxHosts = lb_MaxHosts l, lb_Ttl = lb_Ttl l, lb_Records = recs,
            lb_Weight = weight, lb_Closest = lb_Closest l, lb_Test = lb_Test l\<rparr>)"

definition finish_zone :: "raw_zone \<Rightarrow> zrecord zone go" where
  "finish_zone zone =
     (let zone = fold add_parents (keys (z_Labels zone)) zone
      in go_bind (go_map (\<lambda>(k, l). go_bind (finish_label (z_Options zone) l) (\<lambda>l'. Inr (k, l'))) (z_Labels zone))
           (\<lambda>labels.
              Inr \<lparr>z_Origin = z_Origin zone, z_Labels = labels, z_LabelCount = z_LabelCount zone,
                   z_Options = z_Options zone, z_Logging = z_Logging zone, z_Metrics = z_Metrics zone,
                   z_HasClosest = z_HasClosest zone, z_ParseIP = z_ParseIP zone\<rparr>))"

definition setupZoneData ::
  "(rat \<Rightarrow> string) \<Rightarrow> record_sort \<Rightarrow> (string \<Rightarrow> rr option) \<Rightarrow> jobject \<Rightarrow> raw_zone \<Rightarrow> zrecord zone go" where
  "setupZoneData fmtFloat srt newRR data zone =
     go_bind (go_fold (read_label fmtFloat srt) data zone) (\<lambda>zone.
     go_bind (finish_zone zone) (addSOA newRR))"

section \<open>The file\<close>

text \<open>What opening, examining and decoding the file gives: the error of \<open>os.Open\<close>, the modification
  time unless \<open>Stat\<close> failed, and the decoded object (\<open>null\<close> decodes to the empty map) or the decoding
  error.\<close>

record zone_file =
  zf_open :: "string option"
  zf_mtime :: "int option"
  zf_json :: "string + jobject"

datatype zone_error = DecodeError string | TargetingError string | Recovered go_panic

definition logging_entry :: "(rat \<Rightarrow> string) \<Rightarrow> string \<times> json \<Rightarrow> zone_logging \<Rightarrow> zone_logging go" where
  "logging_entry fmtFloat kv logging =
     (case kv of (logger, v) \<Rightarrow>
        if logger = ''stathat'' then go_bind (ToBool v) (\<lambda>b. Inr (logging\<lparr>zl_StatHat := b\<rparr>))
        else if logger = ''stathat_api'' then
          go_bind (ToString fmtFloat v) (\<lambda>s. Inr (logging\<lparr>zl_StatHatAPI := s, zl_StatHat := True\<rparr>))
        else Inr logging)"

text \<open>One entry of the top-level object; the state is the zone and \<open>data\<close>, and \<open>Inl\<close> of the inner sum
  is the early \<open>return\<close> of an error.\<close>

definition zone_entry ::
  "(rat \<Rightarrow> string) \<Rightarrow> string \<Rightarrow> json \<Rightarrow> raw_zone \<times> jobject \<Rightarrow> (zone_error + raw_zone \<times> jobject) go" where
  "zone_entry fmtFloat k v st =
     (case st of (zone, data) \<Rightarrow>
        let opts = z_Options zone
        in if k = ''ttl'' then
             go_bind (ToInt v) (\<lambda>i. Inr (Inr (zone\<lparr>z_Options := opts\<lparr>zo_Ttl := i\<rparr>\<rparr>, data)))
           else if k = ''serial'' then
             go_bind (ToInt v) (\<lambda>i. Inr (Inr (zone\<lparr>z_Options := opts\<lparr>zo_Serial := i\<rparr>\<rparr>, data)))
           else if k = ''contact'' then
             go_bind (as_string v) (\<lambda>s. Inr (Inr (zone\<lparr>z_Options := opts\<lparr>zo_Contact := s\<rparr>\<rparr>, data)))
           else if k = ''max_hosts'' then
             go_bind (ToInt v) (\<lambda>i. Inr (Inr (zone\<lparr>z_Options := opts\<lparr>zo_MaxHosts := i\<rparr>\<rparr>, data)))
           else if k = ''closest'' then
             go_bind (as_bool v) (\<lambda>b. Inr (Inr
               (zone\<lparr>z_Options := opts\<lparr>zo_Closest := b\<rparr>, z_HasClosest := z_HasClosest zone \<or> b\<rparr>, data)))
           else if k = ''targeting'' then
             go_bind (as_string v) (\<lambda>s.
               case ParseTargets s of (tgt, err) \<Rightarrow>
                 (case err of
                    Some e \<Rightarrow> Inr (Inl (TargetingError e))
                  | None \<Rightarrow> Inr (Inr (zone\<lparr>z_Options := opts\<lparr>zo_Targeting := tgt\<rparr>\<rparr>, data))))
           else if k = ''logging'' then
             go_bind (as_object v) (\<lambda>m.
             go_bind (go_fold (logging_entry fmtFloat) m \<lparr>zl_StatHat = False, zl_StatHatAPI = []\<rparr>)
               (\<lambda>logging. Inr (Inr (zone\<lparr>z_Logging := Some logging\<rparr>, data))))
           else if k = ''data'' then go_bind (as_object v) (\<lambda>m. Inr (Inr (zone, m)))
           else if k = ''parseIP'' then go_bind (as_bool v) (\<lambda>b. Inr (Inr (zone\<lparr>z_ParseIP := b\<rparr>, data)))
           else Inr (Inr st))"

fun zone_entries ::
  "(rat \<Rightarrow> string) \<Rightarrow> jobject \<Rightarrow> raw_zone \<times> jobject \<Rightarrow> (zone_error + raw_zone \<times> jobject) go" where
  "zone_entries fmtFloat [] st = Inr (Inr st)"
| "zone_entries fmtFloat ((k, v) # kvs) st =
     go_bind (zone_entry fmtFloat k v st) (\<lambda>r.
       case r of Inl e \<Rightarrow> Inr (Inl e) | Inr st \<Rightarrow> zone_entries fmtFloat kvs st)"

text \<open>The end of \<open>ReadZoneFile\<close>, after the data. The checks of the geo provider only log.\<close>

definition locate_zone :: "geo_provider option \<Rightarrow> zrecord zone \<Rightarrow> zrecord zone go" where
  "locate_zone gp zone =
     (if zo_Targeting (z_Options zone) = 0 \<and> \<not> z_HasClosest zone then Inr zone
      else case gp of
             None \<Rightarrow> Inr zone
           | Some g \<Rightarrow> if z_HasClosest zone then SetLocations g zone else Inr zone)"

text \<open>The body of \<open>ReadZoneFile\<close>, before \<open>recover\<close>.\<close>

definition read_zone_body ::
  "(rat \<Rightarrow> string) \<Rightarrow> record_sort \<Rightarrow> (string \<Rightarrow> rr option) \<Rightarrow> geo_provider option \<Rightarrow> zone_file \<Rightarrow> raw_zone \<Rightarrow>
   (zone_error + zrecord zone) go" where
  "read_zone_body fmtFloat srt newRR gp file zone =
     (case zf_open file of
        Some err \<Rightarrow> Inl (Panic err)
      | None \<Rightarrow>
          let zone = (case zf_mtime file of
                        None \<Rightarrow> zone
                      | Some t \<Rightarrow> zone\<lparr>z_Options := (z_Options zone)\<lparr>zo_Serial := t\<rparr>\<rparr>)
          in case zf_json file of
               Inl err \<Rightarrow> Inr (Inl (DecodeError err))
             | Inr objmap \<Rightarrow>
                 go_bind (zone_entries fmtFloat objmap (zone, [])) (\<lambda>r.
                   case r of
                     Inl e \<Rightarrow> Inr (Inl e)
                   | Inr (zone, data) \<Rightarrow>
                       go_bind (setupZoneData fmtFloat srt newRR data zone) (\<lambda>zone.
                       go_bind (locate_zone gp zone) (\<lambda>zone. Inr (Inr zone)))))"

definition ReadZoneFile ::
  "(rat \<Rightarrow> string) \<Rightarrow> record_sort \<Rightarrow> (string \<Rightarrow> rr option) \<Rightarrow> geo_provider option \<Rightarrow> zone_file \<Rightarrow> raw_zone \<Rightarrow>
   zone_error + zrecord zone" where
  "ReadZoneFile fmtFloat srt newRR gp file zone =
     (case read_zone_body fmtFloat srt newRR gp file zone of
        Inl p \<Rightarrow> Inl (Recovered p)
      | Inr r \<Rightarrow> r)"

end
