(* ===== verification/ReaderInv.thy ===== *)
theory ReaderInv
  imports Reader
begin

text \<open>
  The zones \<open>ReadZoneFile\<close> accepts are well formed. The invariant is carried through the reader in
  the order of its passes: a record of its type (\<open>record_ok\<close>), the lists and weights of a label
  (\<open>raw_ok\<close>), the labels of a zone (\<open>raw_zone_ok\<close>), the parents the last pass adds
  (\<open>parents_closed\<close>), and the finished labels and zone (\<open>final_ok\<close>, \<open>zone_ok\<close>).
\<close>

section \<open>Records\<close>

text \<open>The record type a Go struct type stands for.\<close>

definition rr_kind :: "rr \<Rightarrow> uint16" where
  "rr_kind r = (case r of
      RR_A _ _ \<Rightarrow> TypeA | RR_AAAA _ _ \<Rightarrow> TypeAAAA | RR_PTR _ _ \<Rightarrow> TypePTR | RR_MX _ _ _ \<Rightarrow> TypeMX
    | RR_SRV _ _ _ _ _ \<Rightarrow> TypeSRV | RR_CNAME _ _ \<Rightarrow> TypeCNAME | RR_MF _ _ \<Rightarrow> TypeMF | RR_NS _ _ \<Rightarrow> TypeNS
    | RR_TXT _ _ \<Rightarrow> TypeTXT | RR_SPF _ _ \<Rightarrow> TypeSPF | RR_SOA _ _ _ _ _ _ _ _ \<Rightarrow> TypeSOA | RR_OPT _ _ \<Rightarrow> TypeOPT)"

definition record_ok :: "rr_header \<Rightarrow> zrecord \<Rightarrow> bool" where
  "record_ok h r \<longleftrightarrow> rr_hdr (rec_RR r) = h \<and> rr_kind (rec_RR r) = Rrtype h"

lemma record_ok_mk_record [simp]: "record_ok h (mk_record rr w t) \<longleftrightarrow> rr_hdr rr = h \<and> rr_kind rr = Rrtype h"
  by (simp add: record_ok_def mk_record_def)

lemma Rrtype_record_header [simp]: "Rrtype (record_header origin k t) = t"
  by (simp add: record_header_def)

lemma some_record_Inr: "some_record m = Inr (Some r) \<longleftrightarrow> m = Inr r"
  by (cases m) (auto simp: some_record_def)

lemma read_record_ok:
  assumes "read_record fmtFloat origin k t item = Inr (Some r)"
  shows "record_ok (record_header origin k t) r"
proof -
  have addr: "record_ok h r" if "read_address fmtFloat h t test item = Inr r" "Rrtype h = t"
    "t = TypeA \<or> t = TypeAAAA \<or> t = TypePTR" for h test
    using that by (auto simp: read_address_def go_bind_Inr rr_kind_def split: if_splits option.splits)
  have mx: "record_ok h r" if "read_mx h test item = Inr r" "Rrtype h = TypeMX" for h test
    using that by (auto simp: read_mx_def go_bind_Inr rr_kind_def Let_def)
  have srv: "record_ok h r" if "read_srv origin h test item = Inr r" "Rrtype h = TypeSRV" for h test
    using that by (auto simp: read_srv_def go_bind_Inr rr_kind_def)
  have cname: "record_ok h r" if "read_cname fmtFloat origin h test item = Inr r" "Rrtype h = TypeCNAME" for h test
    using that by (auto simp: read_cname_def go_bind_Inr rr_kind_def)
  have mf: "record_ok h r" if "read_mf h test item = Inr r" "Rrtype h = TypeMF" for h test
    using that by (auto simp: read_mf_def go_bind_Inr rr_kind_def)
  have ns: "record_ok h r" if "read_ns h test item = Inr r" "Rrtype h = TypeNS" for h test
    using that by (auto simp: read_ns_def rr_kind_def split: rdata_item.splits json.splits)
  have tx: "record_ok h r" if "read_txt h test item = Inr (Some r)" "Rrtype h = TypeTXT" for h test
    using that by (auto simp: read_txt_def go_bind_Inr rr_kind_def split: if_splits)
  have spf: "record_ok h r" if "read_spf h test item = Inr (Some r)" "Rrtype h = TypeSPF" for h test
    using that by (auto simp: read_spf_def go_bind_Inr rr_kind_def split: if_splits)
  show ?thesis
    using assms by (auto simp: read_record_def Let_def some_record_Inr intro: addr mx srv cname mf ns tx spf
        split: if_splits)
qed

section \<open>Raw labels\<close>

definition slot_sum :: "zrecord option list \<Rightarrow> int" where
  "slot_sum slots = weight_sum (List.map_filter id slots)"

definition record_types :: "uint16 set" where
  "record_types = snd ` set recordTypes"

definition slots_ok :: "string \<Rightarrow> string \<Rightarrow> (uint16 \<times> int) list \<Rightarrow> uint16 \<Rightarrow> zrecord option list \<Rightarrow> bool" where
  "slots_ok origin k w t slots \<longleftrightarrow>
     (\<forall>r. Some r \<in> set slots \<longrightarrow> record_ok (record_header origin k t) r) \<and>
     map_get w t 0 = wrap64 (slot_sum slots)"

definition raw_ok :: "string \<Rightarrow> string \<Rightarrow> raw_label \<Rightarrow> bool" where
  "raw_ok origin k l \<longleftrightarrow>
     lb_Label l = k \<and> distinct (keys (lb_Records l)) \<and> set (keys (lb_Records l)) \<subseteq> record_types \<and>
     (\<forall>t. slots_ok origin k (lb_Weight l) t (map_get (lb_Records l) t []))"

lemma slot_sum_simps [simp]: "slot_sum [] = 0" "slot_sum (xs @ [None]) = slot_sum xs"
  "slot_sum (xs @ [Some r]) = slot_sum xs + rec_Weight r" "slot_sum (map Some rs) = weight_sum rs"
  by (simp_all add: slot_sum_def List.map_filter_def comp_def)

lemma map_get_map_put [simp]: "map_get (map_put k v m) k' z = (if k' = k then v else map_get m k' z)"
  by (simp add: map_get_def)

lemma map_get_Nil [simp]: "map_get [] k z = z"
  by (simp add: map_get_def)

lemma wrap64_0 [simp]: "wrap64 0 = 0"
  by (simp add: wrap64_def)

lemma raw_ok_new: "raw_ok origin k (new_label k z)"
  by (simp add: raw_ok_def new_label_def slots_ok_def)

lemma raw_ok_put:
  assumes "raw_ok origin k l" and "t \<in> record_types" and "slots_ok origin k w t slots"
    and "\<And>t'. t' \<noteq> t \<Longrightarrow> map_get w t' 0 = map_get (lb_Weight l) t' 0"
  shows "raw_ok origin k (l\<lparr>lb_Records := map_put t slots (lb_Records l), lb_Weight := w\<rparr>)"
  using assms by (auto simp: raw_ok_def slots_ok_def)

lemma add_record_ok:
  assumes "add_record fmtFloat origin t item l = Inr l'" and "raw_ok origin k l" and "t \<in> record_types"
  shows "raw_ok origin k l' \<and> set (keys (lb_Records l')) = insert t (set (keys (lb_Records l)))"
proof -
  from assms(1) obtain rec where rec: "read_record fmtFloat origin (lb_Label l) t item = Inr rec"
    by (auto simp: add_record_def go_bind_Inr)
  let ?slots = "map_get (lb_Records l) t []"
  from assms(2) have ok: "slots_ok origin k (lb_Weight l) t ?slots" "lb_Label l = k" by (simp_all add: raw_ok_def)
  show ?thesis
  proof (cases rec)
    case None
    from ok have "slots_ok origin k (lb_Weight l) t (?slots @ [None])" by (auto simp: slots_ok_def)
    from raw_ok_put [OF assms(2,3) this] None assms(1) rec show ?thesis by (auto simp: add_record_def)
  next
    case (Some r)
    with rec ok(2) have "record_ok (record_header origin k t) r" by (auto intro: read_record_ok)
    with ok have "slots_ok origin k (map_put t (wrap64 (map_get (lb_Weight l) t 0 + rec_Weight r)) (lb_Weight l)) t
        (?slots @ [Some r])" by (auto simp: slots_ok_def)
    from raw_ok_put [OF assms(2,3) this] Some assms(1) rec show ?thesis by (auto simp: add_record_def)
  qed
qed

lemma slot_sum_mset: "mset a = mset b \<Longrightarrow> slot_sum a = slot_sum b"
  by (simp add: slot_sum_def List.map_filter_def weight_sum_mset)

lemma sort_records_mset:
  assumes "go_sort records_less srt" and "sort_records srt slots = Inr rs"
  shows "mset rs = mset slots"
proof (cases "list_all (\<lambda>r. r \<noteq> None) slots")
  case True
  then have "map Some (map the slots) = slots" by (induction slots) auto
  moreover have "mset (srt (map the slots)) = mset (map the slots)" by (rule go_sort.sort_permutes [OF assms(1)])
  ultimately show ?thesis using True assms(2) by (metis Inr_inject mset_map sort_records_def)
qed (use assms(2) in \<open>auto simp: sort_records_def split: if_splits\<close>)

lemma add_records_ok:
  assumes "add_records fmtFloat srt origin t rdata l = Inr l'" and "raw_ok origin k l" and "t \<in> record_types"
    and "t \<notin> set (keys (lb_Records l))" and "go_sort records_less srt"
  shows "raw_ok origin k l' \<and> set (keys (lb_Records l')) = insert t (set (keys (lb_Records l)))"
proof -
  let ?l0 = "l\<lparr>lb_Records := map_put t [] (lb_Records l)\<rparr>"
  from assms(1) obtain items l1 where
    fold: "go_fold (add_record fmtFloat origin t) items ?l0 = Inr l1"
    and l': "l' = l1 \<or> (\<exists>rs. sort_records srt (map_get (lb_Records l1) t []) = Inr rs \<and>
                l' = l1\<lparr>lb_Records := map_put t rs (lb_Records l1)\<rparr>)"
    by (auto simp: add_records_def go_bind_Inr Let_def split: if_splits)
  let ?P = "\<lambda>x. raw_ok origin k x \<and> set (keys (lb_Records x)) = insert t (set (keys (lb_Records l)))"
  have "map_of (lb_Records l) t = None" using assms(4) by (simp add: map_of_eq_None_keys)
  then have "slots_ok origin k (lb_Weight l) t []" using assms(2)
    by (auto simp: raw_ok_def map_get_def dest: spec [of _ t])
  from raw_ok_put [OF assms(2,3) this] have "?P ?l0" by simp
  with fold have l1: "?P l1"
    by (rule go_fold_invariant) (use add_record_ok [OF _ _ assms(3)] in auto)
  from l' show ?thesis
  proof
    assume "\<exists>rs. sort_records srt (map_get (lb_Records l1) t []) = Inr rs \<and>
      l' = l1\<lparr>lb_Records := map_put t rs (lb_Records l1)\<rparr>"
    then obtain rs where rs: "sort_records srt (map_get (lb_Records l1) t []) = Inr rs"
      "l' = l1\<lparr>lb_Records := map_put t rs (lb_Records l1)\<rparr>" by blast
    have "mset rs = mset (map_get (lb_Records l1) t [])"
      by (rule sort_records_mset [OF assms(5) rs(1)])
    then have "set rs = set (map_get (lb_Records l1) t [])" "slot_sum rs = slot_sum (map_get (lb_Records l1) t [])"
      by (metis set_mset_mset) (rule slot_sum_mset [OF \<open>mset rs = _\<close>])
    with l1 have "slots_ok origin k (lb_Weight l1) t rs" by (simp add: raw_ok_def slots_ok_def)
    from raw_ok_put [OF conjunct1 [OF l1] assms(3) this] rs(2) l1 show ?thesis by auto
  qed (use l1 in simp)
qed


text \<open>The record type an entry of a label is for.\<close>

definition entry_type :: "string \<Rightarrow> uint16 option" where
  "entry_type rType =
     (if rType \<in> {''max_hosts'', ''closest'', ''ttl'', ''health''} then None else map_of recordTypes rType)"

lemma entry_type_inj: "entry_type a = Some t \<Longrightarrow> entry_type b = Some t \<Longrightarrow> a = b"
proof -
  assume "entry_type a = Some t" "entry_type b = Some t"
  then have "(t, a) \<in> set (map prod.swap recordTypes)" "(t, b) \<in> set (map prod.swap recordTypes)"
    by (auto simp: entry_type_def split: if_splits dest: map_of_SomeD)
  moreover have "distinct (map fst (map prod.swap recordTypes))" by (simp add: recordTypes_def rrtype_defs)
  ultimately show "a = b" by (metis map_of_eq_Some_iff option.inject)
qed

lemma raw_ok_update [simp]:
  "raw_ok origin k (l\<lparr>lb_MaxHosts := i\<rparr>) = raw_ok origin k l" "raw_ok origin k (l\<lparr>lb_Closest := b\<rparr>) = raw_ok origin k l"
  "raw_ok origin k (l\<lparr>lb_Ttl := i\<rparr>) = raw_ok origin k l" "raw_ok origin k (l\<lparr>lb_Test := h\<rparr>) = raw_ok origin k l"
  by (simp_all add: raw_ok_def)

lemma addHealthReference_cases:
  "addHealthReference fmtFloat l data = Inr l' \<Longrightarrow> l' = l \<or> (\<exists>h. l' = l\<lparr>lb_Test := h\<rparr>)"
proof (cases data)
  case (JObj m)
  assume "addHealthReference fmtFloat l data = Inr l'"
  with JObj obtain res where "NewReferenceFromMap fmtFloat m = Inr res" "l' = (case res of Inl err \<Rightarrow> l | Inr tester \<Rightarrow> l\<lparr>lb_Test := Some tester\<rparr>)"
    by (auto simp: addHealthReference_def go_bind_Inr)
  then show ?thesis by (cases res) auto
qed (simp_all add: addHealthReference_def)

lemma label_entry_ok:
  assumes "label_entry fmtFloat srt origin (rType, rdata) (l, c) = Inr (l', c')" and "raw_ok origin k l"
    and "\<forall>t. entry_type rType = Some t \<longrightarrow> t \<notin> set (keys (lb_Records l))" and "go_sort records_less srt"
  shows "raw_ok origin k l' \<and>
    set (keys (lb_Records l')) \<subseteq> set (keys (lb_Records l)) \<union> {t. entry_type rType = Some t}"
proof (cases "entry_type rType")
  case None
  then have "l' = l \<or> (\<exists>x. l' = l\<lparr>lb_MaxHosts := x\<rparr>) \<or> (\<exists>x. l' = l\<lparr>lb_Closest := x\<rparr>) \<or> (\<exists>x. l' = l\<lparr>lb_Ttl := x\<rparr>) \<or>
      (\<exists>x. l' = l\<lparr>lb_Test := x\<rparr>)"
  proof -
    from None consider "rType = ''max_hosts''" | "rType = ''closest''" | "rType = ''ttl''" | "rType = ''health''"
      | "rType \<notin> {''max_hosts'', ''closest'', ''ttl'', ''health''}" "map_of recordTypes rType = None"
      by (auto simp: entry_type_def split: if_splits)
    then show ?thesis
    proof cases
      case 4
      with assms(1) have "addHealthReference fmtFloat l rdata = Inr l'" by (auto simp: label_entry_def go_bind_Inr)
      from addHealthReference_cases [OF this] show ?thesis by blast
    next
      case 1
      with assms(1) show ?thesis by (auto simp: label_entry_def go_bind_Inr)
    next
      case 2
      with assms(1) show ?thesis by (auto simp: label_entry_def go_bind_Inr)
    next
      case 3
      with assms(1) show ?thesis by (auto simp: label_entry_def go_bind_Inr)
    next
      case 5
      with assms(1) show ?thesis by (simp add: label_entry_def)
    qed
  qed
  with assms(2) show ?thesis by auto
next
  case (Some t)
  then have rt: "rType \<notin> {''max_hosts'', ''closest'', ''ttl'', ''health''}" "map_of recordTypes rType = Some t"
    by (simp_all add: entry_type_def split: if_splits)
  then have "t \<in> record_types" by (metis image_eqI map_of_SomeD record_types_def snd_conv)
  moreover from rt assms(1) have "l' = l \<or> add_records fmtFloat srt origin t rdata l = Inr l'"
    by (auto simp: label_entry_def go_bind_Inr split: if_splits)
  ultimately show ?thesis using add_records_ok [OF _ assms(2) _ _ assms(4)] assms(2,3) Some by auto
qed

lemma label_entries_ok:
  assumes "go_fold (label_entry fmtFloat srt origin) dv (l, c) = Inr (l', c')" and "raw_ok origin k l"
    and "distinct (keys dv)" and "\<forall>e \<in> set (keys dv). \<forall>t. entry_type e = Some t \<longrightarrow> t \<notin> set (keys (lb_Records l))"
    and "go_sort records_less srt"
  shows "raw_ok origin k l'"
  using assms(1-4)
proof (induction dv arbitrary: l c)
  case (Cons e dv)
  obtain rType rdata where e: "e = (rType, rdata)" by (cases e)
  from Cons.prems(1) obtain l1 c1 where step: "label_entry fmtFloat srt origin (rType, rdata) (l, c) = Inr (l1, c1)"
    and rest: "go_fold (label_entry fmtFloat srt origin) dv (l1, c1) = Inr (l', c')"
    by (auto simp: e go_bind_Inr)
  from Cons.prems(4) have "\<forall>t. entry_type rType = Some t \<longrightarrow> t \<notin> set (keys (lb_Records l))" by (simp add: e)
  note l1 = label_entry_ok [OF step Cons.prems(2) this assms(5)]
  show ?case
  proof (rule Cons.IH [OF rest])
    show "raw_ok origin k l1" using l1 by simp
    show "distinct (keys dv)" using Cons.prems(3) by (simp add: e)
    show "\<forall>x \<in> set (keys dv). \<forall>t. entry_type x = Some t \<longrightarrow> t \<notin> set (keys (lb_Records l1))"
    proof (intro ballI allI impI notI)
      fix x t
      assume x: "x \<in> set (keys dv)" "entry_type x = Some t" "t \<in> set (keys (lb_Records l1))"
      with l1 Cons.prems(4) have "entry_type rType = Some t" by (auto simp: e)
      with x(2) have "x = rType" by (rule entry_type_inj)
      with x(1) Cons.prems(3) show False by (simp add: e)
    qed
  qed
qed simp


section \<open>Zones while reading\<close>

text \<open>Every label is well formed under its own lower-case name.\<close>

definition raw_zone_ok :: "string \<Rightarrow> raw_zone \<Rightarrow> bool" where
  "raw_zone_ok origin z \<longleftrightarrow>
     z_Origin z = origin \<and> distinct (keys (z_Labels z)) \<and>
     (\<forall>k l. map_of (z_Labels z) k = Some l \<longrightarrow> toLower k = k \<and> raw_ok origin k l)"

definition data_ok :: "jobject \<Rightarrow> bool" where
  "data_ok data \<longleftrightarrow> list_all (\<lambda>(k, v). case v of JObj dv \<Rightarrow> distinct (keys dv) | _ \<Rightarrow> True) data"

lemma data_okD: "data_ok data \<Longrightarrow> (k, JObj dv) \<in> set data \<Longrightarrow> distinct (keys dv)"
  by (induction data) (auto simp: data_ok_def)

lemma raw_zone_ok_NewZone: "raw_zone_ok name (NewZone name)"
  by (simp add: raw_zone_ok_def NewZone_def)

lemma raw_zone_ok_closest: "raw_zone_ok origin (z\<lparr>z_HasClosest := c\<rparr>) = raw_zone_ok origin z"
  by (simp add: raw_zone_ok_def)

lemma raw_zone_ok_put:
  "raw_zone_ok origin z \<Longrightarrow> toLower k = k \<Longrightarrow> raw_ok origin k l \<Longrightarrow>
   raw_zone_ok origin (z\<lparr>z_Labels := map_put k l (z_Labels z)\<rparr>)"
  by (auto simp: raw_zone_ok_def)

lemma raw_zone_ok_AddLabel: "raw_zone_ok origin z \<Longrightarrow> raw_zone_ok origin (snd (AddLabel k z))"
  by (auto simp: AddLabel_def Let_def intro!: raw_zone_ok_put raw_ok_new)

lemma read_label_ok:
  assumes "read_label fmtFloat srt (dk, v) z = Inr z'" and "raw_zone_ok origin z"
    and "\<forall>dv. v = JObj dv \<longrightarrow> distinct (keys dv)" and "go_sort records_less srt"
  shows "raw_zone_ok origin z'"
proof -
  from assms(1) obtain dv where v: "v = JObj dv"
    by (auto simp: read_label_def go_bind_Inr as_object_def split: json.splits)
  let ?k = "toLower dk"
  let ?z = "z\<lparr>z_Labels := map_put ?k (new_label ?k z) (z_Labels z)\<rparr>"
  from assms(1) v obtain l c where fold: "go_fold (label_entry fmtFloat srt (z_Origin z)) dv (new_label ?k z, z_HasClosest z) = Inr (l, c)"
    and z': "z' = (?z\<lparr>z_Labels := map_put (lb_Label l) l (z_Labels ?z)\<rparr>)\<lparr>z_HasClosest := c\<rparr>"
    by (auto simp: read_label_def go_bind_Inr as_object_def AddLabel_def Let_def)
  have orig: "z_Origin z = origin" using assms(2) by (simp add: raw_zone_ok_def)
  have "raw_ok origin ?k l"
    by (rule label_entries_ok [OF fold [unfolded orig] raw_ok_new _ _ assms(4)])
      (use assms(3) v in \<open>auto simp: new_label_def\<close>)
  moreover from this have "lb_Label l = ?k" by (simp add: raw_ok_def)
  ultimately have "raw_zone_ok origin (?z\<lparr>z_Labels := map_put ?k l (z_Labels ?z)\<rparr>)"
    by (intro raw_zone_ok_put [OF raw_zone_ok_put [OF assms(2) toLower_idem raw_ok_new] toLower_idem])
  then show ?thesis using \<open>lb_Label l = ?k\<close> unfolding z' by (simp only: raw_zone_ok_closest)
qed

lemma read_labels_ok:
  assumes "go_fold (read_label fmtFloat srt) data z = Inr z'" and "raw_zone_ok origin z" and "data_ok data"
    and "go_sort records_less srt"
  shows "raw_zone_ok origin z'"
  using assms(1,2)
proof (rule go_fold_invariant)
  fix e s t assume "e \<in> set data" "raw_zone_ok origin s" "read_label fmtFloat srt e s = Inr t"
  moreover obtain k v where "e = (k, v)" by (cases e)
  ultimately show "raw_zone_ok origin t"
    using read_label_ok [of fmtFloat srt k v s t origin] assms(3,4) by (auto dest: data_okD)
qed

subsection \<open>Parents\<close>

lemma add_missing_ok: "raw_zone_ok origin z \<Longrightarrow> raw_zone_ok origin (add_missing n z)"
  by (simp add: add_missing_def raw_zone_ok_AddLabel)

lemma fold_preserves: "P s \<Longrightarrow> (\<And>x s. x \<in> set xs \<Longrightarrow> P s \<Longrightarrow> P (f x s)) \<Longrightarrow> P (fold f xs s)"
  by (induction xs arbitrary: s) auto

lemma add_parents_ok: "raw_zone_ok origin z \<Longrightarrow> raw_zone_ok origin (add_parents k z)"
  by (simp add: add_parents_def fold_preserves [where P = "raw_zone_ok origin"] add_missing_ok)

lemma add_missing_keys:
  "toLower n = n \<Longrightarrow> set (keys (z_Labels (add_missing n z))) = insert n (set (keys (z_Labels z)))"
  by (auto simp: add_missing_def AddLabel_def Let_def map_of_eq_None_keys)

lemma fold_add_missing_keys:
  "\<forall>n \<in> set ns. toLower n = n \<Longrightarrow>
   set (keys (z_Labels (fold add_missing ns z))) = set ns \<union> set (keys (z_Labels z))"
  by (induction ns arbitrary: z) (auto simp: add_missing_keys)

lemma split_on_toLower: "split_on (CHR ''.'') (toLower s) = map toLower (split_on (CHR ''.'') s)"
  by (induction s) (auto split: list.splits)

lemma parent_names_lower: "toLower k = k \<Longrightarrow> n \<in> set (parent_names k) \<Longrightarrow> toLower n = n"
proof -
  assume k: "toLower k = k" and "n \<in> set (parent_names k)"
  then obtain i where n: "n = join ''.'' (drop i (split_on (CHR ''.'') k))" by (auto simp: parent_names_def Let_def)
  have "map toLower (split_on (CHR ''.'') k) = split_on (CHR ''.'') k" using split_on_toLower [of k] k by simp
  then show ?thesis by (simp add: n drop_map [symmetric])
qed

text \<open>The parents of a parent are parents.\<close>

lemma parent_names_trans: "n \<in> set (parent_names k) \<Longrightarrow> set (parent_names n) \<subseteq> set (parent_names k)"
proof -
  let ?ss = "split_on (CHR ''.'') k"
  assume "n \<in> set (parent_names k)"
  then obtain i where i: "1 \<le> i" "i < length ?ss" and n: "n = join ''.'' (drop i ?ss)"
    by (auto simp: parent_names_def Let_def)
  have "\<forall>x \<in> set (drop i ?ss). CHR ''.'' \<notin> set x" by (meson in_set_dropD split_on_members)
  then have s: "split_on (CHR ''.'') n = drop i ?ss" unfolding n using i by (intro split_on_join) simp_all
  show ?thesis
  proof
    fix m assume "m \<in> set (parent_names n)"
    then obtain j where "1 \<le> j" "j < length ?ss - i" "m = join ''.'' (drop (j + i) ?ss)"
      by (auto simp: parent_names_def s Let_def)
    then show "m \<in> set (parent_names k)" by (auto simp: parent_names_def Let_def intro!: image_eqI [of _ _ "j + i"])
  qed
qed

lemma parent_names_dot: "\<not> contains_char k (CHR ''.'') \<Longrightarrow> parent_names k = []"
  by (simp add: contains_char_def parent_names_def split_on_no_sep)

lemma add_parents_keys:
  "toLower k = k \<Longrightarrow> set (keys (z_Labels (add_parents k z))) = set (parent_names k) \<union> set (keys (z_Labels z))"
  using fold_add_missing_keys [of "parent_names k" z] parent_names_lower [of k] parent_names_dot [of k]
  by (auto simp: add_parents_def)

definition parents_closed :: "string set \<Rightarrow> bool" where
  "parents_closed ks \<longleftrightarrow> (\<forall>k \<in> ks. set (parent_names k) \<subseteq> ks)"

lemma fold_add_parents_keys:
  "\<forall>k \<in> set ks. toLower k = k \<Longrightarrow>
   set (keys (z_Labels (fold add_parents ks z))) = (\<Union>k \<in> set ks. set (parent_names k)) \<union> set (keys (z_Labels z))"
  by (induction ks arbitrary: z) (auto simp: add_parents_keys)

lemma raw_zone_lower: "raw_zone_ok origin z \<Longrightarrow> k \<in> set (keys (z_Labels z)) \<Longrightarrow> toLower k = k"
  using map_of_eq_None_keys [of "z_Labels z" k] by (auto simp: raw_zone_ok_def)

lemma add_parents_closed:
  assumes "raw_zone_ok origin z"
  shows "parents_closed (set (keys (z_Labels (fold add_parents (keys (z_Labels z)) z))))"
proof -
  let ?K = "set (keys (z_Labels z))"
  have "set (keys (z_Labels (fold add_parents (keys (z_Labels z)) z))) = (\<Union>k \<in> ?K. set (parent_names k)) \<union> ?K"
    using raw_zone_lower [OF assms] by (intro fold_add_parents_keys) blast
  moreover have "set (parent_names n) \<subseteq> (\<Union>k \<in> ?K. set (parent_names k)) \<union> ?K"
    if "n \<in> (\<Union>k \<in> ?K. set (parent_names k)) \<union> ?K" for n
    using that parent_names_trans [of n] by blast
  ultimately show ?thesis by (simp only: parents_closed_def) blast
qed

section \<open>Zones that are served\<close>

definition final_header :: "zone_options \<Rightarrow> string \<Rightarrow> string \<Rightarrow> int \<Rightarrow> uint16 \<Rightarrow> rr_header" where
  "final_header opts origin k ttl t = (record_header origin k t)\<lparr>Ttl := default_ttl opts ttl t\<rparr>"

definition type_ok :: "zone_options \<Rightarrow> string \<Rightarrow> string \<Rightarrow> int \<Rightarrow> (uint16 \<times> int) list \<Rightarrow> uint16 \<times> zrecord list \<Rightarrow> bool" where
  "type_ok opts origin k ttl w e \<longleftrightarrow>
     (case e of (t, rs) \<Rightarrow>
        t \<in> record_types \<and> list_all (record_ok (final_header opts origin k ttl t)) rs \<and>
        map_get w t 0 = wrap64 (weight_sum rs))"

text \<open>The label of a zone that was read. Its SOA record, which the server adds itself, has no weight and no test.\<close>

definition soa_entry :: "uint16 \<times> zrecord list \<Rightarrow> bool" where
  "soa_entry e \<longleftrightarrow> fst e = TypeSOA \<and> list_all (\<lambda>r. rec_Weight r = 0 \<and> rec_Test r = []) (snd e)"

definition final_ok :: "zone_options \<Rightarrow> string \<Rightarrow> string \<Rightarrow> zrecord label \<Rightarrow> bool" where
  "final_ok opts origin k l \<longleftrightarrow>
     lb_Label l = k \<and> distinct (keys (lb_Records l)) \<and> map_get (lb_Weight l) TypeSOA 0 = 0 \<and>
     list_all (\<lambda>e. soa_entry e \<or> type_ok opts origin k (lb_Ttl l) (lb_Weight l) e) (lb_Records l)"

lemma record_types_eq:
  "record_types = {TypeA, TypeAAAA, TypeMF, TypeCNAME, TypeMX, TypeNS, TypeTXT, TypeSPF, TypeSRV, TypePTR}"
  by (auto simp: record_types_def recordTypes_def)

lemma record_types_special: "TypeSOA \<notin> record_types" "TypeANY \<notin> record_types"
  by (simp_all add: record_types_eq rrtype_defs)

lemma rr_kind_set_hdr [simp]: "rr_kind (set_hdr h r) = rr_kind r"
  by (cases r) (simp_all add: set_hdr_def rr_kind_def)

lemma finish_record_ok:
  assumes "finish_record opts ttl sw slot = Inr r'" and "\<And>r. slot = Some r \<Longrightarrow> record_ok (record_header origin k t) r"
  shows "\<exists>r. slot = Some r \<and> record_ok (final_header opts origin k ttl t) r' \<and>
    rec_Weight r' = (if sw then 1 else rec_Weight r)"
proof -
  from assms(1) obtain r where r: "slot = Some r" by (auto simp: finish_record_def split: option.splits)
  with assms(2) have "record_ok (record_header origin k t) r" by simp
  then have h: "rr_hdr (rec_RR r) = record_header origin k t" "rr_kind (rec_RR r) = t" by (simp_all add: record_ok_def)
  have "Ttl (record_header origin k t) = 0" by (simp add: record_header_def)
  with assms(1) r h show ?thesis
    by (auto simp: finish_record_def record_ok_def final_header_def set_ttl_def Let_def)
qed

lemma fold_wrap_weights:
  "int64 a \<Longrightarrow> fold (\<lambda>r w. wrap64 (w + rec_Weight r)) rs a = wrap64 (a + weight_sum rs)"
  by (induction rs arbitrary: a) (simp_all add: add.assoc)

lemma finish_slots_ok:
  assumes "go_map (finish_record opts ttl sw) slots = Inr rs"
    and "\<And>r. Some r \<in> set slots \<Longrightarrow> record_ok (record_header origin k t) r"
  shows "list_all (record_ok (final_header opts origin k ttl t)) rs \<and> (\<not> sw \<longrightarrow> slot_sum slots = weight_sum rs)"
  using assms
proof (induction slots arbitrary: rs)
  case (Cons s slots)
  from Cons.prems(1) obtain r' rs' where r': "finish_record opts ttl sw s = Inr r'"
    "go_map (finish_record opts ttl sw) slots = Inr rs'" "rs = r' # rs'" by (auto simp: go_bind_Inr)
  from finish_record_ok [OF r'(1), of origin k t] Cons.prems(2) obtain r
    where r: "s = Some r" "record_ok (final_header opts origin k ttl t) r'" "rec_Weight r' = (if sw then 1 else rec_Weight r)"
    by auto
  have "slot_sum (Some r # slots) = rec_Weight r + slot_sum slots"
    by (simp add: slot_sum_def List.map_filter_def)
  with Cons.IH [OF r'(2)] Cons.prems(2) r r'(3) show ?case by auto
qed simp

lemma finish_type_ok:
  assumes "finish_type opts l (t, slots) (recs, w) = Inr (recs', w')" and "slots_ok origin k w t slots"
    and "t \<in> record_types"
  shows "\<exists>rs. recs' = recs @ [(t, rs)] \<and> type_ok opts origin k (lb_Ttl l) w' (t, rs) \<and>
    (\<forall>t'. t' \<noteq> t \<longrightarrow> map_get w' t' 0 = map_get w t' 0)"
proof -
  let ?sw = "alwaysWeighted t \<and> map_get w t 0 = 0"
  from assms(1) obtain rs where rs: "go_map (finish_record opts (lb_Ttl l) ?sw) slots = Inr rs"
    and recs': "recs' = recs @ [(t, rs)]"
    and w': "w' = (if ?sw \<and> rs \<noteq> []
       then map_put t (fold (\<lambda>r w. wrap64 (w + rec_Weight r)) rs (map_get w t 0)) w else w)"
    by (auto simp: finish_type_def go_bind_Inr Let_def)
  from finish_slots_ok [OF rs, of origin k t] assms(2)
  have "list_all (record_ok (final_header opts origin k (lb_Ttl l) t)) rs" "\<not> ?sw \<longrightarrow> slot_sum slots = weight_sum rs"
    by (auto simp: slots_ok_def)
  moreover have "map_get w' t 0 = wrap64 (weight_sum rs)"
  proof (cases ?sw)
    case True
    have "int64 0" by (simp add: int64_def)
    with True show ?thesis by (auto simp: w' fold_wrap_weights)
  next
    case False
    with calculation(2) assms(2) show ?thesis by (auto simp: w' slots_ok_def)
  qed
  ultimately show ?thesis using recs' assms(3) by (auto simp: type_ok_def w')
qed

lemma finish_types_ok:
  assumes "go_fold (finish_type opts l) es (recs, w) = Inr (recs', w')" and "distinct (keys es)"
    and "\<forall>(t, slots) \<in> set es. slots_ok origin k w t slots \<and> t \<in> record_types"
  shows "\<exists>rss. recs' = recs @ rss \<and> keys rss = keys es \<and> list_all (type_ok opts origin k (lb_Ttl l) w') rss \<and>
    (\<forall>t. t \<notin> set (keys es) \<longrightarrow> map_get w' t 0 = map_get w t 0)"
  using assms
proof (induction es arbitrary: recs w)
  case (Cons e es)
  obtain t slots where e: "e = (t, slots)" by (cases e)
  from Cons.prems(1) obtain recs1 w1 where step: "finish_type opts l (t, slots) (recs, w) = Inr (recs1, w1)"
    and rest: "go_fold (finish_type opts l) es (recs1, w1) = Inr (recs', w')" by (auto simp: e go_bind_Inr)
  from Cons.prems(3) have "slots_ok origin k w t slots" "t \<in> record_types" by (simp_all add: e)
  from finish_type_ok [OF step this] obtain rs where rs: "recs1 = recs @ [(t, rs)]"
    "type_ok opts origin k (lb_Ttl l) w1 (t, rs)" "\<forall>t'. t' \<noteq> t \<longrightarrow> map_get w1 t' 0 = map_get w t' 0" by blast
  have t: "t \<notin> set (keys es)" "distinct (keys es)" using Cons.prems(2) by (simp_all add: e)
  have "\<forall>(t, slots) \<in> set es. slots_ok origin k w1 t slots \<and> t \<in> record_types"
    using Cons.prems(3) rs(3) t(1) by (fastforce simp: slots_ok_def keys_def)
  from Cons.IH [OF rest t(2) this] obtain rss where rss: "recs' = recs1 @ rss" "keys rss = keys es"
    "list_all (type_ok opts origin k (lb_Ttl l) w') rss" "\<forall>t. t \<notin> set (keys es) \<longrightarrow> map_get w' t 0 = map_get w1 t 0" by blast
  then have "type_ok opts origin k (lb_Ttl l) w' (t, rs)" using rs(2) t(1) by (simp add: type_ok_def)
  with rs rss t(1) show ?case by (intro exI [of _ "(t, rs) # rss"]) (simp add: e)
qed simp

lemma finish_label_ok:
  assumes "finish_label opts l = Inr l'" and "raw_ok origin k l"
  shows "final_ok opts origin k l' \<and> keys (lb_Records l') = keys (lb_Records l)"
proof -
  from assms(1) obtain recs w where f: "go_fold (finish_type opts l) (lb_Records l) ([], lb_Weight l) = Inr (recs, w)"
    and l': "l' = \<lparr>lb_Label = lb_Label l, lb_MaxHosts = lb_MaxHosts l, lb_Ttl = lb_Ttl l, lb_Records = recs,
            lb_Weight = w, lb_Closest = lb_Closest l, lb_Test = lb_Test l\<rparr>"
    by (auto simp: finish_label_def go_bind_Inr)
  have d: "distinct (keys (lb_Records l))" using assms(2) by (simp add: raw_ok_def)
  have "\<forall>(t, slots) \<in> set (lb_Records l). slots_ok origin k (lb_Weight l) t slots \<and> t \<in> record_types"
  proof (clarify)
    fix t slots assume m: "(t, slots) \<in> set (lb_Records l)"
    then have "map_of (lb_Records l) t = Some slots" using d by (simp add: keys_def)
    with assms(2) have "slots_ok origin k (lb_Weight l) t slots"
      by (auto simp: raw_ok_def map_get_def dest: spec [of _ t])
    moreover have "t \<in> record_types" using m assms(2) by (force simp: raw_ok_def keys_def)
    ultimately show "slots_ok origin k (lb_Weight l) t slots \<and> t \<in> record_types" by simp
  qed
  moreover have soa: "TypeSOA \<notin> set (keys (lb_Records l))" using assms(2) record_types_special by (auto simp: raw_ok_def)
  moreover have "map_get (lb_Weight l) TypeSOA 0 = 0"
  proof -
    from soa have "map_get (lb_Records l) TypeSOA [] = []" by (simp add: map_get_def map_of_eq_None_keys [THEN iffD2])
    with assms(2) show ?thesis by (auto simp: raw_ok_def slots_ok_def dest: spec [of _ TypeSOA])
  qed
  ultimately show ?thesis using finish_types_ok [OF f d] assms(2) by (fastforce simp: l' final_ok_def raw_ok_def list_all_iff)
qed

definition zone_ok :: "zrecord zone \<Rightarrow> bool" where
  "zone_ok z \<longleftrightarrow>
     distinct (keys (z_Labels z)) \<and> parents_closed (set (keys (z_Labels z))) \<and>
     (\<forall>k l. map_of (z_Labels z) k = Some l \<longrightarrow> toLower k = k \<and> final_ok (z_Options z) (z_Origin z) k l)"

lemma go_map_snd:
  assumes "go_map (\<lambda>(k, l). go_bind (f l) (\<lambda>l'. Inr (k, l'))) m = Inr m'"
  shows "keys m' = keys m \<and> (\<forall>k l'. map_of m' k = Some l' \<longrightarrow> (\<exists>l. map_of m k = Some l \<and> f l = Inr l'))"
  using assms
proof (induction m arbitrary: m')
  case (Cons e m)
  obtain k l where e: "e = (k, l)" by (cases e)
  from Cons.prems obtain l' m'' where "f l = Inr l'"
    "go_map (\<lambda>(k, l). go_bind (f l) (\<lambda>l'. Inr (k, l'))) m = Inr m''" "m' = (k, l') # m''"
    by (auto simp: e go_bind_Inr)
  with Cons.IH [of m''] show ?case by (auto simp: e)
qed simp

lemma add_missing_options: "z_Options (add_missing n z) = z_Options z" "z_Origin (add_missing n z) = z_Origin z"
  by (simp_all add: add_missing_def AddLabel_def Let_def)

lemma add_parents_options: "z_Options (add_parents k z) = z_Options z" "z_Origin (add_parents k z) = z_Origin z"
proof -
  have "z_Options (fold add_missing ns z) = z_Options z" "z_Origin (fold add_missing ns z) = z_Origin z" for ns
    by (induction ns arbitrary: z) (simp_all add: add_missing_options)
  then show "z_Options (add_parents k z) = z_Options z" "z_Origin (add_parents k z) = z_Origin z"
    by (simp_all add: add_parents_def)
qed

lemma fold_add_parents_options [simp]:
  "z_Options (fold add_parents ks z) = z_Options z" "z_Origin (fold add_parents ks z) = z_Origin z"
  by (induction ks arbitrary: z) (simp_all add: add_parents_options)

lemma finish_zone_ok:
  assumes "finish_zone z = Inr z'" and "raw_zone_ok origin z"
  shows "zone_ok z' \<and> z_Origin z' = z_Origin z \<and> z_Options z' = z_Options z"
proof -
  let ?z = "fold add_parents (keys (z_Labels z)) z"
  have ok: "raw_zone_ok origin ?z" 
    by (rule fold_preserves [where P = "raw_zone_ok origin", OF assms(2)]) (rule add_parents_ok)
  from assms(1) obtain ls where ls: "go_map (\<lambda>(k, l). go_bind (finish_label (z_Options ?z) l) (\<lambda>l'. Inr (k, l'))) (z_Labels ?z) = Inr ls"
    and z': "z_Labels z' = ls" "z_Origin z' = z_Origin z" "z_Options z' = z_Options z"
    by (auto simp: finish_zone_def go_bind_Inr Let_def)
  note m = go_map_snd [OF ls]
  have "toLower k = k \<and> final_ok (z_Options z') (z_Origin z') k l'" if "map_of ls k = Some l'" for k l'
  proof -
    from m that obtain l where l: "map_of (z_Labels ?z) k = Some l" "finish_label (z_Options ?z) l = Inr l'" by blast
    with ok have "raw_ok origin k l" "toLower k = k" by (auto simp: raw_zone_ok_def)
    with finish_label_ok [OF l(2)] show ?thesis using z' assms(2) by (simp add: raw_zone_ok_def)
  qed
  moreover have "distinct (keys ls)" "parents_closed (set (keys ls))"
    using m ok add_parents_closed [OF assms(2)] by (simp_all add: raw_zone_ok_def)
  ultimately show ?thesis using z' by (simp add: zone_ok_def)
qed

lemma parents_closed_insert_root: "parents_closed ks \<Longrightarrow> parents_closed (insert [] ks)"
  by (auto simp: parents_closed_def parent_names_def)

lemma zone_ok_put:
  assumes "zone_ok z" and "toLower k = k" and "final_ok (z_Options z) (z_Origin z) k l"
    and "parents_closed (insert k (set (keys (z_Labels z))))"
  shows "zone_ok (z\<lparr>z_Labels := map_put k l (z_Labels z)\<rparr>)"
  using assms by (auto simp: zone_ok_def)

lemma final_ok_soa:
  "soa_entry (TypeSOA, rs) \<Longrightarrow> final_ok opts origin k l \<Longrightarrow> final_ok opts origin k (l\<lparr>lb_Records := map_put TypeSOA rs (lb_Records l)\<rparr>)"
proof -
  have "list_all P (map_put TypeSOA rs m)" if "list_all P m" "P (TypeSOA, rs)"
    for P and m :: "(uint16 \<times> zrecord list) list"
    using that by (induction m) auto
  moreover assume "soa_entry (TypeSOA, rs)" "final_ok opts origin k l"
  ultimately show ?thesis by (simp add: final_ok_def)
qed

lemma soa_string_cong: "z_Origin z = z_Origin z' \<Longrightarrow> z_Options z = z_Options z' \<Longrightarrow> soa_string z ns = soa_string z' ns"
  by (simp add: soa_string_def)

text \<open>The label of the root of the zone, added when there is none.\<close>

lemma root_label_ok:
  assumes "zone_ok z" and "(case map_of (z_Labels z) [] of Some l \<Rightarrow> (l, z) | None \<Rightarrow> AddLabel [] z) = (l0, z0)"
  shows "zone_ok z0 \<and> map_of (z_Labels z0) [] = Some l0 \<and> z_Origin z0 = z_Origin z \<and> z_Options z0 = z_Options z"
proof (cases "map_of (z_Labels z) []")
  case None
  have "final_ok (z_Options z) (z_Origin z) [] (new_label [] z)" by (simp add: final_ok_def new_label_def)
  with assms(1) have "zone_ok (z\<lparr>z_Labels := map_put [] (new_label [] z) (z_Labels z)\<rparr>)"
    by (intro zone_ok_put) (simp_all add: parents_closed_insert_root zone_ok_def)
  with None assms(2) show ?thesis by (auto simp: AddLabel_def Let_def)
qed (use assms in auto)

lemma addSOA_ok:
  assumes "addSOA newRR z = Inr z'" and "zone_ok z"
  shows "zone_ok z' \<and> (\<exists>ns rr. newRR (soa_string z ns) = Some rr \<and> SoaRR z' = Inr rr) \<and>
    z_Origin z' = z_Origin z \<and> z_Options z' = z_Options z"
proof -
  obtain l0 z0 where l0: "(case map_of (z_Labels z) [] of Some l \<Rightarrow> (l, z) | None \<Rightarrow> AddLabel [] z) = (l0, z0)"
    by (metis prod.exhaust)
  note z0 = root_label_ok [OF assms(2) l0]
  from assms(1) l0 obtain ns rr where rr: "newRR (soa_string z0 ns) = Some rr"
    and z': "z' = z0\<lparr>z_Labels := map_put [] (l0\<lparr>lb_Records := map_put TypeSOA
        [\<lparr>rec_RR = rr, rec_Weight = 0, rec_Loc = None, rec_Test = []\<rparr>] (lb_Records l0)\<rparr>) (z_Labels z0)\<rparr>"
    by (auto simp: addSOA_def go_bind_Inr Let_def split: option.splits)
  have "SoaRR z' = Inr rr" by (simp add: SoaRR_def FirstRR_def z')
  moreover have "zone_ok z'" unfolding z'
  proof (rule zone_ok_put)
    show "final_ok (z_Options z0) (z_Origin z0) [] (l0\<lparr>lb_Records := map_put TypeSOA
        [\<lparr>rec_RR = rr, rec_Weight = 0, rec_Loc = None, rec_Test = []\<rparr>] (lb_Records l0)\<rparr>)"
      using z0 by (intro final_ok_soa) (auto simp: zone_ok_def soa_entry_def)
    show "parents_closed (insert [] (set (keys (z_Labels z0))))"
      using z0 by (simp add: parents_closed_insert_root zone_ok_def)
  qed (use z0 in simp_all)
  moreover have "soa_string z0 ns = soa_string z ns" using z0 by (intro soa_string_cong) auto
  ultimately show ?thesis using rr z0 by (auto simp: z')
qed

subsection \<open>Locations\<close>

lemma locate_record_keeps:
  "locate_record g r = Inr r' \<Longrightarrow> rec_RR r' = rec_RR r \<and> rec_Weight r' = rec_Weight r \<and> rec_Test r' = rec_Test r"
  by (auto simp: locate_record_def go_bind_Inr Let_def split: option.splits)

lemma go_map_locate:
  "go_map (locate_record g) rs = Inr rs' \<Longrightarrow>
   weight_sum rs' = weight_sum rs \<and> (list_all (record_ok h) rs' \<longleftrightarrow> list_all (record_ok h) rs) \<and>
   map rec_RR rs' = map rec_RR rs"
  by (induction rs arbitrary: rs') (auto simp: go_bind_Inr record_ok_def dest: locate_record_keeps)

lemma locate_type_ok:
  assumes "locate_type g t l = Inr l'" and "final_ok opts origin k l" and "t \<noteq> TypeSOA"
  shows "final_ok opts origin k l' \<and> lb_Closest l' = lb_Closest l \<and> map_of (lb_Records l') TypeSOA = map_of (lb_Records l) TypeSOA"
proof (cases "map_of (lb_Records l) t")
  case None
  with assms show ?thesis by (simp add: locate_type_def)
next
  case (Some rs)
  with assms(1) obtain rs' where rs': "go_map (locate_record g) rs = Inr rs'"
    and l': "l' = l\<lparr>lb_Records := map_put t rs' (lb_Records l)\<rparr>" by (auto simp: locate_type_def go_bind_Inr)
  have "list_all P (map_put t rs' m)" if "list_all P m" "P (t, rs')" for P and m :: "(uint16 \<times> zrecord list) list"
    using that by (induction m) auto
  moreover have "type_ok opts origin k (lb_Ttl l) (lb_Weight l) (t, rs')"
  proof -
    from Some have "(t, rs) \<in> set (lb_Records l)" by (rule map_of_SomeD)
    with assms(2,3) have "type_ok opts origin k (lb_Ttl l) (lb_Weight l) (t, rs)" by (auto simp: final_ok_def list_all_iff soa_entry_def)
    with go_map_locate [OF rs'] show ?thesis by (simp add: type_ok_def)
  qed
  ultimately show ?thesis using assms(2,3) by (auto simp: l' final_ok_def)
qed

lemma locate_label_ok:
  assumes "locate_label g (k, l) = Inr (k', l')" and "final_ok opts origin k l"
  shows "k' = k \<and> final_ok opts origin k l' \<and> map_of (lb_Records l') TypeSOA = map_of (lb_Records l) TypeSOA"
proof -
  have t: "TypeA \<noteq> TypeSOA" "TypeAAAA \<noteq> TypeSOA" by (simp_all add: rrtype_defs)
  show ?thesis
  proof (cases "lb_Closest l")
    case True
    with assms(1) obtain l1 where "locate_type g TypeA l = Inr l1" "locate_type g TypeAAAA l1 = Inr l'" "k' = k"
      by (auto simp: locate_label_def go_bind_Inr)
    with locate_type_ok [OF _ assms(2) t(1)] locate_type_ok [OF _ _ t(2), of g l1 l' opts origin k]
    show ?thesis by metis
  qed (use assms in \<open>simp add: locate_label_def\<close>)
qed

lemma SetLocations_ok:
  assumes "SetLocations g z = Inr z'" and "zone_ok z"
  shows "zone_ok z' \<and> z_Origin z' = z_Origin z \<and> z_Options z' = z_Options z \<and> (SoaRR z = Inr rr \<longrightarrow> SoaRR z' = Inr rr)"
proof -
  from assms(1) obtain ls where ls: "go_map (locate_label g) (z_Labels z) = Inr ls" and z': "z' = z\<lparr>z_Labels := ls\<rparr>"
    by (auto simp: SetLocations_def go_bind_Inr)
  have "keys ls = keys m \<and> (\<forall>k l'. map_of ls k = Some l' \<longrightarrow> (\<exists>l. map_of m k = Some l \<and> locate_label g (k, l) = Inr (k, l')))"
    if "go_map (locate_label g) m = Inr ls" for m ls
    using that
  proof (induction m arbitrary: ls)
    case (Cons e m)
    obtain k l where e: "e = (k, l)" by (cases e)
    from Cons.prems obtain k' l' ls' where l': "locate_label g (k, l) = Inr (k', l')"
      "go_map (locate_label g) m = Inr ls'" "ls = (k', l') # ls'" by (auto simp: e go_bind_Inr)
    moreover from l'(1) have "k' = k" by (auto simp: locate_label_def go_bind_Inr split: if_splits)
    ultimately show ?case using Cons.IH [of ls'] by (auto simp: e)
  qed simp
  note m = this [OF ls]
  have f: "\<exists>l. map_of (z_Labels z) k = Some l \<and> toLower k = k \<and> final_ok (z_Options z) (z_Origin z) k l' \<and>
      map_of (lb_Records l') TypeSOA = map_of (lb_Records l) TypeSOA" if "map_of ls k = Some l'" for k l'
  proof -
    from m that obtain l where l: "map_of (z_Labels z) k = Some l" "locate_label g (k, l) = Inr (k, l')" by blast
    with assms(2) have "toLower k = k" "final_ok (z_Options z) (z_Origin z) k l" by (auto simp: zone_ok_def)
    with l locate_label_ok [OF l(2)] show ?thesis by blast
  qed
  have "zone_ok z'" using assms(2) m f by (auto simp: zone_ok_def z')
  moreover have "SoaRR z' = Inr rr" if s: "SoaRR z = Inr rr"
  proof -
    from s obtain l where l: "map_of (z_Labels z) [] = Some l" "FirstRR l TypeSOA = Inr rr"
      by (auto simp: SoaRR_def split: option.splits)
    then have "[] \<in> set (keys ls)" using m by (metis domI dom_map_of_keys)
    then obtain l' where "map_of ls [] = Some l'" by (metis domD dom_map_of_keys)
    with f [of "[]" l'] l show ?thesis by (simp add: SoaRR_def z' FirstRR_def map_get_def)
  qed
  ultimately show ?thesis by (simp add: z')
qed

lemma setupZoneData_ok:
  assumes "setupZoneData fmtFloat srt newRR data z = Inr z'" and "raw_zone_ok origin z" and "data_ok data"
    and "go_sort records_less srt"
  shows "zone_ok z' \<and> z_Origin z' = origin \<and> (\<exists>rr. SoaRR z' = Inr rr)"
proof -
  from assms(1) obtain z1 z2 where z1: "go_fold (read_label fmtFloat srt) data z = Inr z1"
    and z2: "finish_zone z1 = Inr z2" and z': "addSOA newRR z2 = Inr z'" by (auto simp: setupZoneData_def go_bind_Inr)
  from read_labels_ok [OF z1 assms(2-4)] have ok: "raw_zone_ok origin z1" .
  with finish_zone_ok [OF z2 ok] addSOA_ok [OF z'] show ?thesis by (auto simp: raw_zone_ok_def)
qed

lemma case_early_return:
  "(case r of Inl e \<Rightarrow> Inr (Inl e) | Inr x \<Rightarrow> f x) = Inr (Inr y) \<longleftrightarrow> (\<exists>x. r = Inr x \<and> f x = Inr (Inr y))"
  by (cases r) simp_all

lemma zone_entry_ok:
  assumes "zone_entry fmtFloat k v (z, d) = Inr (Inr (z', d'))"
  shows "z_Labels z' = z_Labels z \<and> z_Origin z' = z_Origin z \<and> (d' = d \<or> k = ''data'' \<and> v = JObj d')"
proof (cases "k = ''data''")
  case True
  with assms show ?thesis by (auto simp: zone_entry_def go_bind_Inr as_object_def split: json.splits)
next
  case False
  have tgt: "z_Labels z' = z_Labels z \<and> z_Origin z' = z_Origin z \<and> d' = d"
    if "(case ParseTargets s of (tgt, err) \<Rightarrow> (case err of Some e \<Rightarrow> Inr (Inl (TargetingError e))
      | None \<Rightarrow> Inr (Inr (z\<lparr>z_Options := (z_Options z)\<lparr>zo_Targeting := tgt\<rparr>\<rparr>, d)))) = Inr (Inr (z', d'))" for s
    using that by (cases "ParseTargets s") (auto split: option.splits)
  from False assms show ?thesis
    by (simp add: zone_entry_def Let_def split: if_splits)
      (auto simp: go_bind_Inr dest: tgt)
qed

lemma zone_entries_ok:
  assumes "zone_entries fmtFloat kvs (z, d) = Inr (Inr (z', d'))"
  shows "z_Labels z' = z_Labels z \<and> z_Origin z' = z_Origin z \<and> (d' = d \<or> (''data'', JObj d') \<in> set kvs)"
  using assms
proof (induction kvs arbitrary: z d)
  case (Cons e kvs)
  obtain k v where e: "e = (k, v)" by (cases e)
  from Cons.prems obtain z1 d1 where "zone_entry fmtFloat k v (z, d) = Inr (Inr (z1, d1))"
    "zone_entries fmtFloat kvs (z1, d1) = Inr (Inr (z', d'))"
    by (auto simp: e go_bind_Inr case_early_return)
  with Cons.IH [of z1 d1] zone_entry_ok [of fmtFloat k v z d z1 d1] show ?case by (auto simp: e)
qed simp

text \<open>The decoder builds Go maps: the objects in the data have distinct keys.\<close>

definition file_ok :: "zone_file \<Rightarrow> bool" where
  "file_ok file \<longleftrightarrow>
     (case zf_json file of
        Inl _ \<Rightarrow> True
      | Inr m \<Rightarrow> list_all (\<lambda>(k, v). case v of JObj d \<Rightarrow> k = ''data'' \<longrightarrow> data_ok d | _ \<Rightarrow> True) m)"

lemma file_okD: "file_ok file \<Longrightarrow> zf_json file = Inr m \<Longrightarrow> (''data'', JObj d) \<in> set m \<Longrightarrow> data_ok d"
proof -
  assume "file_ok file" "zf_json file = Inr m" and mem: "(''data'', JObj d) \<in> set m"
  then have "list_all (\<lambda>(k, v). case v of JObj d \<Rightarrow> k = ''data'' \<longrightarrow> data_ok d | _ \<Rightarrow> True) m" by (simp add: file_ok_def)
  with mem show ?thesis by (induction m) auto
qed

text \<open>What is read is well formed.\<close>

lemma ReadZoneFile_ok:
  assumes "ReadZoneFile fmtFloat srt newRR gp file (NewZone name) = Inr z" and "go_sort records_less srt"
    and "file_ok file"
  shows "zone_ok z \<and> z_Origin z = name \<and> (\<exists>rr. SoaRR z = Inr rr)"
proof -
  let ?z0 = "case zf_mtime file of None \<Rightarrow> NewZone name :: raw_zone
    | Some t \<Rightarrow> (NewZone name)\<lparr>z_Options := (z_Options (NewZone name :: raw_zone))\<lparr>zo_Serial := t\<rparr>\<rparr>"
  from assms(1) have body: "read_zone_body fmtFloat srt newRR gp file (NewZone name) = Inr (Inr z)"
    by (auto simp: ReadZoneFile_def split: sum.splits)
  then obtain m z1 d z2 where m: "zf_json file = Inr m"
    and e: "zone_entries fmtFloat m (?z0, []) = Inr (Inr (z1, d))"
    and s: "setupZoneData fmtFloat srt newRR d z1 = Inr z2" "locate_zone gp z2 = Inr z"
    by (cases "zf_open file"; cases "zf_json file") (auto simp: read_zone_body_def go_bind_Inr Let_def case_early_return)
  from s(2) have "z = z2 \<or> (\<exists>g. SetLocations g z2 = Inr z)"
    by (auto simp: locate_zone_def split: if_splits option.splits)
  have "z_Labels ?z0 = [] \<and> z_Origin ?z0 = name" by (simp add: NewZone_def split: option.split)
  with zone_entries_ok [OF e] have "raw_zone_ok name z1" by (simp add: raw_zone_ok_def)
  moreover have "data_ok d" using zone_entries_ok [OF e] file_okD [OF assms(3) m] by (auto simp: data_ok_def [of "[]"])
  ultimately have z2: "zone_ok z2 \<and> z_Origin z2 = name \<and> (\<exists>rr. SoaRR z2 = Inr rr)"
    by (rule setupZoneData_ok [OF s(1) _ _ assms(2)])
  with \<open>z = z2 \<or> (\<exists>g. SetLocations g z2 = Inr z)\<close> show ?thesis using SetLocations_ok by metis
qed

text \<open>C7. A zone that was read without an error is well formed: its labels are stored under their
  lower-case names, with all their parent names; every record sits under its own type, with the
  name of its label, class IN and the TTL of label, record type or zone; the weight kept for a
  type is the sum of the weights of its records; and the zone has a SOA record.\<close>

theorem read_zone_wellformed:
  assumes "ReadZoneFile fmtFloat srt newRR gp file (NewZone name) = Inr z" and "go_sort records_less srt"
    and "file_ok file"
  shows "zone_ok z \<and> z_Origin z = name \<and> (\<exists>rr. SoaRR z = Inr rr)"
  by (rule ReadZoneFile_ok [OF assms])

definition sample_soa :: rr where
  "sample_soa = RR_SOA (sample_rr TypeSOA) ''ns1.example.net.'' ''hostmaster.example.com.'' 1 5400 5400 1209600 3600"

definition sample_file :: zone_file where
  "sample_file = \<lparr>zf_open = None, zf_mtime = Some 42, zf_json = Inr
     [(''ttl'', JStr ''6''),
      (''data'', JObj
        [([], JObj [(''ns'', JObj [(''ns1.example.net.'', JNull)])]),
         (''www.Europe'', JObj [(''cname'', JArr [JArr [JStr ''a.example.net.'', JStr ''10''], JArr [JStr ''b'', JStr ''20'']])]),
         (''www'', JObj [(''alias'', JStr ''web''), (''ttl'', JStr ''3'')])])]\<rparr>"

abbreviation weight_sort :: record_sort where
  "weight_sort \<equiv> insertionSort records_less"

lemma weight_sort_ok: "go_sort records_less weight_sort"
  unfolding records_less_def by (rule go_sort_insertionSort)

lemma sample_file_ok: "file_ok sample_file"
  by (simp add: file_ok_def sample_file_def data_ok_def)

lemma sample_file_read:
  "\<exists>z. ReadZoneFile (\<lambda>_. []) weight_sort (\<lambda>_. Some sample_soa) None sample_file (NewZone ''example.com'') = Inr z"
proof -
  have "(case ReadZoneFile (\<lambda>_. []) weight_sort (\<lambda>_. Some sample_soa) None sample_file (NewZone ''example.com'') of
     Inl _ \<Rightarrow> False | Inr z \<Rightarrow> True)" by code_simp
  then show ?thesis by (auto split: sum.splits)
qed

theorem read_zone_wellformed_witness:
  "\<exists>z. ReadZoneFile (\<lambda>_. []) weight_sort (\<lambda>_. Some sample_soa) None sample_file (NewZone ''example.com'') = Inr z \<and> zone_ok z"
  using sample_file_read read_zone_wellformed [OF _ weight_sort_ok sample_file_ok] by blast

end
