(* ===== verification/ReaderOptions.thy ===== *)
theory ReaderOptions
  imports ReaderInv
begin

text \<open>
  What \<open>ReadZoneFile\<close> does with the options of a zone file: the fields the file sets, the defaults of
  those it does not, and the errors.
\<close>

section \<open>Options\<close>

lemma zone_entries_field:
  assumes "zone_entries fmtFloat kvs (z, d) = Inr (Inr (z', d'))" and "distinct (keys kvs)"
    and other: "\<And>k v z d z1 d1. zone_entry fmtFloat k v (z, d) = Inr (Inr (z1, d1)) \<Longrightarrow> k \<noteq> key \<Longrightarrow> g z1 = g z"
    and same: "\<And>v z d z1 d1. zone_entry fmtFloat key v (z, d) = Inr (Inr (z1, d1)) \<Longrightarrow> conv v = Inr (g z1)"
  shows "opt_field kvs key conv (g z) = Inr (g z')"
  using assms(1,2)
proof (induction kvs arbitrary: z d)
  case Nil
  then show ?case by (simp add: opt_field_def)
next
  case (Cons e kvs)
  obtain k v where e: "e = (k, v)" by (cases e)
  from Cons.prems obtain z1 d1 where step: "zone_entry fmtFloat k v (z, d) = Inr (Inr (z1, d1))"
    and rest: "zone_entries fmtFloat kvs (z1, d1) = Inr (Inr (z', d'))" by (auto simp: e go_bind_Inr case_early_return)
  from Cons.IH [OF rest] Cons.prems(2) have ih: "opt_field kvs key conv (g z1) = Inr (g z')" by (simp add: e)
  show ?case
  proof (cases "k = key")
    case True
    with Cons.prems(2) have "map_of kvs key = None" by (simp add: e map_of_eq_None_keys)
    with ih same [of v z d z1 d1] step True show ?thesis by (simp add: e opt_field_def)
  next
    case False
    with ih other [OF step False] show ?thesis by (simp add: e opt_field_def)
  qed
qed

definition to_targets :: "json \<Rightarrow> int go" where
  "to_targets v = go_bind (as_string v) (\<lambda>s. Inr (fst (ParseTargets s)))"

text \<open>The two forms of a step: by the key, in order.\<close>

lemma zone_entry_targeting:
  assumes "zone_entry fmtFloat ''targeting'' v (z, d) = Inr (Inr (z1, d1))"
  shows "\<exists>t. to_targets v = Inr t \<and> z1 = z\<lparr>z_Options := (z_Options z)\<lparr>zo_Targeting := t\<rparr>\<rparr>"
proof -
  have "zone_entry fmtFloat ''targeting'' v (z, d) = go_bind (as_string v) (\<lambda>s.
      case ParseTargets s of (tgt, err) \<Rightarrow> (case err of Some e \<Rightarrow> Inr (Inl (TargetingError e))
        | None \<Rightarrow> Inr (Inr (z\<lparr>z_Options := (z_Options z)\<lparr>zo_Targeting := tgt\<rparr>\<rparr>, d))))"
    by (simp add: zone_entry_def)
  with assms obtain s where s: "as_string v = Inr s" "(case ParseTargets s of (tgt, err) \<Rightarrow>
      (case err of Some e \<Rightarrow> Inr (Inl (TargetingError e))
        | None \<Rightarrow> Inr (Inr (z\<lparr>z_Options := (z_Options z)\<lparr>zo_Targeting := tgt\<rparr>\<rparr>, d)))) = (Inr (Inr (z1, d1)) :: (zone_error + raw_zone \<times> jobject) go)"
    by (auto simp: go_bind_Inr)
  obtain t err where t: "ParseTargets s = (t, err)" by (cases "ParseTargets s")
  with s have "z1 = z\<lparr>z_Options := (z_Options z)\<lparr>zo_Targeting := t\<rparr>\<rparr>" by (cases err) simp_all
  with s(1) t show ?thesis by (simp add: to_targets_def)
qed

lemma zone_entry_cases:
  assumes "zone_entry fmtFloat k v (z, d) = Inr (Inr (z1, d1))"
  obtains (ttl) i where "k = ''ttl''" "ToInt v = Inr i" "z1 = z\<lparr>z_Options := (z_Options z)\<lparr>zo_Ttl := i\<rparr>\<rparr>"
    | (serial) i where "k = ''serial''" "ToInt v = Inr i" "z1 = z\<lparr>z_Options := (z_Options z)\<lparr>zo_Serial := i\<rparr>\<rparr>"
    | (contact) s where "k = ''contact''" "as_string v = Inr s" "z1 = z\<lparr>z_Options := (z_Options z)\<lparr>zo_Contact := s\<rparr>\<rparr>"
    | (max_hosts) i where "k = ''max_hosts''" "ToInt v = Inr i" "z1 = z\<lparr>z_Options := (z_Options z)\<lparr>zo_MaxHosts := i\<rparr>\<rparr>"
    | (closest) b where "k = ''closest''" "as_bool v = Inr b"
        "z1 = z\<lparr>z_Options := (z_Options z)\<lparr>zo_Closest := b\<rparr>, z_HasClosest := z_HasClosest z \<or> b\<rparr>"
    | (targeting) t where "k = ''targeting''" "to_targets v = Inr t" "z1 = z\<lparr>z_Options := (z_Options z)\<lparr>zo_Targeting := t\<rparr>\<rparr>"
    | (parseIP) b where "k = ''parseIP''" "as_bool v = Inr b" "z1 = z\<lparr>z_ParseIP := b\<rparr>"
    | (logging) x where "k = ''logging''" "z1 = z\<lparr>z_Logging := x\<rparr>"
    | (data) "k = ''data''" "z1 = z"
    | (unknown) "k \<noteq> ''ttl''" "k \<noteq> ''serial''" "k \<noteq> ''contact''" "k \<noteq> ''max_hosts''" "k \<noteq> ''closest''"
        "k \<noteq> ''targeting''" "k \<noteq> ''parseIP''" "z1 = z"
proof -
  note e = assms [unfolded zone_entry_def Let_def prod.case]
  show thesis
  proof (cases "k = ''targeting''")
    case True
    with zone_entry_targeting [of fmtFloat v z d z1 d1] assms targeting show thesis by blast
  next
    case nt: False
    consider "k = ''ttl''" | "k = ''serial''" | "k = ''contact''" | "k = ''max_hosts''" | "k = ''closest''"
      | "k = ''parseIP''" | "k = ''logging''" | "k = ''data''"
      | "k \<noteq> ''ttl''" "k \<noteq> ''serial''" "k \<noteq> ''contact''" "k \<noteq> ''max_hosts''" "k \<noteq> ''closest''" "k \<noteq> ''parseIP''"
        "k \<noteq> ''logging''" "k \<noteq> ''data''" by argo
    then show thesis
    proof cases
      case 1 with e ttl show thesis by (simp add: go_bind_Inr) blast
    next
      case 2 with e serial show thesis by (simp add: go_bind_Inr) blast
    next
      case 3 with e contact show thesis by (simp add: go_bind_Inr) blast
    next
      case 4 with e max_hosts show thesis by (simp add: go_bind_Inr) blast
    next
      case 5 with e closest show thesis by (simp add: go_bind_Inr) blast
    next
      case 6 with e parseIP show thesis by (simp add: go_bind_Inr) blast
    next
      case 7 with e logging show thesis by (simp add: go_bind_Inr) blast
    next
      case 8 with e data show thesis by (simp add: go_bind_Inr)
    next
      case 9 with e nt unknown show thesis by simp
    qed
  qed
qed

text \<open>The fields of a zone the data does not touch.\<close>

definition zone_head :: "'r zone \<Rightarrow> string \<times> nat \<times> zone_options \<times> zone_metrics \<times> bool" where
  "zone_head z = (z_Origin z, z_LabelCount z, z_Options z, z_Metrics z, z_ParseIP z)"

lemma read_label_head: "read_label fmtFloat srt kv z = Inr z' \<Longrightarrow> zone_head z' = zone_head z"
  by (auto simp: read_label_def go_bind_Inr AddLabel_def Let_def zone_head_def split: prod.splits)

lemma add_parents_head_fields: "zone_head (add_parents k z) = zone_head z"
proof -
  have m: "zone_head (add_missing n z) = zone_head z" for n and z :: "'a zone"
    by (simp add: add_missing_def AddLabel_def Let_def zone_head_def)
  have "zone_head (fold add_missing ns z) = zone_head z" for ns
    by (induction ns arbitrary: z) (simp_all add: m)
  then show ?thesis by (simp add: add_parents_def)
qed

lemma finish_zone_head: "finish_zone z = Inr z' \<Longrightarrow> zone_head z' = zone_head z"
proof -
  have ps: "zone_head (fold add_parents ks z) = zone_head z" for ks and z :: raw_zone
    by (induction ks arbitrary: z) (simp_all add: add_parents_head_fields)
  assume "finish_zone z = Inr z'"
  then have "zone_head z' = zone_head (fold add_parents (keys (z_Labels z)) z)"
    by (auto simp: finish_zone_def go_bind_Inr Let_def zone_head_def)
  with ps show ?thesis by simp
qed

lemma addSOA_head: "addSOA newRR z = Inr z' \<Longrightarrow> zone_head z' = zone_head z"
  by (auto simp: addSOA_def go_bind_Inr AddLabel_def Let_def zone_head_def split: option.splits)

lemma locate_zone_head: "locate_zone gp z = Inr z' \<Longrightarrow> zone_head z' = zone_head z"
  by (auto simp: locate_zone_def SetLocations_def go_bind_Inr zone_head_def split: if_splits option.splits)

lemma setupZoneData_head:
  assumes "setupZoneData fmtFloat srt newRR d z = Inr z'"
  shows "zone_head z' = zone_head z"
proof -
  from assms obtain z1 z2 where z1: "go_fold (read_label fmtFloat srt) d z = Inr z1"
    and z2: "finish_zone z1 = Inr z2" and z': "addSOA newRR z2 = Inr z'" by (auto simp: setupZoneData_def go_bind_Inr)
  from z1 have "zone_head z1 = zone_head z"
    by (rule go_fold_invariant [where P = "\<lambda>x. zone_head x = zone_head z"]) (auto dest: read_label_head)
  with finish_zone_head [OF z2] addSOA_head [OF z'] show ?thesis by simp
qed

lemma ReadZoneFile_steps:
  assumes "ReadZoneFile fmtFloat srt newRR gp file (NewZone name) = Inr z" and "zf_json file = Inr m"
  obtains z0 :: raw_zone and z1 z2 d where
    "z0 = (case zf_mtime file of None \<Rightarrow> NewZone name
       | Some t \<Rightarrow> (NewZone name)\<lparr>z_Options := (z_Options (NewZone name :: raw_zone))\<lparr>zo_Serial := t\<rparr>\<rparr>)"
    "zone_entries fmtFloat m (z0, []) = Inr (Inr (z1, d))"
    "setupZoneData fmtFloat srt newRR d z1 = Inr z2" "locate_zone gp z2 = Inr z"
proof -
  from assms(1) have body: "read_zone_body fmtFloat srt newRR gp file (NewZone name) = Inr (Inr z)"
    by (auto simp: ReadZoneFile_def split: sum.splits)
  then show thesis using assms(2) that
    by (cases "zf_open file") (auto simp: read_zone_body_def go_bind_Inr Let_def case_early_return)
qed

lemma zone_entries_identity:
  assumes "zone_entries fmtFloat kvs (z, d) = Inr (Inr (z', d'))"
  shows "z_Origin z' = z_Origin z \<and> z_LabelCount z' = z_LabelCount z \<and> z_Metrics z' = z_Metrics z"
  using assms
proof (induction kvs arbitrary: z d)
  case (Cons e kvs)
  obtain k v where e: "e = (k, v)" by (cases e)
  from Cons.prems obtain z1 d1 where z1: "zone_entry fmtFloat k v (z, d) = Inr (Inr (z1, d1))"
    and rest: "zone_entries fmtFloat kvs (z1, d1) = Inr (Inr (z', d'))"
    by (auto simp: e go_bind_Inr case_early_return)
  from z1 have "z_Origin z1 = z_Origin z \<and> z_LabelCount z1 = z_LabelCount z \<and> z_Metrics z1 = z_Metrics z"
    by (rule zone_entry_cases) simp_all
  with Cons.IH [OF rest] show ?case by simp
qed simp

text \<open>A zone keeps the identity \<open>NewZone\<close> gave it, and the reader sets up no metrics.\<close>

lemma ReadZoneFile_identity:
  assumes "ReadZoneFile fmtFloat srt newRR gp file (NewZone name) = Inr z"
  shows "z_Origin z = name \<and> z_LabelCount z = CountLabel name \<and> z_Metrics z = \<lparr>zm_LabelStats = None, zm_ClientStats = None\<rparr>"
proof -
  from assms obtain m where m: "zf_json file = Inr m"
    by (cases "zf_json file"; cases "zf_open file") (auto simp: ReadZoneFile_def read_zone_body_def Let_def)
  from ReadZoneFile_steps [OF assms m] obtain z0 :: raw_zone and z1 z2 d where
    z0: "z0 = (case zf_mtime file of None \<Rightarrow> NewZone name
       | Some t \<Rightarrow> (NewZone name)\<lparr>z_Options := (z_Options (NewZone name :: raw_zone))\<lparr>zo_Serial := t\<rparr>\<rparr>)"
    and e: "zone_entries fmtFloat m (z0, []) = Inr (Inr (z1, d))"
    and s: "setupZoneData fmtFloat srt newRR d z1 = Inr z2" "locate_zone gp z2 = Inr z" .
  from zone_entries_identity [OF e] setupZoneData_head [OF s(1)] locate_zone_head [OF s(2)] show ?thesis
    by (simp add: zone_head_def z0 NewZone_def split: option.splits)
qed

text \<open>C13. The options of a zone that was read are those of its file, whatever the order of the entries,
  with the documented defaults: TTL 120, two hosts, the modification time as serial, targets
  global, country and continent.\<close>

theorem read_zone_options:
  assumes "ReadZoneFile fmtFloat srt newRR gp file (NewZone name) = Inr z" and "zf_json file = Inr m"
    and "distinct (keys m)"
  shows "opt_field m ''ttl'' ToInt 120 = Inr (zo_Ttl (z_Options z)) \<and>
    opt_field m ''serial'' ToInt (case zf_mtime file of None \<Rightarrow> 0 | Some t \<Rightarrow> t) = Inr (zo_Serial (z_Options z)) \<and>
    opt_field m ''contact'' as_string (''hostmaster.'' @ name) = Inr (zo_Contact (z_Options z)) \<and>
    opt_field m ''max_hosts'' ToInt 2 = Inr (zo_MaxHosts (z_Options z)) \<and>
    opt_field m ''closest'' as_bool False = Inr (zo_Closest (z_Options z)) \<and>
    opt_field m ''targeting'' to_targets 7 = Inr (zo_Targeting (z_Options z)) \<and>
    opt_field m ''parseIP'' as_bool False = Inr (z_ParseIP z)"
proof -
  from ReadZoneFile_steps [OF assms(1,2)] obtain z0 :: raw_zone and z1 z2 d where
    z0: "z0 = (case zf_mtime file of None \<Rightarrow> NewZone name
       | Some t \<Rightarrow> (NewZone name)\<lparr>z_Options := (z_Options (NewZone name :: raw_zone))\<lparr>zo_Serial := t\<rparr>\<rparr>)"
    and e: "zone_entries fmtFloat m (z0, []) = Inr (Inr (z1, d))"
    and s: "setupZoneData fmtFloat srt newRR d z1 = Inr z2" "locate_zone gp z2 = Inr z" .
  note f = zone_entries_field [OF e assms(3)]
  have keep: "z_Options z = z_Options z1" "z_ParseIP z = z_ParseIP z1"
    using setupZoneData_head [OF s(1)] locate_zone_head [OF s(2)] by (simp_all add: zone_head_def)
  have d: "zo_Ttl (z_Options z0) = 120" "zo_Serial (z_Options z0) = (case zf_mtime file of None \<Rightarrow> 0 | Some t \<Rightarrow> t)"
    "zo_Contact (z_Options z0) = ''hostmaster.'' @ name" "zo_MaxHosts (z_Options z0) = 2"
    "zo_Closest (z_Options z0) = False" "zo_Targeting (z_Options z0) = 7" "z_ParseIP z0 = False"
    by (simp_all add: z0 NewZone_def target_defs split: option.split)
  have "opt_field m ''ttl'' ToInt (zo_Ttl (z_Options z0)) = Inr (zo_Ttl (z_Options z1))"
    by (rule f) (erule zone_entry_cases; simp)+
  moreover have "opt_field m ''serial'' ToInt (zo_Serial (z_Options z0)) = Inr (zo_Serial (z_Options z1))"
    by (rule f) (erule zone_entry_cases; simp)+
  moreover have "opt_field m ''contact'' as_string (zo_Contact (z_Options z0)) = Inr (zo_Contact (z_Options z1))"
    by (rule f) (erule zone_entry_cases; simp)+
  moreover have "opt_field m ''max_hosts'' ToInt (zo_MaxHosts (z_Options z0)) = Inr (zo_MaxHosts (z_Options z1))"
    by (rule f) (erule zone_entry_cases; simp)+
  moreover have "opt_field m ''closest'' as_bool (zo_Closest (z_Options z0)) = Inr (zo_Closest (z_Options z1))"
    by (rule f) (erule zone_entry_cases; simp)+
  moreover have "opt_field m ''targeting'' to_targets (zo_Targeting (z_Options z0)) = Inr (zo_Targeting (z_Options z1))"
    by (rule f) (erule zone_entry_cases; simp)+
  moreover have "opt_field m ''parseIP'' as_bool (z_ParseIP z0) = Inr (z_ParseIP z1)"
    by (rule f) (erule zone_entry_cases; simp)+
  ultimately show ?thesis unfolding keep d by blast
qed

theorem read_zone_options_witness:
  "\<exists>z. ReadZoneFile (\<lambda>_. []) weight_sort (\<lambda>_. Some sample_soa) None sample_file (NewZone ''example.com'') = Inr z \<and>
     zo_Ttl (z_Options z) = 6 \<and> zo_Serial (z_Options z) = 42 \<and> zo_MaxHosts (z_Options z) = 2"
proof -
  obtain z where z: "ReadZoneFile (\<lambda>_. []) weight_sort (\<lambda>_. Some sample_soa) None sample_file (NewZone ''example.com'') = Inr z"
    using sample_file_read by blast
  obtain m where m: "zf_json sample_file = Inr m" "map_of m ''ttl'' = Some (JStr ''6'')" "map_of m ''serial'' = None"
    "map_of m ''max_hosts'' = None" "distinct (keys m)" by (simp add: sample_file_def)
  have six: "ToInt (JStr ''6'') = Inr 6" by code_simp
  have mt: "zf_mtime sample_file = Some 42" by (simp add: sample_file_def)
  from read_zone_options [OF z m(1,5)] show ?thesis
    by (intro exI [of _ z]) (simp add: z opt_field_def m(2-4) six mt del: ToInt.simps)
qed

section \<open>A record that is skipped\<close>

definition text_file :: "int option \<Rightarrow> string \<Rightarrow> string \<Rightarrow> zone_file" where
  "text_file t k txt = \<lparr>zf_open = None, zf_mtime = t,
     zf_json = Inr [(''data'', JObj [(k, JObj [(''txt'', JStr txt)])])]\<rparr>"

lemma add_missing_head:
  "\<exists>ls. z_Labels z = x # ls \<Longrightarrow> toLower n = n \<Longrightarrow> \<exists>ls. z_Labels (add_missing n z) = x # ls"
  by (cases x) (auto simp: add_missing_def AddLabel_def Let_def)

lemma add_parents_head:
  assumes "\<exists>ls. z_Labels z = x # ls" "toLower k = k"
  shows "\<exists>ls. z_Labels (add_parents k z) = x # ls"
proof -
  have "\<exists>ls. z_Labels (fold add_missing ns z) = x # ls" if "\<forall>n \<in> set ns. toLower n = n" for ns
    using that assms(1) by (induction ns arbitrary: z) (simp_all add: add_missing_head)
  with parent_names_lower [of k] assms show ?thesis by (auto simp: add_parents_def)
qed

lemma finish_empty_slot:
  assumes "z_Labels z = [(k, l)]" "toLower k = k" "lb_Records l = [(t, [None])]"
  shows "finish_zone z = Inl NilDeref"
proof -
  obtain ls where "z_Labels (add_parents k z) = (k, l) # ls" using add_parents_head [of z "(k, l)" k] assms by blast
  then show ?thesis using assms by (simp add: finish_zone_def Let_def finish_label_def finish_type_def finish_record_def)
qed

text \<open>A TXT record of length zero, which the reader reports and means to skip, makes the whole zone
  unreadable: the slot it leaves nil is dereferenced when the TTLs are set.\<close>

theorem zero_length_text_rejects_zone:
  "ReadZoneFile fmtFloat srt newRR gp (text_file t k []) (NewZone name) = Inl (Recovered NilDeref)"
proof -
  define z0 where "z0 = (case t of None \<Rightarrow> NewZone name :: raw_zone
    | Some t \<Rightarrow> (NewZone name)\<lparr>z_Options := (z_Options (NewZone name :: raw_zone))\<lparr>zo_Serial := t\<rparr>\<rparr>)"
  have l: "z_Labels z0 = []" by (simp add: z0_def NewZone_def split: option.split)
  have a: "add_records fmtFloat srt g TypeTXT (JStr []) (new_label k' z) =
      Inr ((new_label k' z)\<lparr>lb_Records := [(TypeTXT, [None])]\<rparr>)" for g k' and z :: raw_zone
    by (simp add: add_records_def rdata_items_def add_record_def read_record_def read_txt_def text_fields_def
      new_label_def map_get_def Let_def rrtype_defs)
  have "\<exists>z l. read_label fmtFloat srt (k, JObj [(''txt'', JStr [])]) z0 = Inr z \<and>
      z_Labels z = [(toLower k, l)] \<and> lb_Records l = [(TypeTXT, [None])]"
    by (simp add: read_label_def AddLabel_def Let_def l label_entry_def recordTypes_def a as_object_def) (simp add: new_label_def)
  then obtain z where z: "read_label fmtFloat srt (k, JObj [(''txt'', JStr [])]) z0 = Inr z" "finish_zone z = Inl NilDeref"
    using finish_empty_slot by (metis toLower_idem)
  then have "read_zone_body fmtFloat srt newRR gp (text_file t k []) (NewZone name) = Inl NilDeref"
    by (cases t) (simp_all add: read_zone_body_def text_file_def zone_entry_def setupZoneData_def z0_def Let_def as_object_def)
  then show ?thesis by (simp add: ReadZoneFile_def)
qed

end
