(* ===== verification/MuxManager.thy ===== *)
theory MuxManager
  imports ReaderOptions
begin

text \<open>
  \<open>zones/muxmanager.go\<close>: the manager keeps the zones of a directory of zone files registered with
  the server. The interface \<open>RegistrationAPI\<close> is a record of functions on the state \<open>'r\<close> of its
  implementation; what the manager relies on is the locale \<open>registration\<close>. The state of the manager
  includes the store of the statistics rings its zones point to. A reload gets the listing of the
  directory (or the error of \<open>ioutil.ReadDir\<close>), the hash \<open>sha256File\<close> computes of a file and what
  \<open>ReadZoneFile\<close> finds in it; the two reads of a file are separate, as they are in the code.
\<close>

section \<open>Data\<close>

type_synonym served_zone = "zrecord zone"

record 'r registration_api =
  api_Add :: "string \<Rightarrow> served_zone \<Rightarrow> 'r \<Rightarrow> 'r go"
  api_Remove :: "string \<Rightarrow> 'r \<Rightarrow> 'r go"

record zoneReadRecord =
  zr_time :: int
  zr_hash :: string

record 'r mux_manager =
  mm_reg :: 'r
  mm_zonelist :: "(string \<times> served_zone) list"
  mm_path :: string
  mm_lastRead :: "(string \<times> zoneReadRecord) list"
  mm_store :: stats_store

text \<open>\<open>NilReg\<close> ignores both calls.\<close>

definition NilReg :: "unit registration_api" where
  "NilReg = \<lparr>api_Add = (\<lambda>_ _ r. Inr r), api_Remove = (\<lambda>_ r. Inr r)\<rparr>"

text \<open>What a reload sees of the file system, by path: the contents \<open>ioutil.ReadFile\<close> returns unless it
  fails, and the file as the zone reader finds it.\<close>

record zone_fs =
  fs_content :: "string \<Rightarrow> string option"
  fs_zone :: "string \<Rightarrow> zone_file"

text \<open>The code outside the repository that reading a zone calls, and the hexadecimal SHA-256.\<close>

record externals =
  ext_fmtFloat :: "rat \<Rightarrow> string"
  ext_sort :: record_sort
  ext_newRR :: "string \<Rightarrow> rr option"
  ext_geo :: "geo_provider option"
  ext_sha256 :: "string \<Rightarrow> string"

datatype manager_error = ReadDirError string | ZoneError string zone_error

section \<open>Operations\<close>

definition sha256File :: "externals \<Rightarrow> zone_fs \<Rightarrow> string \<Rightarrow> string" where
  "sha256File ext fs fn = (case fs_content fs fn of None \<Rightarrow> [] | Some data \<Rightarrow> ext_sha256 ext data)"

definition addHandler :: "'r registration_api \<Rightarrow> string \<Rightarrow> served_zone \<Rightarrow> 'r mux_manager \<Rightarrow> 'r mux_manager go" where
  "addHandler api name zone mm =
     (let oldZone = map_of (mm_zonelist mm) name;
          (zone, store) = SetupMetrics zone oldZone (mm_store mm);
          zone = setupHealthTests zone;
          mm = mm\<lparr>mm_store := store, mm_zonelist := map_put name zone (mm_zonelist mm)\<rparr>
      in go_bind (api_Add api name zone (mm_reg mm)) (\<lambda>reg. Inr (mm\<lparr>mm_reg := reg\<rparr>)))"

definition removeHandler :: "'r registration_api \<Rightarrow> string \<Rightarrow> 'r mux_manager \<Rightarrow> 'r mux_manager go" where
  "removeHandler api name mm =
     (let mm = mm\<lparr>mm_lastRead := map_del name (mm_lastRead mm), mm_zonelist := map_del name (mm_zonelist mm)\<rparr>
      in go_bind (api_Remove api name (mm_reg mm)) (\<lambda>reg. Inr (mm\<lparr>mm_reg := reg\<rparr>)))"

definition setupPgeodnsZone ::
  "externals \<Rightarrow> 'r registration_api \<Rightarrow> 'r mux_manager \<Rightarrow> 'r mux_manager go" where
  "setupPgeodnsZone ext api mm =
     (let zone = NewZone ''pgeodns'';
          label = \<lparr>lb_Label = [], lb_MaxHosts = 0, lb_Ttl = 0, lb_Records = [], lb_Weight = [],
                   lb_Closest = False, lb_Test = None\<rparr>;
          zone = zone\<lparr>z_Labels := map_put [] label (z_Labels zone)\<rparr>
      in go_bind (AddSOA (ext_newRR ext) zone) (\<lambda>zone. addHandler api ''pgeodns'' zone mm))"

text \<open>The body of the loop over the listing for a file that is not skipped and has to be read; \<open>Inr\<close> of the
  result is \<open>parseErr\<close>.\<close>

definition read_new ::
  "externals \<Rightarrow> 'r registration_api \<Rightarrow> zone_fs \<Rightarrow> file_info \<Rightarrow> manager_error option \<Rightarrow> 'r mux_manager \<Rightarrow>
   ('r mux_manager \<times> manager_error option) go" where
  "read_new ext api fs file parseErr mm =
     (let zoneName = base_name file;
          known = map_get (mm_lastRead mm) zoneName \<lparr>zr_time = 0, zr_hash = []\<rparr>;
          known = known\<lparr>zr_time := fi_ModTime file\<rparr>;
          mm = mm\<lparr>mm_lastRead := map_put zoneName known (mm_lastRead mm)\<rparr>;
          filename = path_Join (mm_path mm) (fi_Name file);
          sha256 = sha256File ext fs filename
      in if zr_hash known = sha256 then Inr (mm, parseErr)
         else case ReadZoneFile (ext_fmtFloat ext) (ext_sort ext) (ext_newRR ext) (ext_geo ext)
                     (fs_zone fs filename) (NewZone zoneName) of
                Inl err \<Rightarrow> Inr (mm, Some (ZoneError zoneName err))
              | Inr zone \<Rightarrow>
                  let mm = mm\<lparr>mm_lastRead := map_put zoneName (known\<lparr>zr_hash := sha256\<rparr>) (mm_lastRead mm)\<rparr>
                  in go_bind (addHandler api zoneName zone mm) (\<lambda>mm. Inr (mm, parseErr)))"

text \<open>One file of the listing; the state is the manager, \<open>seenZones\<close> and \<open>parseErr\<close>.\<close>

definition reload_entry ::
  "externals \<Rightarrow> 'r registration_api \<Rightarrow> zone_fs \<Rightarrow> file_info \<Rightarrow>
   'r mux_manager \<times> string list \<times> manager_error option \<Rightarrow>
   ('r mux_manager \<times> string list \<times> manager_error option) go" where
  "reload_entry ext api fs file st =
     (case st of (mm, seenZones, parseErr) \<Rightarrow>
        if skip_file file then Inr st
        else let zoneName = base_name file; seenZones = zoneName # seenZones
             in if (case map_of (mm_lastRead mm) zoneName of
                      None \<Rightarrow> True
                    | Some r \<Rightarrow> zr_time r < fi_ModTime file)
                then go_bind (read_new ext api fs file parseErr mm)
                       (\<lambda>(mm, parseErr). Inr (mm, seenZones, parseErr))
                else Inr (mm, seenZones, parseErr))"

text \<open>One round of the loop over \<open>zonelist\<close>. Deleting the entry being visited is well defined in Go.\<close>

definition drop_zone ::
  "'r registration_api \<Rightarrow> string list \<Rightarrow> string \<times> served_zone \<Rightarrow> 'r mux_manager \<Rightarrow> 'r mux_manager go" where
  "drop_zone api seenZones e mm =
     (case e of (zoneName, zone) \<Rightarrow>
        if zoneName = ''pgeodns'' then Inr mm
        else if zoneName \<in> set seenZones then Inr mm
        else removeHandler api zoneName (mm\<lparr>mm_store := zone_Close zone (mm_store mm)\<rparr>))"

definition reload ::
  "externals \<Rightarrow> 'r registration_api \<Rightarrow> zone_fs \<Rightarrow> string + file_info list \<Rightarrow> 'r mux_manager \<Rightarrow>
   ('r mux_manager \<times> manager_error option) go" where
  "reload ext api fs listing mm =
     (case listing of
        Inl err \<Rightarrow> Inr (mm, Some (ReadDirError err))
      | Inr dir \<Rightarrow>
          go_bind (go_fold (reload_entry ext api fs) dir (mm, [], None)) (\<lambda>(mm, seenZones, parseErr).
          go_bind (go_fold (drop_zone api seenZones) (mm_zonelist mm) mm) (\<lambda>mm.
          Inr (mm, parseErr))))"

text \<open>\<open>setupRootZone\<close> registers a handler that refuses with the default multiplexer of the package
  \<open>dns\<close>, not with \<open>reg\<close>: it does not change the manager. Its handler is \<open>refuse\<close>.\<close>

definition refuse :: "msg \<Rightarrow> msg" where
  "refuse r = SetRcode new_msg r RcodeRefused"

definition setupRootZone :: "(msg \<Rightarrow> msg) mux \<Rightarrow> (msg \<Rightarrow> msg) mux go" where
  "setupRootZone defaultMux = mux_Handle ''.'' refuse defaultMux"

definition NewMuxManager ::
  "externals \<Rightarrow> 'r registration_api \<Rightarrow> zone_fs \<Rightarrow> string + file_info list \<Rightarrow> string \<Rightarrow> 'r \<Rightarrow> stats_store \<Rightarrow>
   (msg \<Rightarrow> msg) mux \<Rightarrow> ('r mux_manager \<times> (msg \<Rightarrow> msg) mux \<times> manager_error option) go" where
  "NewMuxManager ext api fs listing path reg store defaultMux =
     (let mm = \<lparr>mm_reg = reg, mm_zonelist = [], mm_path = path, mm_lastRead = [], mm_store = store\<rparr>
      in go_bind (setupRootZone defaultMux) (\<lambda>defaultMux.
         go_bind (setupPgeodnsZone ext api mm) (\<lambda>mm.
         go_bind (reload ext api fs listing mm) (\<lambda>(mm, err). Inr (mm, defaultMux, err)))))"

definition Zones :: "'r mux_manager \<Rightarrow> (string \<times> served_zone) list" where
  "Zones mm = mm_zonelist mm"

section \<open>File names and patterns\<close>

definition name_ok :: "string \<Rightarrow> bool" where
  "name_ok n \<longleftrightarrow> n \<noteq> [] \<and> \<not> IsFqdn n"

lemma Fqdn_inj: "name_ok n \<Longrightarrow> name_ok m \<Longrightarrow> Fqdn n = Fqdn m \<longleftrightarrow> n = m"
  by (simp add: name_ok_def Fqdn_def)

lemma path_Base_plain: "CHR ''/'' \<notin> set s \<Longrightarrow> s \<noteq> [] \<Longrightarrow> path_Base s = s"
proof -
  assume s: "CHR ''/'' \<notin> set s" "s \<noteq> []"
  then have "CHR ''/'' \<noteq> last s" using last_in_set [OF s(2)] by metis
  then have "dropWhile (\<lambda>c. c = CHR ''/'') (rev s) = rev s"
    by (simp add: dropWhile_eq_self_iff hd_rev)
  with s show ?thesis by (simp add: path_Base_def)
qed

lemma mem_toLower: "c \<in> set s \<Longrightarrow> lower_char c \<in> set (toLower s)"
  by (simp add: toLower_def)

lemma base_name_nonempty:
  assumes "\<not> skip_file f"
  shows "base_name f \<noteq> []"
proof
  assume e: "base_name f = []"
  let ?s = "fi_Name f"
  from assms obtain q where q: "toLower ?s = q @ ''.json''" by (auto simp: skip_file_def hasSuffix_iff)
  have "length q \<le> length ?s" using arg_cong [OF q, of length] by simp
  define a b where "a = take (length q) ?s" and "b = drop (length q) ?s"
  have s: "?s = a @ b" and lb: "toLower b = ''.json''" and la: "length a = length q"
    using q toLower_drop [of "length q" ?s] \<open>length q \<le> length ?s\<close> by (simp_all add: a_def b_def)
  from lb obtain c j where b: "b = c # j" "lower_char c = CHR ''.''" "toLower j = ''json''" by (cases b) auto
  have j: "CHR ''.'' \<notin> set j"
  proof
    assume "CHR ''.'' \<in> set j"
    from mem_toLower [OF this] show False by (simp add: b(3))
  qed
  have c: "c = CHR ''.''" using b(2) by (simp add: lower_char_of_dot)
  have "lastIndex ?s (CHR ''.'') = int (length a)" unfolding s b(1) c by (rule lastIndex_split [OF j])
  with e s la have "q = []" by (cases q) (auto simp: base_name_def)
  with s la have sb: "?s = CHR ''.'' # j" using b(1) c by simp
  have "CHR ''/'' \<notin> set ?s"
  proof
    assume "CHR ''/'' \<in> set ?s"
    from mem_toLower [OF this] show False by (simp add: q \<open>q = []\<close> lower_char_def)
  qed
  with sb assms show False by (simp add: skip_file_def path_Base_plain hasPrefix_iff)
qed

section \<open>Rings\<close>

definition ring_open :: "zoneLabelStats \<Rightarrow> bool" where
  "ring_open zs \<longleftrightarrow> zs_pos zs < length (zs_log zs)"

lemma zs_Add_open: "ring_open zs \<Longrightarrow> \<exists>zs'. zs_Add l zs = Inr zs' \<and> ring_open zs'"
  by (auto simp: zs_Add_def zs_add_def ring_open_def Let_def)

lemma zs_Add_keeps_open: "zs_Add l zs = Inr zs' \<Longrightarrow> ring_open zs'"
  by (auto simp: zs_Add_def zs_add_def ring_open_def Let_def split: if_splits)

definition metrics_ok :: "stats_store \<Rightarrow> served_zone \<Rightarrow> bool" where
  "metrics_ok st z \<longleftrightarrow>
     (case (zm_LabelStats (z_Metrics z), zm_ClientStats (z_Metrics z)) of
        (Some l, Some c) \<Rightarrow> l < length st \<and> c < length st \<and> ring_open (st ! l) \<and> ring_open (st ! c)
      | _ \<Rightarrow> False)"

definition zone_refs :: "served_zone \<Rightarrow> stats_ref set" where
  "zone_refs z = set_option (zm_LabelStats (z_Metrics z)) \<union> set_option (zm_ClientStats (z_Metrics z))"

lemma metrics_okE:
  assumes "metrics_ok st z"
  obtains l c where "z_Metrics z = \<lparr>zm_LabelStats = Some l, zm_ClientStats = Some c\<rparr>" "l < length st" "c < length st"
    "ring_open (st ! l)" "ring_open (st ! c)" "zone_refs z = {l, c}"
  using assms by (cases "z_Metrics z") (auto simp: metrics_ok_def zone_refs_def split: option.splits)

lemma metrics_ok_store:
  assumes "metrics_ok st z" and "length st \<le> length st'" and "\<And>r. r \<in> zone_refs z \<Longrightarrow> ring_open (st ! r) \<Longrightarrow> ring_open (st' ! r)"
  shows "metrics_ok st' z"
  using assms by (auto simp: metrics_ok_def zone_refs_def split: option.splits)

lemma zone_refs_bound: "metrics_ok st z \<Longrightarrow> r \<in> zone_refs z \<Longrightarrow> r < length st"
  by (auto elim: metrics_okE)

lemma zone_Close_other:
  "length (zone_Close z st) = length st" "r \<notin> zone_refs z \<Longrightarrow> zone_Close z st ! r = st ! r"
  by (auto simp: zone_Close_def close_stats_def zone_refs_def split: option.splits)

section \<open>The interface to the server\<close>

text \<open>What the manager needs to run at all, and what it means for a zone to be registered: \<open>handler r p\<close>
  is the zone answering for the fully qualified pattern \<open>p\<close>.\<close>

locale registration_total =
  fixes api :: "'r registration_api"
  assumes add_total: "n \<noteq> [] \<Longrightarrow> \<exists>r'. api_Add api n z r = Inr r'"
    and remove_total: "n \<noteq> [] \<Longrightarrow> \<exists>r'. api_Remove api n r = Inr r'"

locale registration = registration_total api for api :: "'r registration_api" +
  fixes handler :: "'r \<Rightarrow> string \<Rightarrow> served_zone option"
  assumes add_handler: "api_Add api n z r = Inr r' \<Longrightarrow> handler r' = (handler r)(Fqdn n \<mapsto> z)"
    and remove_handler: "api_Remove api n r = Inr r' \<Longrightarrow> handler r' = (handler r)(Fqdn n := None)"

interpretation nilreg: registration_total NilReg
  by unfold_locales (simp_all add: NilReg_def)

section \<open>The invariant\<close>

definition registered_ok :: "stats_store \<Rightarrow> string \<Rightarrow> served_zone \<Rightarrow> bool" where
  "registered_ok st n z \<longleftrightarrow> name_ok n \<and> z_Origin z = n \<and> z_LabelCount z = CountLabel n \<and> metrics_ok st z"

definition mm_inv :: "('r \<Rightarrow> string \<Rightarrow> served_zone option) \<Rightarrow> 'r mux_manager \<Rightarrow> bool" where
  "mm_inv handler mm \<longleftrightarrow>
     distinct (keys (mm_zonelist mm)) \<and>
     (\<forall>n z. map_of (mm_zonelist mm) n = Some z \<longrightarrow> registered_ok (mm_store mm) n z) \<and>
     (\<forall>n m z z'. map_of (mm_zonelist mm) n = Some z \<longrightarrow> map_of (mm_zonelist mm) m = Some z' \<longrightarrow> n \<noteq> m \<longrightarrow>
        zone_refs z \<inter> zone_refs z' = {}) \<and>
     (\<forall>n. name_ok n \<longrightarrow> handler (mm_reg mm) (Fqdn n) = map_of (mm_zonelist mm) n) \<and>
     (\<forall>p z. handler (mm_reg mm) p = Some z \<longrightarrow> p = Fqdn (z_Origin z) \<and> name_ok (z_Origin z)) \<and>
     set (keys (mm_zonelist mm)) \<subseteq> insert ''pgeodns'' (set (keys (mm_lastRead mm)))"

lemma mm_invD:
  assumes "mm_inv handler mm"
  shows "distinct (keys (mm_zonelist mm))"
    "map_of (mm_zonelist mm) n = Some z \<Longrightarrow> registered_ok (mm_store mm) n z"
    "map_of (mm_zonelist mm) n = Some z \<Longrightarrow> map_of (mm_zonelist mm) m = Some z' \<Longrightarrow> n \<noteq> m \<Longrightarrow> zone_refs z \<inter> zone_refs z' = {}"
    "name_ok n \<Longrightarrow> handler (mm_reg mm) (Fqdn n) = map_of (mm_zonelist mm) n"
    "handler (mm_reg mm) p = Some y \<Longrightarrow> p = Fqdn (z_Origin y) \<and> name_ok (z_Origin y)"
    "set (keys (mm_zonelist mm)) \<subseteq> insert ''pgeodns'' (set (keys (mm_lastRead mm)))"
  using assms by (simp_all add: mm_inv_def)

text \<open>A zone as the reader returns it: no metrics yet.\<close>

definition fresh_zone :: "string \<Rightarrow> served_zone \<Rightarrow> bool" where
  "fresh_zone n z \<longleftrightarrow> z_Origin z = n \<and> z_LabelCount z = CountLabel n \<and>
     z_Metrics z = \<lparr>zm_LabelStats = None, zm_ClientStats = None\<rparr>"

lemma SetupMetrics_new:
  "fresh_zone n z \<Longrightarrow> SetupMetrics z None st =
     (z\<lparr>z_Metrics := \<lparr>zm_LabelStats = Some (length st), zm_ClientStats = Some (Suc (length st))\<rparr>\<rparr>,
      st @ [\<lparr>zs_pos = 0, zs_rotated = False, zs_log = replicate 10000 []\<rparr>,
            \<lparr>zs_pos = 0, zs_rotated = False, zs_log = replicate 10000 []\<rparr>])"
  by (simp add: SetupMetrics_def fresh_zone_def alloc_stats_def)

lemma SetupMetrics_old:
  "metrics_ok st' old \<Longrightarrow> SetupMetrics z (Some old) st = (z\<lparr>z_Metrics := z_Metrics old\<rparr>, st)"
  by (erule metrics_okE) (simp add: SetupMetrics_def alloc_stats_def)

lemma setupHealthTests_simps [simp]:
  "z_Origin (setupHealthTests z) = z_Origin z" "z_LabelCount (setupHealthTests z) = z_LabelCount z"
  "z_Metrics (setupHealthTests z) = z_Metrics z"
  by (simp_all add: setupHealthTests_def)

text \<open>What the invariant needs of an operation that changes the entry of one name.\<close>

lemma mm_inv_put:
  assumes inv: "mm_inv handler mm" and n: "registered_ok st n z"
    and refs: "\<And>m y. map_of (mm_zonelist mm) m = Some y \<Longrightarrow> m \<noteq> n \<Longrightarrow> zone_refs y \<inter> zone_refs z = {} \<and> metrics_ok st y"
    and h: "handler reg = (handler (mm_reg mm))(Fqdn n \<mapsto> z)"
    and last: "n = ''pgeodns'' \<or> n \<in> set (keys (mm_lastRead mm))"
  shows "mm_inv handler (mm\<lparr>mm_store := st, mm_zonelist := map_put n z (mm_zonelist mm), mm_reg := reg\<rparr>)"
proof -
  have o: "z_Origin z = n" "name_ok n" using n by (simp_all add: registered_ok_def)
  note D = mm_invD [OF inv]
  have "registered_ok st m y" if "map_of (mm_zonelist mm) m = Some y" "m \<noteq> n" for m y
    using D(2) [OF that(1)] refs [OF that] by (simp add: registered_ok_def)
  moreover have "handler reg p = Some y \<Longrightarrow> p = Fqdn (z_Origin y) \<and> name_ok (z_Origin y)" for p y
    using D(5) [of p y] o by (auto simp: h split: if_splits)
  moreover have "handler reg (Fqdn m) = ((map_of (mm_zonelist mm))(n \<mapsto> z)) m" if "name_ok m" for m
    using D(4) [OF that] Fqdn_inj [OF that o(2)] by (simp add: h)
  ultimately show ?thesis using D(1,3,6) n refs last
    unfolding mm_inv_def by (auto simp: Int_commute)
qed

lemma mm_inv_del:
  assumes inv: "mm_inv handler mm" and n: "map_of (mm_zonelist mm) n = Some z"
    and h: "handler reg = (handler (mm_reg mm))(Fqdn n := None)"
  shows "mm_inv handler (mm\<lparr>mm_store := zone_Close z (mm_store mm), mm_lastRead := map_del n (mm_lastRead mm),
    mm_zonelist := map_del n (mm_zonelist mm), mm_reg := reg\<rparr>)"
proof -
  note D = mm_invD [OF inv]
  have no: "name_ok n" using D(2) [OF n] by (simp add: registered_ok_def)
  have "registered_ok (zone_Close z (mm_store mm)) m y" if "map_of (mm_zonelist mm) m = Some y" "m \<noteq> n" for m y
  proof -
    have "metrics_ok (zone_Close z (mm_store mm)) y"
    proof (rule metrics_ok_store [of "mm_store mm"])
      fix r assume "r \<in> zone_refs y" "ring_open (mm_store mm ! r)"
      then have "r \<notin> zone_refs z" using D(3) [OF that(1) n that(2)] by blast
      with \<open>ring_open (mm_store mm ! r)\<close> show "ring_open (zone_Close z (mm_store mm) ! r)" by (simp add: zone_Close_other)
    qed (use D(2) [OF that(1)] in \<open>simp_all add: registered_ok_def zone_Close_other\<close>)
    with D(2) [OF that(1)] show ?thesis by (simp add: registered_ok_def)
  qed
  moreover have "handler reg p = Some y \<Longrightarrow> p = Fqdn (z_Origin y) \<and> name_ok (z_Origin y)" for p y
    using D(5) [of p y] by (auto simp: h split: if_splits)
  moreover have "handler reg (Fqdn m) = ((map_of (mm_zonelist mm))(n := None)) m" if "name_ok m" for m
    using D(4) [OF that] Fqdn_inj [OF that no] by (simp add: h)
  ultimately show ?thesis using D(1,3,6)
    unfolding mm_inv_def by (auto simp: distinct_map_del split: if_splits)
qed

text \<open>The zone without its metrics: what a client sees of it.\<close>

definition unmetered :: "served_zone \<Rightarrow> served_zone" where
  "unmetered z = z\<lparr>z_Metrics := \<lparr>zm_LabelStats = None, zm_ClientStats = None\<rparr>\<rparr>"

lemma unmetered_simps:
  "unmetered (z\<lparr>z_Metrics := m\<rparr>) = unmetered z" "unmetered (setupHealthTests z) = setupHealthTests (unmetered z)"
  "fresh_zone n z \<Longrightarrow> unmetered z = z"
  by (simp_all add: unmetered_def setupHealthTests_def fresh_zone_def)

context registration
begin

lemma addHandler_ok:
  assumes inv: "mm_inv handler mm" and n: "name_ok n" and z: "fresh_zone n z"
    and last: "n = ''pgeodns'' \<or> n \<in> set (keys (mm_lastRead mm))"
  shows "\<exists>mm' z'. addHandler api n z mm = Inr mm' \<and> mm_inv handler mm' \<and> unmetered z' = setupHealthTests z \<and>
    map_of (mm_zonelist mm') = (map_of (mm_zonelist mm))(n \<mapsto> z') \<and> mm_lastRead mm' = mm_lastRead mm \<and>
    mm_path mm' = mm_path mm"
proof -
  obtain z1 st where s: "SetupMetrics z (map_of (mm_zonelist mm) n) (mm_store mm) = (z1, st)" by fastforce
  define z' where "z' = setupHealthTests z1"
  note D = mm_invD [OF inv]
  have z1: "unmetered z1 = z \<and> registered_ok st n z1 \<and>
    (\<forall>m y. map_of (mm_zonelist mm) m = Some y \<longrightarrow> m \<noteq> n \<longrightarrow> zone_refs y \<inter> zone_refs z1 = {} \<and> metrics_ok st y)"
  proof (cases "map_of (mm_zonelist mm) n")
    case None
    note new = s [unfolded None SetupMetrics_new [OF z]]
    have "zone_refs y \<inter> zone_refs z1 = {} \<and> metrics_ok st y" if "map_of (mm_zonelist mm) m = Some y" for m y
    proof -
      have y: "metrics_ok (mm_store mm) y" using D(2) [OF that] by (simp add: registered_ok_def)
      have "zone_refs z1 = {length (mm_store mm), Suc (length (mm_store mm))}" using new by (auto simp: zone_refs_def)
      moreover have "metrics_ok st y"
        by (rule metrics_ok_store [OF y]) (use new zone_refs_bound [OF y] in \<open>auto simp: nth_append\<close>)
      ultimately show ?thesis using zone_refs_bound [OF y] by fastforce
    qed
    with new z n show ?thesis
      by (auto simp: registered_ok_def metrics_ok_def ring_open_def fresh_zone_def nth_append unmetered_def)
  next
    case (Some old)
    have old: "metrics_ok (mm_store mm) old" using D(2) [OF Some] by (simp add: registered_ok_def)
    from s [unfolded Some SetupMetrics_old [OF old]] have e: "z1 = z\<lparr>z_Metrics := z_Metrics old\<rparr>" "st = mm_store mm" by simp_all
    have "zone_refs z1 = zone_refs old" "metrics_ok st z1"
      using old by (simp_all add: zone_refs_def e metrics_ok_def)
    with D(2,3) [OF _] Some z n show ?thesis
      by (auto simp: registered_ok_def e unmetered_simps fresh_zone_def)
  qed
  have z': "unmetered z' = setupHealthTests z \<and> registered_ok st n z' \<and> zone_refs z' = zone_refs z1"
    using z1 by (simp add: z'_def unmetered_simps registered_ok_def zone_refs_def metrics_ok_def)
  have "n \<noteq> []" using n by (simp add: name_ok_def)
  from add_total [OF this] obtain r where r: "api_Add api n z' (mm_reg mm) = Inr r" by blast
  have "mm_inv handler (mm\<lparr>mm_store := st, mm_zonelist := map_put n z' (mm_zonelist mm), mm_reg := r\<rparr>)"
    by (rule mm_inv_put [OF inv _ _ add_handler [OF r] last]) (use z' z1 in auto)
  with r z' show ?thesis by (auto simp: addHandler_def s Let_def z'_def)
qed

lemma removeHandler_ok:
  assumes inv: "mm_inv handler mm" and n: "map_of (mm_zonelist mm) n = Some z"
  shows "\<exists>mm'. removeHandler api n (mm\<lparr>mm_store := zone_Close z (mm_store mm)\<rparr>) = Inr mm' \<and> mm_inv handler mm' \<and>
    mm_zonelist mm' = map_del n (mm_zonelist mm) \<and> mm_lastRead mm' = map_del n (mm_lastRead mm) \<and> mm_path mm' = mm_path mm"
proof -
  have "n \<noteq> []" using mm_invD(2) [OF inv n] by (simp add: registered_ok_def name_ok_def)
  from remove_total [OF this] obtain r where r: "api_Remove api n (mm_reg mm) = Inr r" by blast
  from mm_inv_del [OF inv n remove_handler [OF r]] show ?thesis by (simp add: removeHandler_def r Let_def)
qed

end

section \<open>The specification of a reload\<close>

text \<open>The abstract state of a name: the zone served, without its metrics, and what was last read.\<close>

type_synonym name_state = "served_zone option \<times> zoneReadRecord option"

definition mm_abs :: "'r mux_manager \<Rightarrow> string \<Rightarrow> name_state" where
  "mm_abs mm n = (map_option unmetered (map_of (mm_zonelist mm) n), map_of (mm_lastRead mm) n)"

definition spec_read :: "externals \<Rightarrow> zone_fs \<Rightarrow> string \<Rightarrow> file_info \<Rightarrow> name_state \<Rightarrow> name_state" where
  "spec_read ext fs path f s =
     (let filename = path_Join path (fi_Name f);
          hash = (case snd s of None \<Rightarrow> [] | Some r \<Rightarrow> zr_hash r);
          unread = (fst s, Some \<lparr>zr_time = fi_ModTime f, zr_hash = hash\<rparr>)
      in if hash = sha256File ext fs filename then unread
         else case ReadZoneFile (ext_fmtFloat ext) (ext_sort ext) (ext_newRR ext) (ext_geo ext)
                     (fs_zone fs filename) (NewZone (base_name f)) of
                Inl err \<Rightarrow> unread
              | Inr z \<Rightarrow> (Some (setupHealthTests z), Some \<lparr>zr_time = fi_ModTime f, zr_hash = sha256File ext fs filename\<rparr>))"

definition spec_file :: "externals \<Rightarrow> zone_fs \<Rightarrow> string \<Rightarrow> file_info \<Rightarrow> name_state \<Rightarrow> name_state" where
  "spec_file ext fs path f s =
     (if (case snd s of None \<Rightarrow> True | Some r \<Rightarrow> zr_time r < fi_ModTime f) then spec_read ext fs path f s else s)"

text \<open>Every name on its own: the file of that name if there is one, else the name is dropped, but only
  if it has a zone.\<close>

definition spec_reload ::
  "externals \<Rightarrow> zone_fs \<Rightarrow> string \<Rightarrow> file_info list \<Rightarrow> (string \<Rightarrow> name_state) \<Rightarrow> string \<Rightarrow> name_state" where
  "spec_reload ext fs path dir a n =
     (case find (\<lambda>f. \<not> skip_file f \<and> base_name f = n) dir of
        Some f \<Rightarrow> spec_file ext fs path f (a n)
      | None \<Rightarrow> if n = ''pgeodns'' \<or> fst (a n) = None then a n else (None, None))"

text \<open>Listings the theorems speak of: every zone has one file, and no zone name ends with a dot.\<close>

definition listing_ok :: "file_info list \<Rightarrow> bool" where
  "listing_ok dir \<longleftrightarrow> distinct (map base_name (filter (\<lambda>f. \<not> skip_file f) dir)) \<and>
     list_all (\<lambda>f. skip_file f \<or> \<not> IsFqdn (base_name f)) dir"

lemma mm_inv_lastRead:
  "mm_inv handler mm \<Longrightarrow> set (keys (mm_lastRead mm)) \<subseteq> set (keys lr) \<Longrightarrow> mm_inv handler (mm\<lparr>mm_lastRead := lr\<rparr>)"
  unfolding mm_inv_def by auto

lemma ReadZoneFile_fresh:
  "ReadZoneFile fmtFloat srt newRR gp file (NewZone n) = Inr z \<Longrightarrow> fresh_zone n z"
  by (drule ReadZoneFile_identity) (simp add: fresh_zone_def)

context registration
begin

lemma read_new_ok:
  assumes inv: "mm_inv handler mm" and n: "name_ok (base_name f)"
  shows "\<exists>mm' err'. read_new ext api fs f err mm = Inr (mm', err') \<and> mm_inv handler mm' \<and> mm_path mm' = mm_path mm \<and>
    mm_abs mm' = (mm_abs mm)(base_name f := spec_read ext fs (mm_path mm) f (mm_abs mm (base_name f)))"
proof -
  let ?n = "base_name f" and ?fn = "path_Join (mm_path mm) (fi_Name f)"
  define known where "known = \<lparr>zr_time = fi_ModTime f, zr_hash = zr_hash (map_get (mm_lastRead mm) ?n \<lparr>zr_time = 0, zr_hash = []\<rparr>)\<rparr>"
  have k: "zr_hash known = (case map_of (mm_lastRead mm) ?n of None \<Rightarrow> [] | Some r \<Rightarrow> zr_hash r)"
    by (simp add: known_def map_get_def split: option.split)
  have kk: "(map_get (mm_lastRead mm) ?n \<lparr>zr_time = 0, zr_hash = []\<rparr>)\<lparr>zr_time := fi_ModTime f\<rparr> = known"
    by (simp add: known_def)
  define mm1 where "mm1 = mm\<lparr>mm_lastRead := map_put ?n known (mm_lastRead mm)\<rparr>"
  have inv1: "mm_inv handler mm1" unfolding mm1_def by (rule mm_inv_lastRead [OF inv]) auto
  have a1: "mm_abs mm1 = (mm_abs mm)(?n := (fst (mm_abs mm ?n), Some known))"
    by (auto simp: mm_abs_def mm1_def)
  let ?r = "ReadZoneFile (ext_fmtFloat ext) (ext_sort ext) (ext_newRR ext) (ext_geo ext) (fs_zone fs ?fn) (NewZone ?n)"
  let ?sha = "sha256File ext fs ?fn"
  let ?read = "known\<lparr>zr_hash := ?sha\<rparr>"
  have rn: "read_new ext api fs f err mm = (if zr_hash known = ?sha then Inr (mm1, err)
      else case ?r of Inl e \<Rightarrow> Inr (mm1, Some (ZoneError ?n e))
        | Inr z \<Rightarrow> go_bind (addHandler api ?n z (mm1\<lparr>mm_lastRead := map_put ?n ?read (mm_lastRead mm1)\<rparr>)) (\<lambda>mm. Inr (mm, err)))"
    unfolding read_new_def Let_def kk by (simp add: mm1_def split: sum.split)
  have sp: "spec_read ext fs (mm_path mm) f (mm_abs mm ?n) = (if zr_hash known = ?sha then (fst (mm_abs mm ?n), Some known)
      else case ?r of Inl e \<Rightarrow> (fst (mm_abs mm ?n), Some known) | Inr z \<Rightarrow> (Some (setupHealthTests z), Some ?read))"
    unfolding spec_read_def Let_def by (simp add: mm_abs_def k [symmetric] split: sum.split) (simp add: known_def)
  consider "zr_hash known = sha256File ext fs ?fn" | e where "zr_hash known \<noteq> sha256File ext fs ?fn" "?r = Inl e"
    | z where "zr_hash known \<noteq> sha256File ext fs ?fn" "?r = Inr z" by (cases ?r) auto
  then show ?thesis
  proof cases
    case 3
    define mm2 where "mm2 = mm1\<lparr>mm_lastRead := map_put ?n (known\<lparr>zr_hash := sha256File ext fs ?fn\<rparr>) (mm_lastRead mm1)\<rparr>"
    have inv2: "mm_inv handler mm2" unfolding mm2_def by (rule mm_inv_lastRead [OF inv1]) auto
    have last: "?n \<in> set (keys (mm_lastRead mm2))" by (simp add: mm2_def)
    from addHandler_ok [OF inv2 n ReadZoneFile_fresh [OF 3(2)]] last obtain mm3 z' where
      mm3: "addHandler api ?n z mm2 = Inr mm3" "mm_inv handler mm3" "unmetered z' = setupHealthTests z"
      "map_of (mm_zonelist mm3) = (map_of (mm_zonelist mm2))(?n \<mapsto> z')" "mm_lastRead mm3 = mm_lastRead mm2"
      "mm_path mm3 = mm_path mm2" by blast
    have "mm_abs mm3 = (mm_abs mm)(?n := (Some (setupHealthTests z), Some (known\<lparr>zr_hash := sha256File ext fs ?fn\<rparr>)))"
      using mm3 by (auto simp: mm_abs_def mm2_def mm1_def)
    moreover have "mm_path mm3 = mm_path mm" using mm3(6) by (simp add: mm2_def mm1_def)
    ultimately show ?thesis using 3 mm3(1,2) by (simp add: rn sp mm2_def)
  qed (simp_all add: rn sp inv1 a1, simp_all add: mm1_def)
qed

end

lemma listing_ok_Cons:
  "listing_ok (f # dir) \<longleftrightarrow> listing_ok dir \<and>
     (skip_file f \<or> \<not> IsFqdn (base_name f) \<and> find (\<lambda>g. \<not> skip_file g \<and> base_name g = base_name f) dir = None)"
  by (auto simp: listing_ok_def find_None_iff image_iff)

abbreviation file_of :: "file_info list \<Rightarrow> string \<Rightarrow> file_info option" where
  "file_of dir n \<equiv> find (\<lambda>f. \<not> skip_file f \<and> base_name f = n) dir"

lemma config_names_Cons: "config_names (f # dir) = (if skip_file f then {} else {base_name f}) \<union> config_names dir"
  by (auto simp: config_names_def)

lemma file_of_None: "file_of dir n = None \<longleftrightarrow> n \<notin> config_names dir"
  by (auto simp: find_None_iff config_names_def)

lemma listing_ok_find:
  "listing_ok dir \<Longrightarrow> f \<in> set dir \<Longrightarrow> \<not> skip_file f \<Longrightarrow> file_of dir (base_name f) = Some f"
proof (induction dir)
  case (Cons g dir)
  then show ?case by (auto simp: listing_ok_Cons find_None_iff)
qed simp

lemma listing_ok_name: "listing_ok dir \<Longrightarrow> f \<in> set dir \<Longrightarrow> \<not> skip_file f \<Longrightarrow> name_ok (base_name f)"
  by (auto simp: listing_ok_def list_all_iff name_ok_def base_name_nonempty)

context registration
begin

lemma reload_entry_ok:
  assumes inv: "mm_inv handler mm" and f: "\<not> skip_file f" "\<not> IsFqdn (base_name f)"
  shows "\<exists>mm' err'. reload_entry ext api fs f (mm, seen, err) = Inr (mm', base_name f # seen, err') \<and>
    mm_inv handler mm' \<and> mm_path mm' = mm_path mm \<and>
    mm_abs mm' = (mm_abs mm)(base_name f := spec_file ext fs (mm_path mm) f (mm_abs mm (base_name f)))"
proof -
  have n: "name_ok (base_name f)" using f base_name_nonempty by (simp add: name_ok_def)
  have s: "snd (mm_abs mm (base_name f)) = map_of (mm_lastRead mm) (base_name f)" by (simp add: mm_abs_def)
  from read_new_ok [OF inv n, of ext fs err] f(1) show ?thesis
    by (cases "map_of (mm_lastRead mm) (base_name f)") (auto simp: reload_entry_def spec_file_def s inv)
qed

lemma reload_entries_ok:
  assumes "mm_inv handler mm" and "listing_ok dir"
  shows "\<exists>mm' seen' err'. go_fold (reload_entry ext api fs) dir (mm, seen, err) = Inr (mm', seen', err') \<and>
    mm_inv handler mm' \<and> mm_path mm' = mm_path mm \<and> set seen' = set seen \<union> config_names dir \<and>
    mm_abs mm' = (\<lambda>n. case file_of dir n of Some f \<Rightarrow> spec_file ext fs (mm_path mm) f (mm_abs mm n) | None \<Rightarrow> mm_abs mm n)"
  using assms
proof (induction dir arbitrary: mm seen err)
  case (Cons f dir)
  show ?case
  proof (cases "skip_file f")
    case True
    with Cons show ?thesis by (simp add: reload_entry_def listing_ok_Cons config_names_Cons)
  next
    case False
    with Cons.prems have f: "\<not> IsFqdn (base_name f)" "listing_ok dir" "file_of dir (base_name f) = None"
      by (simp_all add: listing_ok_Cons)
    from reload_entry_ok [OF Cons.prems(1) False f(1), of ext fs seen err] obtain mm1 err1 where
      mm1: "reload_entry ext api fs f (mm, seen, err) = Inr (mm1, base_name f # seen, err1)" "mm_inv handler mm1"
      "mm_path mm1 = mm_path mm"
      "mm_abs mm1 = (mm_abs mm)(base_name f := spec_file ext fs (mm_path mm) f (mm_abs mm (base_name f)))" by blast
    from Cons.IH [OF mm1(2) f(2), of "base_name f # seen" err1] obtain mm2 seen2 err2 where
      mm2: "go_fold (reload_entry ext api fs) dir (mm1, base_name f # seen, err1) = Inr (mm2, seen2, err2)"
      "mm_inv handler mm2" "mm_path mm2 = mm_path mm1" "set seen2 = insert (base_name f) (set seen) \<union> config_names dir"
      "mm_abs mm2 = (\<lambda>n. case file_of dir n of Some f \<Rightarrow> spec_file ext fs (mm_path mm1) f (mm_abs mm1 n) | None \<Rightarrow> mm_abs mm1 n)"
      by auto
    have "mm_abs mm2 n = (case file_of (f # dir) n of Some f \<Rightarrow> spec_file ext fs (mm_path mm) f (mm_abs mm n) | None \<Rightarrow> mm_abs mm n)" for n
      using mm2(5) mm1(3,4) f(3) False by (cases "n = base_name f") (simp_all split: option.split)
    with mm1 mm2 False show ?thesis by (simp add: config_names_Cons fun_eq_iff)
  qed
qed (simp add: config_names_def)

lemma drop_zones_ok:
  assumes "mm_inv handler mm" and "distinct (keys es)" and "\<forall>(n, z) \<in> set es. map_of (mm_zonelist mm) n = Some z"
  shows "\<exists>mm'. go_fold (drop_zone api seen) es mm = Inr mm' \<and> mm_inv handler mm' \<and> mm_path mm' = mm_path mm \<and>
    mm_abs mm' = (\<lambda>n. if n \<in> set (keys es) \<and> n \<noteq> ''pgeodns'' \<and> n \<notin> set seen then (None, None) else mm_abs mm n)"
  using assms
proof (induction es arbitrary: mm)
  case (Cons e es)
  obtain n z where e: "e = (n, z)" by (cases e)
  with Cons.prems have n: "map_of (mm_zonelist mm) n = Some z" "n \<notin> set (keys es)" "distinct (keys es)" by auto
  show ?case
  proof (cases "n = ''pgeodns'' \<or> n \<in> set seen")
    case True
    with Cons.IH [OF Cons.prems(1) n(3)] Cons.prems(3) show ?thesis by (auto simp: e drop_zone_def fun_eq_iff)
  next
    case False
    from removeHandler_ok [OF Cons.prems(1) n(1)] obtain mm1 where
      mm1: "removeHandler api n (mm\<lparr>mm_store := zone_Close z (mm_store mm)\<rparr>) = Inr mm1" "mm_inv handler mm1"
      "mm_zonelist mm1 = map_del n (mm_zonelist mm)" "mm_lastRead mm1 = map_del n (mm_lastRead mm)"
      "mm_path mm1 = mm_path mm" by blast
    have "\<forall>(m, y) \<in> set es. map_of (mm_zonelist mm1) m = Some y"
    proof (clarify)
      fix m y assume "(m, y) \<in> set es"
      with Cons.prems(3) n(2) have "map_of (mm_zonelist mm) m = Some y" "m \<noteq> n" by (auto simp: keys_def intro: rev_image_eqI)
      then show "map_of (mm_zonelist mm1) m = Some y" by (simp add: mm1(3))
    qed
    from Cons.IH [OF mm1(2) n(3) this] obtain mm2 where
      mm2: "go_fold (drop_zone api seen) es mm1 = Inr mm2" "mm_inv handler mm2" "mm_path mm2 = mm_path mm1"
      "mm_abs mm2 = (\<lambda>n. if n \<in> set (keys es) \<and> n \<noteq> ''pgeodns'' \<and> n \<notin> set seen then (None, None) else mm_abs mm1 n)" by blast
    have a1: "mm_abs mm1 = (mm_abs mm)(n := (None, None))" by (simp add: mm_abs_def mm1(3,4) fun_eq_iff)
    have "go_fold (drop_zone api seen) (e # es) mm = Inr mm2" using mm1(1) mm2(1) False by (simp add: e drop_zone_def)
    moreover have "mm_abs mm2 = (\<lambda>m. if m \<in> set (keys (e # es)) \<and> m \<noteq> ''pgeodns'' \<and> m \<notin> set seen then (None, None) else mm_abs mm m)"
      using False by (auto simp: e mm2(4) a1 fun_eq_iff)
    ultimately show ?thesis using mm2(2,3) mm1(5) by auto
  qed
qed simp

lemma reload_ok:
  assumes "mm_inv handler mm" and "listing_ok dir"
  shows "\<exists>mm' err. reload ext api fs (Inr dir) mm = Inr (mm', err) \<and> mm_inv handler mm' \<and> mm_path mm' = mm_path mm \<and>
    mm_abs mm' = spec_reload ext fs (mm_path mm) dir (mm_abs mm)"
proof -
  from reload_entries_ok [OF assms, of ext fs "[]" None] obtain mm1 seen err where
    mm1: "go_fold (reload_entry ext api fs) dir (mm, [], None) = Inr (mm1, seen, err)" "mm_inv handler mm1"
    "mm_path mm1 = mm_path mm" "set seen = config_names dir"
    "mm_abs mm1 = (\<lambda>n. case file_of dir n of Some f \<Rightarrow> spec_file ext fs (mm_path mm) f (mm_abs mm n) | None \<Rightarrow> mm_abs mm n)" by auto
  have d: "distinct (keys (mm_zonelist mm1))" using mm_invD(1) [OF mm1(2)] .
  then have "\<forall>(n, z) \<in> set (mm_zonelist mm1). map_of (mm_zonelist mm1) n = Some z" by (auto simp: keys_def)
  from drop_zones_ok [OF mm1(2) d this, of seen] obtain mm2 where
    mm2: "go_fold (drop_zone api seen) (mm_zonelist mm1) mm1 = Inr mm2" "mm_inv handler mm2" "mm_path mm2 = mm_path mm1"
    "mm_abs mm2 = (\<lambda>n. if n \<in> set (keys (mm_zonelist mm1)) \<and> n \<noteq> ''pgeodns'' \<and> n \<notin> set seen then (None, None) else mm_abs mm1 n)" by blast
  have k: "n \<in> set (keys (mm_zonelist mm1)) \<longleftrightarrow> fst (mm_abs mm1 n) \<noteq> None" for n
    using map_of_eq_None_keys [of "mm_zonelist mm1" n] by (auto simp: mm_abs_def)
  have "mm_abs mm2 n = spec_reload ext fs (mm_path mm) dir (mm_abs mm) n" for n
    using file_of_None [where dir = dir and n = n] by (cases "file_of dir n") (auto simp: spec_reload_def mm2(4) k mm1(4,5))
  with mm1(1,3) mm2(1-3) show ?thesis by (auto simp: reload_def fun_eq_iff)
qed

end

section \<open>The life of a manager\<close>

fun listing_good :: "string + file_info list \<Rightarrow> bool" where
  "listing_good (Inl _) = True"
| "listing_good (Inr dir) = listing_ok dir"

text \<open>The states of a manager started on the registration \<open>reg\<close>: after \<open>NewMuxManager\<close>, after every round of
  \<open>Run\<close>, each with a listing and a state of the files of its own, and after queries that were counted
  in a statistics ring in between.\<close>

inductive managed :: "externals \<Rightarrow> 'r registration_api \<Rightarrow> 'r \<Rightarrow> 'r mux_manager \<Rightarrow> bool"
  for ext api reg where
  started: "NewMuxManager ext api fs listing path reg [] defaultMux = Inr (mm, defaultMux', err) \<Longrightarrow>
    listing_good listing \<Longrightarrow> managed ext api reg mm"
| reloaded: "managed ext api reg mm \<Longrightarrow> reload ext api fs listing mm = Inr (mm', err) \<Longrightarrow>
    listing_good listing \<Longrightarrow> managed ext api reg mm'"
| counted: "managed ext api reg mm \<Longrightarrow> r < length (mm_store mm) \<Longrightarrow> zs_Add l (mm_store mm ! r) = Inr zs \<Longrightarrow>
    managed ext api reg (mm\<lparr>mm_store := (mm_store mm)[r := zs]\<rparr>)"

lemma mm_inv_count:
  assumes "mm_inv handler mm" and "zs_Add l (mm_store mm ! r) = Inr zs" and "r < length (mm_store mm)"
  shows "mm_inv handler (mm\<lparr>mm_store := (mm_store mm)[r := zs]\<rparr>)"
proof -
  have "metrics_ok ((mm_store mm)[r := zs]) z" if "metrics_ok (mm_store mm) z" for z
    by (rule metrics_ok_store [OF that])
      (simp_all add: nth_list_update assms(3) zs_Add_keeps_open [OF assms(2)])
  with assms(1) show ?thesis by (simp add: mm_inv_def registered_ok_def)
qed

lemma name_ok_pgeodns: "name_ok ''pgeodns''"
  by (simp add: name_ok_def IsFqdn_def trimSuffix_def hasSuffix_def Let_def)

context registration
begin

lemma reload_inv:
  assumes "mm_inv handler mm" and "listing_good listing"
  shows "\<exists>mm' err. reload ext api fs listing mm = Inr (mm', err) \<and> mm_inv handler mm'"
proof (cases listing)
  case (Inr dir)
  with reload_ok [OF assms(1), of dir ext fs] assms(2) show ?thesis by auto
qed (simp add: reload_def assms(1))

lemma setupPgeodnsZone_inv:
  assumes "setupPgeodnsZone ext api mm = Inr mm'" and "mm_inv handler mm"
  shows "mm_inv handler mm'"
proof -
  from assms(1) obtain ls z where z: "addSOA (ext_newRR ext) ((NewZone ''pgeodns'')\<lparr>z_Labels := ls\<rparr>) = Inr z"
      "addHandler api ''pgeodns'' z mm = Inr mm'"
    by (auto simp: setupPgeodnsZone_def go_bind_Inr AddSOA_def Let_def)
  from addSOA_head [OF z(1)] have "fresh_zone ''pgeodns'' z" by (simp add: zone_head_def fresh_zone_def NewZone_def)
  from addHandler_ok [OF assms(2) name_ok_pgeodns this] z(2) show ?thesis by auto
qed

lemma start_inv: "handler reg = Map.empty \<Longrightarrow>
    mm_inv handler \<lparr>mm_reg = reg, mm_zonelist = [], mm_path = path, mm_lastRead = [], mm_store = []\<rparr>"
  by (simp add: mm_inv_def)

lemma managed_inv:
  assumes "managed ext api reg mm" and "handler reg = Map.empty"
  shows "mm_inv handler mm"
  using assms(1)
proof (induction rule: managed.induct)
  case (started fs listing path defaultMux mm defaultMux' err)
  then obtain mm1 where mm1: "setupPgeodnsZone ext api
      \<lparr>mm_reg = reg, mm_zonelist = [], mm_path = path, mm_lastRead = [], mm_store = []\<rparr> = Inr mm1"
    and r: "reload ext api fs listing mm1 = Inr (mm, err)"
    by (auto simp: NewMuxManager_def go_bind_Inr Let_def)
  from reload_inv [OF setupPgeodnsZone_inv [OF mm1 start_inv [OF assms(2)]] started(2), of ext fs] r show ?case by auto
next
  case (reloaded mm fs listing mm' err)
  with reload_inv [OF reloaded.IH reloaded.hyps(3), of ext fs] show ?case by auto
next
  case (counted mm r l zs)
  then show ?case by (intro mm_inv_count)
qed

lemma managed_reload:
  assumes "managed ext api reg mm" and "handler reg = Map.empty" and "listing_ok dir"
  obtains mm' err where "reload ext api fs (Inr dir) mm = Inr (mm', err)" "managed ext api reg mm'"
    "mm_inv handler mm'" "mm_path mm' = mm_path mm" "mm_abs mm' = spec_reload ext fs (mm_path mm) dir (mm_abs mm)"
proof -
  from reload_ok [OF managed_inv [OF assms(1,2)] assms(3), of ext fs] obtain mm' err where
    r: "reload ext api fs (Inr dir) mm = Inr (mm', err)" "mm_inv handler mm'" "mm_path mm' = mm_path mm"
      "mm_abs mm' = spec_reload ext fs (mm_path mm) dir (mm_abs mm)" by blast
  from managed.reloaded [OF assms(1) r(1)] assms(3) have "managed ext api reg mm'" by simp
  with r that show thesis by blast
qed

lemma managed_start:
  assumes "\<And>s. ext_newRR ext s = Some rr" and "handler reg = Map.empty" and "listing_ok dir"
  obtains mm where "managed ext api reg mm" "mm_path mm = path"
    "\<And>n. n \<noteq> ''pgeodns'' \<Longrightarrow> mm_abs mm n = spec_reload ext fs path dir (\<lambda>_. (None, None)) n"
proof -
  let ?m0 = "\<lparr>mm_reg = reg, mm_zonelist = [], mm_path = path, mm_lastRead = [], mm_store = []\<rparr>"
  have "\<exists>z. setupPgeodnsZone ext api ?m0 = addHandler api ''pgeodns'' z ?m0 \<and> fresh_zone ''pgeodns'' z"
    by (simp add: setupPgeodnsZone_def AddSOA_def addSOA_def assms(1) Let_def NewZone_def)
      (intro exI conjI, rule refl, simp add: fresh_zone_def)
  then obtain z where z: "setupPgeodnsZone ext api ?m0 = addHandler api ''pgeodns'' z ?m0" "fresh_zone ''pgeodns'' z" by blast
  from addHandler_ok [OF start_inv [OF assms(2)] name_ok_pgeodns z(2), of path] obtain m1 z' where
    m1: "addHandler api ''pgeodns'' z ?m0 = Inr m1" "mm_inv handler m1" "mm_path m1 = path"
      "map_of (mm_zonelist m1) = [''pgeodns'' \<mapsto> z']" "mm_lastRead m1 = []" by auto
  from reload_ok [OF m1(2) assms(3), of ext fs] obtain mm err where
    mm: "reload ext api fs (Inr dir) m1 = Inr (mm, err)" "mm_path mm = path"
      "mm_abs mm = spec_reload ext fs path dir (mm_abs m1)" using m1(3) by auto
  have "NewMuxManager ext api fs (Inr dir) path reg [] [] = Inr (mm, [(''.'', refuse)], err)"
    using z(1) m1(1) mm(1) by (simp add: NewMuxManager_def setupRootZone_def mux_Handle_def Let_def Fqdn_def IsFqdn_dot)
  then have "managed ext api reg mm" by (rule managed.started) (simp add: assms(3))
  moreover have "mm_abs mm n = spec_reload ext fs path dir (\<lambda>_. (None, None)) n" if "n \<noteq> ''pgeodns''" for n
  proof -
    have "mm_abs m1 n = (None, None)" using that by (simp add: mm_abs_def m1(4,5))
    then show ?thesis by (simp add: mm(3) spec_reload_def split: option.split)
  qed
  ultimately show thesis using that mm(2) by blast
qed

end

section \<open>The steps of a reload\<close>

text \<open>Queries run while a reload does. Its phases: the files of the listing still to be read, the zones still to be looked at
  for removal, and a zone whose rings \<open>zone.Close\<close> has closed and whose handler \<open>removeHandler\<close> has not removed yet. The
  steps are one file of the listing, the closing of the rings of a zone, the removal of its handler; \<open>moment\<close> are the
  states between them.\<close>

datatype reload_phase =
    Idle
  | Reading "file_info list" "string list" "manager_error option"
  | Dropping "(string \<times> served_zone) list" "string list"
  | Closed string "(string \<times> served_zone) list" "string list"

inductive moment :: "externals \<Rightarrow> 'r registration_api \<Rightarrow> 'r \<Rightarrow> reload_phase \<Rightarrow> 'r mux_manager \<Rightarrow> bool"
  for ext api reg where
  m_started: "NewMuxManager ext api fs listing path reg [] defaultMux = Inr (mm, defaultMux', err) \<Longrightarrow>
    listing_good listing \<Longrightarrow> moment ext api reg Idle mm"
| m_listed: "moment ext api reg Idle mm \<Longrightarrow> listing_ok dir \<Longrightarrow> moment ext api reg (Reading dir [] None) mm"
| m_file: "moment ext api reg (Reading (f # dir) seen err) mm \<Longrightarrow>
    reload_entry ext api fs f (mm, seen, err) = Inr (mm', seen', err') \<Longrightarrow> moment ext api reg (Reading dir seen' err') mm'"
| m_files: "moment ext api reg (Reading [] seen err) mm \<Longrightarrow> moment ext api reg (Dropping (mm_zonelist mm) seen) mm"
| m_keep: "moment ext api reg (Dropping ((n, z) # es) seen) mm \<Longrightarrow> n = ''pgeodns'' \<or> n \<in> set seen \<Longrightarrow>
    moment ext api reg (Dropping es seen) mm"
| m_close: "moment ext api reg (Dropping ((n, z) # es) seen) mm \<Longrightarrow> n \<noteq> ''pgeodns'' \<Longrightarrow> n \<notin> set seen \<Longrightarrow>
    moment ext api reg (Closed n es seen) (mm\<lparr>mm_store := zone_Close z (mm_store mm)\<rparr>)"
| m_remove: "moment ext api reg (Closed n es seen) mm \<Longrightarrow> removeHandler api n mm = Inr mm' \<Longrightarrow>
    moment ext api reg (Dropping es seen) mm'"
| m_done: "moment ext api reg (Dropping [] seen) mm \<Longrightarrow> moment ext api reg Idle mm"
| m_counted: "moment ext api reg ph mm \<Longrightarrow> r < length (mm_store mm) \<Longrightarrow> zs_Add l (mm_store mm ! r) = Inr zs \<Longrightarrow>
    moment ext api reg ph (mm\<lparr>mm_store := (mm_store mm)[r := zs]\<rparr>)"

text \<open>The steps make up a reload.\<close>

lemma moment_files:
  assumes "go_fold (reload_entry ext api fs) dir (mm, seen, err) = Inr (mm', seen', err')"
    and "moment ext api reg (Reading dir seen err) mm"
  shows "moment ext api reg (Reading [] seen' err') mm'"
  using assms
proof (induction dir arbitrary: mm seen err)
  case (Cons f dir)
  then obtain mm1 seen1 err1 where s: "reload_entry ext api fs f (mm, seen, err) = Inr (mm1, seen1, err1)"
    "go_fold (reload_entry ext api fs) dir (mm1, seen1, err1) = Inr (mm', seen', err')" by (auto simp: go_bind_Inr)
  from Cons.IH [OF s(2) moment.m_file [OF Cons.prems(2) s(1)]] show ?case .
qed simp

lemma moment_drops:
  assumes "go_fold (drop_zone api seen) es mm = Inr mm'" and "moment ext api reg (Dropping es seen) mm"
  shows "moment ext api reg (Dropping [] seen) mm'"
  using assms
proof (induction es arbitrary: mm)
  case (Cons e es)
  obtain n z where e: "e = (n, z)" by (cases e)
  from Cons.prems(1) obtain mm1 where s: "drop_zone api seen (n, z) mm = Inr mm1"
    "go_fold (drop_zone api seen) es mm1 = Inr mm'" by (auto simp: e go_bind_Inr)
  show ?case
  proof (cases "n = ''pgeodns'' \<or> n \<in> set seen")
    case True
    with s(1) have "mm1 = mm" by (auto simp: drop_zone_def split: if_splits)
    with Cons.IH [OF s(2)] moment.m_keep [OF Cons.prems(2) [unfolded e] True] show ?thesis by simp
  next
    case False
    with s(1) have r: "removeHandler api n (mm\<lparr>mm_store := zone_Close z (mm_store mm)\<rparr>) = Inr mm1" by (simp add: drop_zone_def)
    from moment.m_remove [OF moment.m_close [OF Cons.prems(2) [unfolded e]] r] False Cons.IH [OF s(2)] show ?thesis by simp
  qed
qed simp

lemma moment_reload:
  assumes "moment ext api reg Idle mm" and "reload ext api fs listing mm = Inr (mm', err)" and "listing_good listing"
  shows "moment ext api reg Idle mm'"
proof (cases listing)
  case (Inr dir)
  with assms(2) obtain mm1 seen where s: "go_fold (reload_entry ext api fs) dir (mm, [], None) = Inr (mm1, seen, err)"
    "go_fold (drop_zone api seen) (mm_zonelist mm1) mm1 = Inr mm'" by (auto simp: reload_def go_bind_Inr)
  have "moment ext api reg (Reading dir [] None) mm" using moment.m_listed [OF assms(1)] assms(3) Inr by simp
  from moment_drops [OF s(2) moment.m_files [OF moment_files [OF s(1) this]]] show ?thesis by (rule moment.m_done)
qed (use assms in \<open>simp add: reload_def\<close>)

lemma managed_moment: "managed ext api reg mm \<Longrightarrow> moment ext api reg Idle mm"
  by (induction rule: managed.induct) (auto intro: moment.m_started moment_reload moment.m_counted)

text \<open>The invariant between the steps. While a zone is being removed, the state is one with the invariant but for its rings.\<close>

definition closing :: "reload_phase \<Rightarrow> string option" where
  "closing ph = (case ph of Closed n _ _ \<Rightarrow> Some n | _ \<Rightarrow> None)"

definition listed :: "(string \<times> served_zone) list \<Rightarrow> 'r mux_manager \<Rightarrow> bool" where
  "listed es mm \<longleftrightarrow> distinct (keys es) \<and> (\<forall>(n, z) \<in> set es. map_of (mm_zonelist mm) n = Some z)"

fun phase_inv :: "('r \<Rightarrow> string \<Rightarrow> served_zone option) \<Rightarrow> reload_phase \<Rightarrow> 'r mux_manager \<Rightarrow> bool" where
  "phase_inv handler Idle mm = mm_inv handler mm"
| "phase_inv handler (Reading dir seen err) mm = (mm_inv handler mm \<and> listing_ok dir)"
| "phase_inv handler (Dropping es seen) mm = (mm_inv handler mm \<and> listed es mm)"
| "phase_inv handler (Closed n es seen) mm =
     (\<exists>mm0 z. mm_inv handler mm0 \<and> listed ((n, z) # es) mm0 \<and> mm = mm0\<lparr>mm_store := zone_Close z (mm_store mm0)\<rparr>)"

lemma listed_Cons: "listed ((n, z) # es) mm \<longleftrightarrow> map_of (mm_zonelist mm) n = Some z \<and> n \<notin> set (keys es) \<and> listed es mm"
  by (auto simp: listed_def)

lemma listed_store [simp]: "listed es (mm\<lparr>mm_store := st\<rparr>) = listed es mm"
  by (simp add: listed_def)

lemma listed_del: "listed es mm \<Longrightarrow> n \<notin> set (keys es) \<Longrightarrow> mm_zonelist mm' = map_del n (mm_zonelist mm) \<Longrightarrow> listed es mm'"
proof -
  assume l: "listed es mm" "n \<notin> set (keys es)" "mm_zonelist mm' = map_del n (mm_zonelist mm)"
  have "map_of (mm_zonelist mm') m = Some y" if "(m, y) \<in> set es" for m y
  proof -
    from that l(2) have "m \<noteq> n" by (auto simp: keys_def rev_image_eqI)
    with that l(1,3) show ?thesis by (auto simp: listed_def)
  qed
  with l(1) show ?thesis by (auto simp: listed_def)
qed

lemma zone_Close_closed:
  assumes "metrics_ok st z" "r \<in> zone_refs z"
  shows "\<not> ring_open (zone_Close z st ! r)" "zs_Add l (zone_Close z st ! r) = Inl IndexOutOfRange"
proof -
  from assms(1) obtain i j where "z_Metrics z = \<lparr>zm_LabelStats = Some i, zm_ClientStats = Some j\<rparr>" "i < length st" "j < length st"
    "zone_refs z = {i, j}" by (rule metrics_okE)
  with assms(2) have "\<exists>zs. zone_Close z st ! r = zs_Close zs"
    by (auto simp: zone_Close_def close_stats_def nth_list_update)
  then obtain zs where "zone_Close z st ! r = zs_Close zs" ..
  then show "\<not> ring_open (zone_Close z st ! r)" "zs_Add l (zone_Close z st ! r) = Inl IndexOutOfRange"
    by (simp_all add: ring_open_def zs_Add_def zs_add_def zs_Close_def)
qed

lemma close_stats_update: "p \<noteq> Some r \<Longrightarrow> (close_stats p st)[r := zs] = close_stats p (st[r := zs])"
proof (cases p)
  case (Some i)
  assume "p \<noteq> Some r"
  with Some have "i \<noteq> r" by simp
  then show ?thesis using list_update_swap [of i r st "zs_Close (st ! i)" zs] by (simp add: close_stats_def Some)
qed (simp add: close_stats_def)

lemma zone_Close_update: "r \<notin> zone_refs z \<Longrightarrow> (zone_Close z st)[r := zs] = zone_Close z (st[r := zs])"
  by (simp add: zone_Close_def zone_refs_def close_stats_update)

lemma phase_inv_count:
  assumes "phase_inv handler ph mm" and "r < length (mm_store mm)" and "zs_Add l (mm_store mm ! r) = Inr zs"
  shows "phase_inv handler ph (mm\<lparr>mm_store := (mm_store mm)[r := zs]\<rparr>)"
proof (cases ph)
  case (Closed n es seen)
  with assms(1) obtain mm0 z where mm0: "mm_inv handler mm0" "listed ((n, z) # es) mm0"
    "mm = mm0\<lparr>mm_store := zone_Close z (mm_store mm0)\<rparr>" by auto
  have "metrics_ok (mm_store mm0) z" using mm_invD(2) [OF mm0(1)] mm0(2) by (auto simp: listed_Cons registered_ok_def)
  with zone_Close_closed(2) assms(3) mm0(3) have r: "r \<notin> zone_refs z" by fastforce
  then have "zs_Add l (mm_store mm0 ! r) = Inr zs" "r < length (mm_store mm0)"
    using assms(2,3) mm0(3) by (simp_all add: zone_Close_other)
  from mm_inv_count [OF mm0(1) this] mm0(2,3) zone_Close_update [OF r] show ?thesis
    by (auto simp: Closed intro!: exI [of _ "mm0\<lparr>mm_store := (mm_store mm0)[r := zs]\<rparr>"])
qed (use assms mm_inv_count in auto)

text \<open>In every phase the manager has the registration and the zones of a state with the invariant; only the rings of the zone
  being removed are closed.\<close>

lemma phase_inv_base:
  assumes "phase_inv handler ph mm"
  obtains mm0 where "mm_inv handler mm0" "mm_reg mm = mm_reg mm0" "mm_zonelist mm = mm_zonelist mm0"
    "\<And>n z. map_of (mm_zonelist mm) n = Some z \<Longrightarrow> closing ph \<noteq> Some n \<Longrightarrow> metrics_ok (mm_store mm) z"
    "\<And>n z r. map_of (mm_zonelist mm) n = Some z \<Longrightarrow> closing ph = Some n \<Longrightarrow> r \<in> zone_refs z \<Longrightarrow> \<not> ring_open (mm_store mm ! r)"
proof (cases "closing ph")
  case None
  with assms have inv: "mm_inv handler mm" by (cases ph) (simp_all add: closing_def)
  show thesis by (rule that [OF inv]) (use mm_invD(2) [OF inv] None in \<open>simp_all add: registered_ok_def\<close>)
next
  case (Some n)
  with assms obtain mm0 z where mm0: "mm_inv handler mm0" "map_of (mm_zonelist mm0) n = Some z"
    and mm: "mm = mm0\<lparr>mm_store := zone_Close z (mm_store mm0)\<rparr>" by (cases ph) (auto simp: closing_def listed_Cons)
  note D = mm_invD [OF mm0(1)]
  have "metrics_ok (mm_store mm) y" if "map_of (mm_zonelist mm0) m = Some y" "m \<noteq> n" for m y
  proof (rule metrics_ok_store [of "mm_store mm0"])
    fix r assume r: "r \<in> zone_refs y" "ring_open (mm_store mm0 ! r)"
    then have "r \<notin> zone_refs z" using D(3) [OF that(1) mm0(2) that(2)] by blast
    with r(2) show "ring_open (mm_store mm ! r)" by (simp add: mm zone_Close_other)
  qed (use D(2) [OF that(1)] in \<open>simp_all add: mm registered_ok_def zone_Close_other\<close>)
  moreover have "\<not> ring_open (mm_store mm ! r)" if "r \<in> zone_refs z" for r
    using zone_Close_closed(1) [OF _ that] D(2) [OF mm0(2)] by (simp add: mm registered_ok_def)
  ultimately show thesis using Some mm0(2) by (intro that [OF mm0(1)]) (simp_all add: mm)
qed

context registration
begin

lemma moment_inv:
  assumes "moment ext api reg ph mm" and "handler reg = Map.empty"
  shows "phase_inv handler ph mm"
  using assms(1)
proof (induction rule: moment.induct)
  case (m_started fs listing path defaultMux mm defaultMux' err)
  from managed_inv [OF managed.started [OF m_started] assms(2)] show ?case by simp
next
  case (m_file f dir seen err mm fs mm' seen' err')
  then have d: "mm_inv handler mm" "listing_ok (f # dir)" by simp_all
  show ?case
  proof (cases "skip_file f")
    case True
    with m_file.hyps(2) d show ?thesis by (auto simp: reload_entry_def listing_ok_Cons)
  next
    case False
    with d reload_entry_ok [OF d(1) False, of ext fs seen err] m_file.hyps(2) show ?thesis by (auto simp: listing_ok_Cons)
  qed
next
  case (m_files seen err mm)
  then have "distinct (keys (mm_zonelist mm))" using mm_invD(1) by auto
  with m_files.IH show ?case by (auto simp: listed_def keys_def)
next
  case (m_remove n es seen mm mm')
  then obtain mm0 z where mm0: "mm_inv handler mm0" "listed ((n, z) # es) mm0"
    "mm = mm0\<lparr>mm_store := zone_Close z (mm_store mm0)\<rparr>" by auto
  then have n: "map_of (mm_zonelist mm0) n = Some z" "n \<notin> set (keys es)" "listed es mm0" by (simp_all add: listed_Cons)
  from removeHandler_ok [OF mm0(1) n(1)] m_remove.hyps(2) mm0(3) have "mm_inv handler mm'" "mm_zonelist mm' = map_del n (mm_zonelist mm0)" by auto
  with listed_del [OF n(3,2)] show ?case by simp
next
  case (m_counted ph mm r l zs)
  then show ?case using phase_inv_count by blast
qed (auto simp: listed_Cons)

text \<open>A zone whose file has gone does go through the phase with its rings closed and its handler still there.\<close>

lemma moment_closes:
  assumes "moment ext api reg (Dropping es seen) mm" and "handler reg = Map.empty" and "n \<in> set (keys es)"
    and "n \<noteq> ''pgeodns''" and "n \<notin> set seen"
  shows "\<exists>es' mm'. moment ext api reg (Closed n es' seen) mm'"
  using assms(1,3)
proof (induction es arbitrary: mm)
  case (Cons e es)
  obtain m z where e: "e = (m, z)" by (cases e)
  note here = Cons.prems(1) [unfolded e]
  show ?case
  proof (cases "m = n")
    case True
    with moment.m_close [OF here] assms(4,5) show ?thesis by blast
  next
    case False
    with Cons.prems(2) have n: "n \<in> set (keys es)" by (simp add: e)
    show ?thesis
    proof (cases "m = ''pgeodns'' \<or> m \<in> set seen")
      case True
      from Cons.IH [OF moment.m_keep [OF here True] n] show ?thesis .
    next
      case False
      then have c: "moment ext api reg (Closed m es seen) (mm\<lparr>mm_store := zone_Close z (mm_store mm)\<rparr>)"
        using moment.m_close [OF here] by blast
      from moment_inv [OF here assms(2)] have "mm_inv handler mm" "map_of (mm_zonelist mm) m = Some z" by (simp_all add: listed_Cons)
      from removeHandler_ok [OF this] obtain mm1 where "removeHandler api m (mm\<lparr>mm_store := zone_Close z (mm_store mm)\<rparr>) = Inr mm1" by blast
      from Cons.IH [OF moment.m_remove [OF c this] n] show ?thesis .
    qed
  qed
qed simp

end

end
