(* ===== verification/Server.thy ===== *)
theory Server
  imports MuxManager
begin

text \<open>
  \<open>server/server.go\<close> as the manager uses it: the state of a server, its construction, and the registration
  of zones with its multiplexer. The handler registered for a zone is \<open>serve\<close> on that zone
  (\<open>setupServerFunc\<close>), so the multiplexer of the model stores the zone. The Prometheus collectors are
  kept as the values they were set to. The properties of the zone manager are stated here, on the
  registration interface the server provides.
\<close>

section \<open>Data\<close>

record server_info =
  si_Version :: string
  si_ID :: string
  si_IP :: string
  si_UUID :: string
  si_Groups :: "string list"
  si_Started :: int

text \<open>\<open>querylog.Entry\<close>\<close>

record query_entry =
  qe_Time :: int
  qe_Origin :: string
  qe_Name :: string
  qe_Qtype :: uint16
  qe_Rcode :: int
  qe_Answers :: int
  qe_Targets :: "string list"
  qe_LabelName :: string
  qe_RemoteAddr :: string
  qe_ClientAddr :: string
  qe_HasECS :: bool

text \<open>The query logger is the list of the entries written to it; the counter \<open>dns_queries_total\<close> is kept
  per value of its labels zone, qtype, qname and rcode.\<close>

type_synonym query_labels = "string \<times> string \<times> string \<times> string"

record server =
  sv_queryLogger :: "query_entry list option"
  sv_mux :: "served_zone mux"
  sv_PublicDebugQueries :: bool
  sv_info :: server_info
  sv_queries :: "(query_labels \<times> nat) list"
  sv_buildInfo :: "(string list \<times> int) list"
  sv_startNano :: int

section \<open>Operations\<close>

definition NewServer :: "server_info \<Rightarrow> server" where
  "NewServer si =
     (let group = (if 0 < length (si_Groups si) then si_Groups si ! 0 else [])
      in \<lparr>sv_queryLogger = None, sv_mux = [], sv_PublicDebugQueries = False, sv_info = si, sv_queries = [],
          sv_buildInfo = [([si_Version si, si_ID si, si_IP si, group], 1)], sv_startNano = si_Started si\<rparr>)"

definition SetQueryLogger :: "query_entry list \<Rightarrow> server \<Rightarrow> server" where
  "SetQueryLogger logger srv = srv\<lparr>sv_queryLogger := Some logger\<rparr>"

definition server_Add :: "string \<Rightarrow> served_zone \<Rightarrow> server \<Rightarrow> server go" where
  "server_Add name zone srv = go_bind (mux_Handle name zone (sv_mux srv)) (\<lambda>m. Inr (srv\<lparr>sv_mux := m\<rparr>))"

definition server_Remove :: "string \<Rightarrow> server \<Rightarrow> server go" where
  "server_Remove name srv = go_bind (mux_HandleRemove name (sv_mux srv)) (\<lambda>m. Inr (srv\<lparr>sv_mux := m\<rparr>))"

definition server_api :: "server registration_api" where
  "server_api = \<lparr>api_Add = server_Add, api_Remove = server_Remove\<rparr>"

definition server_handler :: "server \<Rightarrow> string \<Rightarrow> served_zone option" where
  "server_handler srv = map_of (sv_mux srv)"

interpretation srv: registration server_api server_handler
  by unfold_locales
    (auto simp: server_api_def server_handler_def server_Add_def server_Remove_def mux_Handle_def mux_HandleRemove_def
      go_bind_Inr split: if_splits)

lemma NewServer_handler: "server_handler (NewServer si) = Map.empty"
  by (simp add: server_handler_def NewServer_def Let_def)

section \<open>Properties of the zone manager\<close>

text \<open>Concrete files for the witnesses.\<close>

definition sample_ext :: externals where
  "sample_ext = \<lparr>ext_fmtFloat = (\<lambda>_. []), ext_sort = weight_sort, ext_newRR = (\<lambda>_. Some sample_soa), ext_geo = None,
     ext_sha256 = (\<lambda>s. CHR ''x'' # s)\<rparr>"

definition sample_info :: server_info where
  "sample_info = \<lparr>si_Version = ''3.0'', si_ID = ''edge1'', si_IP = ''10.0.0.1'', si_UUID = ''u'', si_Groups = [], si_Started = 0\<rparr>"

definition sample_zones :: "string \<Rightarrow> zone_file \<Rightarrow> zone_fs" where
  "sample_zones c file = \<lparr>fs_content = (\<lambda>_. Some c), fs_zone = (\<lambda>_. file)\<rparr>"

definition broken_file :: zone_file where
  "broken_file = \<lparr>zf_open = None, zf_mtime = Some 42, zf_json = Inl ''unexpected end of JSON input''\<rparr>"

definition sample_listing :: "int \<Rightarrow> file_info list" where
  "sample_listing t = [\<lparr>fi_Name = ''example.com.json'', fi_IsDir = False, fi_ModTime = t\<rparr>]"

lemma sample_listing_ok:
  "listing_ok []" "listing_ok (sample_listing t)" "\<not> skip_file (sample_listing t ! 0)" "base_name (sample_listing t ! 0) = ''example.com''"
  "file_of (sample_listing t) ''example.com'' = Some (sample_listing t ! 0)"
proof -
  have s: "\<not> skip_file (sample_listing t ! 0)" "base_name (sample_listing t ! 0) = ''example.com''" "\<not> IsFqdn ''example.com''"
    by (simp_all add: sample_listing_def skip_file_def base_name_def hasSuffix_def hasPrefix_def path_Base_def
      toLower_def lower_char_def IsFqdn_def trimSuffix_def Let_def)
  then show "listing_ok []" "listing_ok (sample_listing t)" "\<not> skip_file (sample_listing t ! 0)"
    "base_name (sample_listing t ! 0) = ''example.com''" "file_of (sample_listing t) ''example.com'' = Some (sample_listing t ! 0)"
    by (simp_all add: listing_ok_def sample_listing_def)
qed

lemma sample_reads:
  "\<exists>z. ReadZoneFile (ext_fmtFloat sample_ext) (ext_sort sample_ext) (ext_newRR sample_ext) (ext_geo sample_ext)
     sample_file (NewZone ''example.com'') = Inr z"
  "ReadZoneFile (ext_fmtFloat sample_ext) (ext_sort sample_ext) (ext_newRR sample_ext) (ext_geo sample_ext)
     broken_file (NewZone n) = Inl (DecodeError ''unexpected end of JSON input'')"
  using sample_file_read by (simp_all add: sample_ext_def ReadZoneFile_def read_zone_body_def broken_file_def Let_def)

text \<open>A manager started on the listing \<open>dir\<close> with every file being \<open>zf\<close>.\<close>

lemma sample_start:
  assumes "listing_ok dir"
  obtains mm where "managed sample_ext server_api (NewServer sample_info) mm"
    "mm_abs mm ''example.com'' = spec_reload sample_ext (sample_zones c zf) [] dir (\<lambda>_. (None, None)) ''example.com''"
proof -
  have n: "ext_newRR sample_ext s = Some sample_soa" for s by (simp add: sample_ext_def)
  show thesis
  proof (rule srv.managed_start [OF n NewServer_handler assms])
    fix mm assume mm: "managed sample_ext server_api (NewServer sample_info) mm"
      "\<And>n. n \<noteq> ''pgeodns'' \<Longrightarrow> mm_abs mm n = spec_reload sample_ext (sample_zones c zf) [] dir (\<lambda>_. (None, None)) n"
    show thesis by (rule that [OF mm(1)]) (rule mm(2), simp)
  qed
qed

lemma sample_served:
  obtains mm z where "managed sample_ext server_api (NewServer sample_info) mm" "map_of (Zones mm) ''example.com'' = Some z"
    "map_of (mm_lastRead mm) ''example.com'' = Some \<lparr>zr_time = 5, zr_hash = ''xv1''\<rparr>"
proof (rule sample_start [OF sample_listing_ok(2), where c = "''v1''" and zf = sample_file])
  fix mm assume mm: "managed sample_ext server_api (NewServer sample_info) mm"
    "mm_abs mm ''example.com'' = spec_reload sample_ext (sample_zones ''v1'' sample_file) [] (sample_listing 5) (\<lambda>_. (None, None)) ''example.com''"
  obtain z where z: "ReadZoneFile (ext_fmtFloat sample_ext) (ext_sort sample_ext) (ext_newRR sample_ext) (ext_geo sample_ext)
     sample_file (NewZone ''example.com'') = Inr z" using sample_reads(1) by blast
  have "mm_abs mm ''example.com'' = (Some (setupHealthTests z), Some \<lparr>zr_time = 5, zr_hash = ''xv1''\<rparr>)"
    unfolding mm(2) spec_reload_def sample_listing_ok(5)
    by (simp add: spec_file_def spec_read_def Let_def sample_listing_ok sample_zones_def sha256File_def z)
      (simp add: sample_ext_def sample_listing_def)
  with mm(1) that show thesis by (auto simp: mm_abs_def Zones_def)
qed

text \<open>C4. Between any two steps of the life of a manager, also in the middle of a reload, its zones are exactly the zones
  registered with the server, each under its own name. Every zone has its two statistics rings, both open, and no ring is
  shared by two zones, so that closing the rings of a removed zone never closes those of another. The one exception
  is the zone being removed: after \<open>zone.Close\<close> and before \<open>removeHandler\<close> it is still registered, with its rings closed.\<close>

theorem manager_invariant:
  assumes "moment ext server_api (NewServer si) ph mm"
  shows "(\<forall>n. name_ok n \<longrightarrow> map_of (sv_mux (mm_reg mm)) (Fqdn n) = map_of (Zones mm) n) \<and>
    (\<forall>n z. map_of (Zones mm) n = Some z \<longrightarrow> name_ok n \<and> z_Origin z = n \<and>
       (if closing ph = Some n then \<forall>r \<in> zone_refs z. \<not> ring_open (mm_store mm ! r) else metrics_ok (mm_store mm) z)) \<and>
    (\<forall>n m z z'. map_of (Zones mm) n = Some z \<longrightarrow> map_of (Zones mm) m = Some z' \<longrightarrow> n \<noteq> m \<longrightarrow> zone_refs z \<inter> zone_refs z' = {})"
proof (rule phase_inv_base [OF srv.moment_inv [OF assms NewServer_handler]])
  fix mm0 assume mm0: "mm_inv server_handler mm0" "mm_reg mm = mm_reg mm0" "mm_zonelist mm = mm_zonelist mm0"
    and rings: "\<And>n z. map_of (mm_zonelist mm) n = Some z \<Longrightarrow> closing ph \<noteq> Some n \<Longrightarrow> metrics_ok (mm_store mm) z"
    "\<And>n z r. map_of (mm_zonelist mm) n = Some z \<Longrightarrow> closing ph = Some n \<Longrightarrow> r \<in> zone_refs z \<Longrightarrow> \<not> ring_open (mm_store mm ! r)"
  note D = mm_invD [OF mm0(1), folded mm0(2,3)]
  show ?thesis
  proof (intro conjI allI impI)
    fix n z assume "map_of (Zones mm) n = Some z"
    then have z: "map_of (mm_zonelist mm) n = Some z" by (simp add: Zones_def)
    show "name_ok n" "z_Origin z = n" using D(2) [OF z] by (simp_all add: registered_ok_def)
    show "if closing ph = Some n then \<forall>r \<in> zone_refs z. \<not> ring_open (mm_store mm ! r) else metrics_ok (mm_store mm) z"
      using rings [OF z] by simp
  qed (use D(3,4) in \<open>simp_all add: Zones_def server_handler_def\<close>)
qed

theorem manager_invariant_witness:
  "\<exists>ph mm z. moment sample_ext server_api (NewServer sample_info) ph mm \<and> closing ph = Some ''example.com'' \<and>
     map_of (sv_mux (mm_reg mm)) (Fqdn ''example.com'') = Some z \<and> (\<forall>r \<in> zone_refs z. \<not> ring_open (mm_store mm ! r))"
proof (rule sample_served)
  fix mm z assume mm: "managed sample_ext server_api (NewServer sample_info) mm" "map_of (Zones mm) ''example.com'' = Some z"
  have "moment sample_ext server_api (NewServer sample_info) (Dropping (mm_zonelist mm) []) mm"
    using moment.m_files [OF moment.m_listed [OF managed_moment [OF mm(1)] sample_listing_ok(1)]] .
  moreover have "''example.com'' \<in> set (keys (mm_zonelist mm))"
    using mm(2) map_of_eq_None_keys [of "mm_zonelist mm" "''example.com''"] by (auto simp: Zones_def)
  ultimately obtain es mm1 where m: "moment sample_ext server_api (NewServer sample_info) (Closed ''example.com'' es []) mm1"
    using srv.moment_closes [OF _ NewServer_handler] by fastforce
  from srv.moment_inv [OF m NewServer_handler] obtain y where y: "map_of (Zones mm1) ''example.com'' = Some y"
    by (auto simp: listed_Cons Zones_def)
  note inv = manager_invariant [OF m]
  from inv y have "name_ok ''example.com''" "\<forall>r \<in> zone_refs y. \<not> ring_open (mm_store mm1 ! r)" by (auto simp: closing_def)
  with inv y have "map_of (sv_mux (mm_reg mm1)) (Fqdn ''example.com'') = Some y" by presburger
  with m \<open>\<forall>r \<in> zone_refs y. \<not> ring_open (mm_store mm1 ! r)\<close> show ?thesis by (intro exI conjI) (auto simp: closing_def)
qed

text \<open>C5. A reload of a directory that can be listed, with one file for each zone name, never panics and treats every zone name on its own, whatever
  the order of the files: it implements the specification \<open>spec_reload\<close>.\<close>

theorem reload_refines:
  assumes "managed ext server_api (NewServer si) mm" and "listing_ok dir"
  shows "\<exists>mm' err. reload ext server_api fs (Inr dir) mm = Inr (mm', err) \<and>
    mm_abs mm' = spec_reload ext fs (mm_path mm) dir (mm_abs mm)"
  by (rule srv.managed_reload [OF assms(1) NewServer_handler assms(2)]) blast

theorem reload_refines_witness:
  "\<exists>mm mm' err. managed sample_ext server_api (NewServer sample_info) mm \<and> map_of (Zones mm) ''example.com'' \<noteq> None \<and>
     reload sample_ext server_api (sample_zones ''v2'' sample_file) (Inr []) mm = Inr (mm', err) \<and>
     mm_abs mm' ''example.com'' = (None, None)"
proof (rule sample_served)
  fix mm z assume mm: "managed sample_ext server_api (NewServer sample_info) mm" "map_of (Zones mm) ''example.com'' = Some z"
  from reload_refines [OF mm(1) sample_listing_ok(1)] obtain mm' err where
    r: "reload sample_ext server_api (sample_zones ''v2'' sample_file) (Inr []) mm = Inr (mm', err)"
      "mm_abs mm' = spec_reload sample_ext (sample_zones ''v2'' sample_file) (mm_path mm) [] (mm_abs mm)" by blast
  have "mm_abs mm' ''example.com'' = (None, None)" using mm(2) by (simp add: r(2) spec_reload_def mm_abs_def Zones_def)
  with mm r(1) show ?thesis by blast
qed

lemma reload_new_zone:
  assumes "managed ext server_api (NewServer si) mm" and "listing_ok dir" and "f \<in> set dir" and "\<not> skip_file f"
    and "case map_of (mm_lastRead mm) (base_name f) of None \<Rightarrow> True | Some r \<Rightarrow> zr_time r < fi_ModTime f"
    and "(case map_of (mm_lastRead mm) (base_name f) of None \<Rightarrow> [] | Some r \<Rightarrow> zr_hash r) \<noteq>
      sha256File ext fs (path_Join (mm_path mm) (fi_Name f))"
    and "ReadZoneFile (ext_fmtFloat ext) (ext_sort ext) (ext_newRR ext) (ext_geo ext)
      (fs_zone fs (path_Join (mm_path mm) (fi_Name f))) (NewZone (base_name f)) = Inr z"
  shows "\<exists>mm' err z'. reload ext server_api fs (Inr dir) mm = Inr (mm', err) \<and> managed ext server_api (NewServer si) mm' \<and>
    map_of (sv_mux (mm_reg mm')) (Fqdn (base_name f)) = Some z' \<and> unmetered z' = setupHealthTests z"
proof -
  have f: "file_of dir (base_name f) = Some f" using listing_ok_find [OF assms(2-4)] .
  have n: "name_ok (base_name f)" using listing_ok_name [OF assms(2-4)] .
  obtain mm' err where mm': "reload ext server_api fs (Inr dir) mm = Inr (mm', err)" "managed ext server_api (NewServer si) mm'" "mm_inv server_handler mm'"
    "mm_abs mm' = spec_reload ext fs (mm_path mm) dir (mm_abs mm)"
    by (rule srv.managed_reload [OF assms(1) NewServer_handler assms(2)])
  have "fst (mm_abs mm' (base_name f)) = Some (setupHealthTests z)"
    using assms(5-7) by (simp add: mm'(4) spec_reload_def f spec_file_def spec_read_def mm_abs_def Let_def)
  then obtain z' where "map_of (mm_zonelist mm') (base_name f) = Some z'" "unmetered z' = setupHealthTests z"
    by (auto simp: mm_abs_def)
  with mm'(1,2) mm_invD(4) [OF mm'(3) n] show ?thesis by (auto simp: server_handler_def)
qed

text \<open>C15. A zone file that is new or newer than when it was last read, whose hash differs and that reads without
  an error is what the server answers from after the next reload.\<close>

theorem new_zone_goes_live:
  assumes "managed ext server_api (NewServer si) mm" and "listing_ok dir" and "f \<in> set dir" and "\<not> skip_file f"
    and "case map_of (mm_lastRead mm) (base_name f) of None \<Rightarrow> True | Some r \<Rightarrow> zr_time r < fi_ModTime f"
    and "(case map_of (mm_lastRead mm) (base_name f) of None \<Rightarrow> [] | Some r \<Rightarrow> zr_hash r) \<noteq>
      sha256File ext fs (path_Join (mm_path mm) (fi_Name f))"
    and "ReadZoneFile (ext_fmtFloat ext) (ext_sort ext) (ext_newRR ext) (ext_geo ext)
      (fs_zone fs (path_Join (mm_path mm) (fi_Name f))) (NewZone (base_name f)) = Inr z"
  shows "\<exists>mm' err z'. reload ext server_api fs (Inr dir) mm = Inr (mm', err) \<and>
    map_of (sv_mux (mm_reg mm')) (Fqdn (base_name f)) = Some z' \<and> unmetered z' = setupHealthTests z"
  using reload_new_zone [OF assms] by blast

theorem new_zone_goes_live_witness:
  "\<exists>mm mm' err z'. managed sample_ext server_api (NewServer sample_info) mm \<and>
     reload sample_ext server_api (sample_zones ''v2'' sample_file) (Inr (sample_listing 6)) mm = Inr (mm', err) \<and>
     map_of (sv_mux (mm_reg mm')) (Fqdn ''example.com'') = Some z'"
proof (rule sample_served)
  fix mm z assume mm: "managed sample_ext server_api (NewServer sample_info) mm"
    "map_of (mm_lastRead mm) ''example.com'' = Some \<lparr>zr_time = 5, zr_hash = ''xv1''\<rparr>"
  obtain z where z: "ReadZoneFile (ext_fmtFloat sample_ext) (ext_sort sample_ext) (ext_newRR sample_ext) (ext_geo sample_ext)
     sample_file (NewZone ''example.com'') = Inr z" using sample_reads(1) by blast
  have "\<exists>mm' err z'. reload sample_ext server_api (sample_zones ''v2'' sample_file) (Inr (sample_listing 6)) mm = Inr (mm', err) \<and>
     map_of (sv_mux (mm_reg mm')) (Fqdn (base_name (sample_listing 6 ! 0))) = Some z' \<and> unmetered z' = setupHealthTests z"
    by (rule new_zone_goes_live [OF mm(1) sample_listing_ok(2)])
      (simp_all add: sample_listing_ok mm(2) z sample_zones_def sha256File_def, simp_all add: sample_listing_def sample_ext_def)
  with mm(1) show ?thesis by (auto simp: sample_listing_ok(4))
qed

text \<open>C17. A file that does not read keeps the zone served before it, and is not tried again before its
  modification time changes, even if the reason was transient: a second reload with the same listing
  leaves the zone alone whatever the files contain by then.\<close>

theorem broken_file_keeps_zone:
  assumes "managed ext server_api (NewServer si) mm" and "listing_ok dir" and "f \<in> set dir" and "\<not> skip_file f"
    and "ReadZoneFile (ext_fmtFloat ext) (ext_sort ext) (ext_newRR ext) (ext_geo ext)
      (fs_zone fs (path_Join (mm_path mm) (fi_Name f))) (NewZone (base_name f)) = Inl e"
  shows "\<exists>mm1 err1 mm2 err2. reload ext server_api fs (Inr dir) mm = Inr (mm1, err1) \<and>
    reload ext server_api fs' (Inr dir) mm1 = Inr (mm2, err2) \<and>
    map_option unmetered (map_of (Zones mm1) (base_name f)) = map_option unmetered (map_of (Zones mm) (base_name f)) \<and>
    map_option unmetered (map_of (Zones mm2) (base_name f)) = map_option unmetered (map_of (Zones mm) (base_name f))"
proof -
  have f: "file_of dir (base_name f) = Some f" using listing_ok_find [OF assms(2-4)] .
  obtain mm1 err1 where mm1: "reload ext server_api fs (Inr dir) mm = Inr (mm1, err1)"
    "managed ext server_api (NewServer si) mm1" "mm_abs mm1 = spec_reload ext fs (mm_path mm) dir (mm_abs mm)"
    by (rule srv.managed_reload [OF assms(1) NewServer_handler assms(2)])
  obtain mm2 err2 where mm2: "reload ext server_api fs' (Inr dir) mm1 = Inr (mm2, err2)"
    "mm_abs mm2 = spec_reload ext fs' (mm_path mm1) dir (mm_abs mm1)"
    by (rule srv.managed_reload [OF mm1(2) NewServer_handler assms(2)])
  have s: "fst (mm_abs mm1 (base_name f)) = fst (mm_abs mm (base_name f))"
    "spec_file ext fs' (mm_path mm1) f (mm_abs mm1 (base_name f)) = mm_abs mm1 (base_name f)"
    using assms(5) by (auto simp: mm1(3) spec_reload_def f spec_file_def spec_read_def Let_def split: option.splits)
  then have "fst (mm_abs mm2 (base_name f)) = fst (mm_abs mm (base_name f))" by (simp add: mm2(2) spec_reload_def f)
  with s(1) mm1(1) mm2(1) show ?thesis by (simp add: mm_abs_def Zones_def)
qed

theorem broken_file_keeps_zone_witness:
  "\<exists>mm mm1 err1 z. managed sample_ext server_api (NewServer sample_info) mm \<and>
     reload sample_ext server_api (sample_zones ''v2'' broken_file) (Inr (sample_listing 6)) mm = Inr (mm1, err1) \<and>
     map_of (Zones mm1) ''example.com'' = Some z"
proof (rule sample_served)
  fix mm z assume mm: "managed sample_ext server_api (NewServer sample_info) mm" "map_of (Zones mm) ''example.com'' = Some z"
  have "sample_listing 6 ! 0 \<in> set (sample_listing 6)" by (simp add: sample_listing_def)
  from broken_file_keeps_zone [OF mm(1) sample_listing_ok(2) this sample_listing_ok(3), of "sample_zones ''v2'' broken_file"
    "DecodeError ''unexpected end of JSON input''"] mm
  show ?thesis by (fastforce simp: sample_listing_ok(4) sample_zones_def sample_reads(2))
qed

text \<open>C40. The record of a zone that never loaded is not forgotten when its file disappears: when a file of the
  same name comes back with a modification time that is not newer, it is not read, whatever it holds.\<close>

theorem forgotten_zone_not_read:
  assumes "managed ext server_api (NewServer si) mm" and "listing_ok dir1" and "listing_ok dir2"
    and "map_of (Zones mm) (base_name f) = None" and "map_of (mm_lastRead mm) (base_name f) = Some r"
    and "base_name f \<notin> config_names dir1" and "f \<in> set dir2" and "\<not> skip_file f" and "fi_ModTime f \<le> zr_time r"
  shows "\<exists>mm1 err1 mm2 err2. reload ext server_api fs1 (Inr dir1) mm = Inr (mm1, err1) \<and>
    reload ext server_api fs2 (Inr dir2) mm1 = Inr (mm2, err2) \<and> map_of (Zones mm2) (base_name f) = None"
proof -
  have f: "file_of dir2 (base_name f) = Some f" using listing_ok_find [OF assms(3,7,8)] .
  have f1: "file_of dir1 (base_name f) = None" using assms(6) by (simp add: file_of_None)
  obtain mm1 err1 where mm1: "reload ext server_api fs1 (Inr dir1) mm = Inr (mm1, err1)"
    "managed ext server_api (NewServer si) mm1" "mm_abs mm1 = spec_reload ext fs1 (mm_path mm) dir1 (mm_abs mm)"
    by (rule srv.managed_reload [OF assms(1) NewServer_handler assms(2)])
  obtain mm2 err2 where mm2: "reload ext server_api fs2 (Inr dir2) mm1 = Inr (mm2, err2)"
    "mm_abs mm2 = spec_reload ext fs2 (mm_path mm1) dir2 (mm_abs mm1)"
    by (rule srv.managed_reload [OF mm1(2) NewServer_handler assms(3)])
  have "mm_abs mm1 (base_name f) = (None, Some r)"
    using assms(4,5) by (simp add: mm1(3) spec_reload_def f1 mm_abs_def Zones_def)
  with assms(9) have "mm_abs mm2 (base_name f) = (None, Some r)" by (simp add: mm2(2) spec_reload_def f spec_file_def)
  with mm1(1) mm2(1) show ?thesis by (simp add: mm_abs_def Zones_def)
qed

theorem forgotten_zone_not_read_witness:
  "\<exists>mm mm1 err1 mm2 err2. managed sample_ext server_api (NewServer sample_info) mm \<and>
     reload sample_ext server_api (sample_zones [] broken_file) (Inr []) mm = Inr (mm1, err1) \<and>
     reload sample_ext server_api (sample_zones ''v2'' sample_file) (Inr (sample_listing 5)) mm1 = Inr (mm2, err2) \<and>
     map_of (Zones mm2) ''example.com'' = None"
proof (rule sample_start [OF sample_listing_ok(2), where c = "''v1''" and zf = broken_file])
  fix mm assume mm: "managed sample_ext server_api (NewServer sample_info) mm"
    "mm_abs mm ''example.com'' = spec_reload sample_ext (sample_zones ''v1'' broken_file) [] (sample_listing 5) (\<lambda>_. (None, None)) ''example.com''"
  have "mm_abs mm ''example.com'' = (None, Some \<lparr>zr_time = 5, zr_hash = []\<rparr>)"
    unfolding mm(2) spec_reload_def sample_listing_ok(5)
    by (simp add: spec_file_def spec_read_def Let_def sample_zones_def sha256File_def sample_reads(2))
      (simp add: sample_ext_def sample_listing_def)
  then have s: "map_of (Zones mm) ''example.com'' = None" "map_of (mm_lastRead mm) ''example.com'' = Some \<lparr>zr_time = 5, zr_hash = []\<rparr>"
    by (simp_all add: mm_abs_def Zones_def)
  have "\<exists>mm1 err1 mm2 err2. reload sample_ext server_api (sample_zones [] broken_file) (Inr []) mm = Inr (mm1, err1) \<and>
     reload sample_ext server_api (sample_zones ''v2'' sample_file) (Inr (sample_listing 5)) mm1 = Inr (mm2, err2) \<and>
     map_of (Zones mm2) (base_name (sample_listing 5 ! 0)) = None"
    by (rule forgotten_zone_not_read [OF mm(1) sample_listing_ok(1,2)])
      (simp_all add: sample_listing_ok s config_names_def, simp_all add: sample_listing_def)
  with mm(1) show ?thesis by (auto simp: sample_listing_ok(4))
qed

end
