(* ===== verification/Serve.thy ===== *)
theory Serve
  imports Server
begin

text \<open>
  \<open>server/serve.go\<close>: answering a query. A \<open>dns.ResponseWriter\<close> is the remote address and what
  \<open>WriteMsg\<close> returns for a message; the state of a query is the server (query log and counters), the
  store of statistics rings, the random numbers and the messages written so far. \<open>None\<close> is a query that
  never returns, \<open>Inl\<close> a panic, which ends the process because no caller recovers it. The clock, the
  host name, the stack and the name tables of the vendored library are parameters. \<open>applog\<close> only
  prints and is left out.
\<close>

section \<open>Data\<close>

text \<open>\<open>ra_IP\<close> is \<open>None\<close> for an address that is neither a UDP nor a TCP address; a nil \<open>net.IP\<close> is the
  empty list.\<close>

record remote_addr =
  ra_IP :: "ip option"
  ra_String :: string

record response_writer =
  rw_RemoteAddr :: remote_addr
  rw_WriteMsg :: "msg \<Rightarrow> string option"

record serve_env =
  se_geo :: "geo_provider option"
  se_health :: registry
  se_angle :: angle_fn
  se_stack :: nat
  se_now :: int
  se_uptime :: int
  se_hostname :: "string option"
  se_TypeToString :: "uint16 \<Rightarrow> string"
  se_RcodeToString :: "int \<Rightarrow> string"

record serve_state =
  ss_srv :: server
  ss_store :: stats_store
  ss_rnd :: rnd_state
  ss_written :: "msg list"

section \<open>Names and addresses\<close>

definition getQuestionName :: "'r zone \<Rightarrow> string \<Rightarrow> string go" where
  "getQuestionName z fqdn =
     (let lx = SplitDomainName fqdn
      in if length lx < z_LabelCount z then Inl SliceBounds
         else Inr (toLower (join ''.'' (take (length lx - z_LabelCount z) lx))))"

text \<open>The \<open>[0]\<close> of \<open>strings.Split\<close>, which never returns an empty slice.\<close>

definition first_label :: "string \<Rightarrow> string" where
  "first_label s = hd (split_on (CHR ''.'') s)"

definition getIPFromDomain :: "string \<Rightarrow> ip option" where
  "getIPFromDomain domain =
     (let dashedIP = first_label domain;
          ipstr = replace_char (CHR ''-'') (CHR ''.'') dashedIP
      in ParseIP ipstr)"

section \<open>Client subnets\<close>

text \<open>What the loop over the additional section leaves behind: the client address, the positions of the
  subnet option and of the OPT record last seen (pointers into the request), and the log entry.\<close>

record ecs_scan =
  ec_ip :: ip
  ec_edns :: "(nat \<times> nat) option"
  ec_opt_rr :: "nat option"
  ec_qle :: "query_entry option"

definition client_addr :: "ip \<Rightarrow> nat \<Rightarrow> string" where
  "client_addr ip bits = IP_String ip @ ''/'' @ utoa bits"

definition scan_option :: "nat \<Rightarrow> nat \<times> edns0 \<Rightarrow> ecs_scan \<Rightarrow> ecs_scan" where
  "scan_option i jo ec =
     (let ec = ec\<lparr>ec_opt_rr := Some i\<rparr>
      in case jo of
           (j, EDNS0_SUBNET e) \<Rightarrow>
             if Address e \<noteq> [] then
               ec\<lparr>ec_edns := Some (i, j), ec_ip := Address e,
                  ec_qle := map_option (\<lambda>q. q\<lparr>qe_HasECS := True,
                     qe_ClientAddr := client_addr (Address e) (unat (SourceNetmask e))\<rparr>) (ec_qle ec)\<rparr>
             else ec
         | _ \<Rightarrow> ec)"

definition scan_extra :: "nat \<times> rr \<Rightarrow> ecs_scan \<Rightarrow> ecs_scan" where
  "scan_extra ie ec =
     (case ie of (i, extra) \<Rightarrow>
        case extra of RR_OPT _ opts \<Rightarrow> fold (scan_option i) (enumerate 0 opts) ec | _ \<Rightarrow> ec)"

text \<open>Assignments through the pointer to a subnet option.\<close>

definition update_subnet :: "nat \<times> nat \<Rightarrow> (edns0_subnet \<Rightarrow> edns0_subnet) \<Rightarrow> rr list \<Rightarrow> rr list" where
  "update_subnet p f extra =
     (case p of (i, j) \<Rightarrow>
        case extra ! i of
          RR_OPT h opts \<Rightarrow>
            (case opts ! j of
               EDNS0_SUBNET e \<Rightarrow> extra[i := RR_OPT h (opts[j := EDNS0_SUBNET (f e)])]
             | _ \<Rightarrow> extra)
        | _ \<Rightarrow> extra)"

definition subnet_at :: "nat \<times> nat \<Rightarrow> rr list \<Rightarrow> edns0_subnet option" where
  "subnet_at p extra =
     (case p of (i, j) \<Rightarrow>
        case extra ! i of RR_OPT h opts \<Rightarrow> (case opts ! j of EDNS0_SUBNET e \<Rightarrow> Some e | _ \<Rightarrow> None) | _ \<Rightarrow> None)"

text \<open>\<open>Msg.IsEdns0\<close>, \<open>OPT.Do\<close> and \<open>Msg.SetEdns0\<close> of the vendored library.\<close>

definition IsEdns0 :: "msg \<Rightarrow> rr option" where
  "IsEdns0 m = find (\<lambda>r. Rrtype (rr_hdr r) = TypeOPT) (rev (Extra m))"

definition opt_Do :: "rr \<Rightarrow> bool" where
  "opt_Do r = bit (Ttl (rr_hdr r)) 15"

definition SetEdns0 :: "uint16 \<Rightarrow> bool \<Rightarrow> msg \<Rightarrow> msg" where
  "SetEdns0 udpsize doFlag m =
     m\<lparr>Extra := Extra m @ [RR_OPT \<lparr>Name = ''.'', Rrtype = TypeOPT, Class = udpsize,
        Ttl = (if doFlag then 0x8000 else 0), Rdlength = 0\<rparr> []]\<rparr>"

text \<open>The reply before anything is looked up.\<close>

definition begin_reply :: "msg \<Rightarrow> msg" where
  "begin_reply req =
     (let m = SetReply new_msg req;
          m = (case IsEdns0 m of Some e \<Rightarrow> SetEdns0 4096 (opt_Do e) m | None \<Rightarrow> m)
      in m\<lparr>Authoritative := True\<rparr>)"

text \<open>The answer to a client subnet: the OPT record of the request with the scope set. \<open>extra\<close> is the
  additional section of the request.\<close>

definition reply_subnet :: "ecs_scan \<Rightarrow> int \<Rightarrow> rr list \<Rightarrow> msg \<Rightarrow> msg" where
  "reply_subnet ec netmask extra m =
     (case (ec_edns ec, ec_opt_rr ec) of
        (Some p, Some i) \<Rightarrow>
          (case subnet_at p extra of
             Some e \<Rightarrow>
               if Family e \<noteq> 0 then
                 let netmask = (if netmask < 16 then 16 else netmask);
                     extra = update_subnet p (\<lambda>e. e\<lparr>SourceScope := word_of_int netmask\<rparr>) extra
                 in m\<lparr>Extra := Extra m @ [extra ! i]\<rparr>
               else m
           | None \<Rightarrow> m)
      | _ \<Rightarrow> m)"

section \<open>Debug answers\<close>

text \<open>The text of a JSON string, for ASCII, and of a float with three decimals (\<open>%.3f\<close>).\<close>

definition json_char :: "char \<Rightarrow> string" where
  "json_char c =
     (if c = CHR 0x22 \<or> c = CHR 0x5C then [CHR 0x5C, c]
      else if c = CHR 0x0A then [CHR 0x5C, CHR ''n'']
      else if c = CHR 0x0D then [CHR 0x5C, CHR ''r'']
      else if c = CHR 0x09 then [CHR 0x5C, CHR ''t'']
      else if of_char c < (0x20 :: nat) \<or> c = CHR ''<'' \<or> c = CHR ''>'' \<or> c = CHR ''&''
      then CHR 0x5C # ''u00'' @ [hex_digit (of_char c div 16), hex_digit (of_char c mod 16)]
      else [c])"

definition json_quote :: "string \<Rightarrow> string" where
  "json_quote s = [CHR 0x22] @ concat (map json_char s) @ [CHR 0x22]"

definition round_even :: "rat \<Rightarrow> int" where
  "round_even q =
     (let n = \<lfloor>q\<rfloor>; r = q - of_int n
      in if r < 1 / 2 then n else if 1 / 2 < r then n + 1 else if even n then n else n + 1)"

definition fmt3 :: "rat \<Rightarrow> string" where
  "fmt3 q =
     (let n = nat (round_even (\<bar>q\<bar> * 1000)); f = n mod 1000
      in (if q < 0 then ''-'' else []) @ utoa (n div 1000) @ ''.'' @
         [digit_char (f div 100), digit_char (f div 10 mod 10), digit_char (f mod 10)])"

definition txt_header :: "string \<Rightarrow> rr_header" where
  "txt_header name = \<lparr>Name = name, Rrtype = TypeTXT, Class = ClassINET, Ttl = 1, Rdlength = 0\<rparr>"

text \<open>\<open>json.Marshal\<close> writes the entries of a map in the order of their keys.\<close>

definition statusRR :: "serve_env \<Rightarrow> server \<Rightarrow> string \<Rightarrow> rr list" where
  "statusRR env srv label =
     (let status = (case se_hostname env of None \<Rightarrow> [] | Some h \<Rightarrow> [(''h'', h)]) @
            [(''id'', si_ID (sv_info srv)), (''up'', itoa (se_uptime env)), (''v'', si_Version (sv_info srv))];
          js = ''{'' @ join '','' (map (\<lambda>(k, v). json_quote k @ '':'' @ json_quote v) status) @ ''}''
      in [RR_TXT (txt_header label) [js]])"

definition add_soa :: "served_zone \<Rightarrow> msg \<Rightarrow> msg go" where
  "add_soa z m = go_bind (SoaRR z) (\<lambda>soa. Inr (m\<lparr>Ns := Ns m @ [soa]\<rparr>))"

definition countryRR ::
  "serve_env \<Rightarrow> server \<Rightarrow> response_writer \<Rightarrow> served_zone \<Rightarrow> string \<Rightarrow> ip \<Rightarrow> rr list go" where
  "countryRR env srv w z qnamefqdn ip =
     go_bind (GetTargets (se_geo env) (zo_Targeting (z_Options z)) ip (z_HasClosest z)) (\<lambda>(targets, netmask, location, _).
       Inr [RR_TXT (txt_header qnamefqdn)
              [ra_String (rw_RemoteAddr w), IP_String ip, join '' '' targets, ''/'' @ itoa netmask,
               si_ID (sv_info srv), si_IP (sv_info srv),
               (case location of
                  None \<Rightarrow> ''()''
                | Some l \<Rightarrow> ''('' @ fmt3 (Latitude l) @ '','' @ fmt3 (Longitude l) @ '')'')]])"

text \<open>\<open>if len(labelMatches) == 0\<close>: the answer and whether it is the NXDOMAIN one, which is counted.\<close>

definition no_match_reply ::
  "serve_env \<Rightarrow> server \<Rightarrow> response_writer \<Rightarrow> msg \<Rightarrow> served_zone \<Rightarrow> string \<Rightarrow> uint16 \<Rightarrow> string \<Rightarrow> ip \<Rightarrow> ip \<Rightarrow>
   msg \<Rightarrow> (msg \<times> bool) go" where
  "no_match_reply env srv w req z qnamefqdn qtype qlabel realIP ip m =
     (let permitDebug = (sv_PublicDebugQueries srv \<or> IsLoopback realIP);
          firstLabel = first_label qlabel;
          wantsText = (qtype = TypeANY \<or> qtype = TypeTXT);
          fqdn = qlabel @ ''.'' @ z_Origin z @ ''.''
      in if permitDebug \<and> firstLabel = ''_status'' then
           (if wantsText then Inr (m\<lparr>Answer := statusRR env srv fqdn\<rparr>, False)
            else go_bind (add_soa z m) (\<lambda>m. Inr (m, False)))
         else if permitDebug \<and> firstLabel = ''_health'' then
           (if wantsText
            then Inr (m\<lparr>Answer := HealthRR fqdn (join ''.'' (drop 1 (split_on (CHR ''.'') qlabel)))\<rparr>, False)
            else go_bind (add_soa z m) (\<lambda>m. Inr (m, False)))
         else if firstLabel = ''_country'' then
           (if wantsText
            then go_bind (countryRR env srv w z qnamefqdn ip) (\<lambda>rrs. Inr (m\<lparr>Answer := rrs\<rparr>, False))
            else go_bind (add_soa z m) (\<lambda>m. Inr (m, False)))
         else
           go_bind (SoaRR z) (\<lambda>soa.
             Inr ((SetRcode m req RcodeNameError)\<lparr>Authoritative := True, Ns := [soa]\<rparr>, True)))"

section \<open>Answers from the zone\<close>

text \<open>\<open>dns.Copy\<close> and the name of the question for every record picked; a nil record panics.\<close>

definition answer_rrs :: "string \<Rightarrow> zrecord option list \<Rightarrow> rr list go" where
  "answer_rrs qnamefqdn servers =
     go_map (\<lambda>r. case r of None \<Rightarrow> Inl NilDeref | Some record \<Rightarrow> Inr (set_name qnamefqdn (rec_RR record))) servers"

text \<open>The loop over the matches. A location once dropped stays dropped.\<close>

fun match_answers ::
  "serve_env \<Rightarrow> string \<Rightarrow> label_match list \<Rightarrow> location option \<Rightarrow> msg \<Rightarrow> query_entry option \<Rightarrow> rnd_state \<Rightarrow>
   (msg \<times> query_entry option \<times> rnd_state) go option" where
  "match_answers env qnamefqdn [] location m qle rnd = Some (Inr (m, qle, rnd))"
| "match_answers env qnamefqdn ((None, labelQtype) # ms) location m qle rnd = Some (Inl NilDeref)"
| "match_answers env qnamefqdn ((Some label, labelQtype) # ms) location m qle rnd =
     (let location = (if lb_Closest label then location else None)
      in case Picker (se_health env) (se_angle env) label labelQtype (lb_MaxHosts label) location rnd of
           None \<Rightarrow> None
         | Some (Inl p) \<Rightarrow> Some (Inl p)
         | Some (Inr (servers, rnd)) \<Rightarrow>
             (case (case servers of None \<Rightarrow> Inr m | Some rs \<Rightarrow> go_bind (answer_rrs qnamefqdn rs) (\<lambda>rrs. Inr (m\<lparr>Answer := rrs\<rparr>))) of
                Inl p \<Rightarrow> Some (Inl p)
              | Inr m \<Rightarrow>
                  if 0 < length (Answer m)
                  then Some (Inr (m, map_option (\<lambda>q. q\<lparr>qe_LabelName := lb_Label label,
                         qe_Answers := int (length (Answer m))\<rparr>) qle, rnd))
                  else match_answers env qnamefqdn ms location m qle rnd))"

section \<open>The handler\<close>

definition stats_Add :: "stats_ref option \<Rightarrow> string \<Rightarrow> stats_store \<Rightarrow> stats_store go" where
  "stats_Add p l st = (case p of None \<Rightarrow> Inl NilDeref | Some r \<Rightarrow> go_bind (zs_Add l (st ! r)) (\<lambda>zs. Inr (st[r := zs])))"

definition count_query :: "query_labels \<Rightarrow> server \<Rightarrow> server" where
  "count_query l srv = srv\<lparr>sv_queries := map_put l (map_get (sv_queries srv) l 0 + 1) (sv_queries srv)\<rparr>"

text \<open>The deferred calls: the entry gets the code and the number of answers of the reply and is written.\<close>

definition log_query :: "msg \<Rightarrow> query_entry option \<Rightarrow> server \<Rightarrow> server" where
  "log_query m qle srv =
     (case (qle, sv_queryLogger srv) of
        (Some q, Some es) \<Rightarrow>
          srv\<lparr>sv_queryLogger := Some (es @ [q\<lparr>qe_Rcode := Rcode m, qe_Answers := int (length (Answer m))\<rparr>])\<rparr>
      | _ \<Rightarrow> srv)"

definition write_msg :: "msg \<Rightarrow> serve_state \<Rightarrow> serve_state" where
  "write_msg m st = st\<lparr>ss_written := ss_written st @ [m]\<rparr>"

text \<open>\<open>if qtype == dns.TypeA && z.ParseIP\<close>: an address that could not be parsed is only reported.\<close>

definition parse_ip_reply :: "msg \<Rightarrow> string \<Rightarrow> msg" where
  "parse_ip_reply req qnamefqdn =
     (let h = \<lparr>Name = qnamefqdn, Rrtype = 1, Class = 1, Ttl = 86400, Rdlength = 0\<rparr>;
          ip = (case getIPFromDomain qnamefqdn of None \<Rightarrow> [] | Some ip \<Rightarrow> ip)
      in (SetReply new_msg req)\<lparr>Answer := [RR_A h ip]\<rparr>)"

definition new_entry :: "serve_env \<Rightarrow> served_zone \<Rightarrow> string \<Rightarrow> uint16 \<Rightarrow> query_entry" where
  "new_entry env z qnamefqdn qtype =
     \<lparr>qe_Time = se_now env, qe_Origin = z_Origin z, qe_Name = toLower qnamefqdn, qe_Qtype = qtype, qe_Rcode = 0,
      qe_Answers = 0, qe_Targets = [], qe_LabelName = [], qe_RemoteAddr = [], qe_ClientAddr = [], qe_HasECS = False\<rparr>"

text \<open>The end of the handler, after the loop over the matches.\<close>

definition finish_reply ::
  "serve_env \<Rightarrow> response_writer \<Rightarrow> msg \<Rightarrow> served_zone \<Rightarrow> uint16 \<Rightarrow> string \<Rightarrow> msg \<Rightarrow> query_entry option \<Rightarrow>
   serve_state \<Rightarrow> serve_state go" where
  "finish_reply env w req z qtype qlabel m qle st =
     go_bind (if length (Answer m) = 0 then add_soa z m else Inr m) (\<lambda>m.
       let srv = count_query (z_Origin z, se_TypeToString env qtype, qlabel, se_RcodeToString env (Rcode m)) (ss_srv st);
           st = write_msg m (st\<lparr>ss_srv := log_query m qle srv\<rparr>)
       in Inr (case rw_WriteMsg w m of None \<Rightarrow> st | Some err \<Rightarrow> write_msg (HandleFailed req) st))"

text \<open>The handler from the lookup of the labels on.\<close>

definition answer_query ::
  "serve_env \<Rightarrow> response_writer \<Rightarrow> msg \<Rightarrow> served_zone \<Rightarrow> string \<Rightarrow> uint16 \<Rightarrow> string \<Rightarrow> ip \<Rightarrow> ip \<Rightarrow>
   string list \<Rightarrow> location option \<Rightarrow> msg \<Rightarrow> query_entry option \<Rightarrow> serve_state \<Rightarrow> serve_state go option" where
  "answer_query env w req z qnamefqdn qtype qlabel realIP ip targets location m qle st =
     (case FindLabels (se_stack env) z qlabel targets [TypeMF, TypeCNAME, qtype] of
        Inl p \<Rightarrow> Some (Inl p)
      | Inr labelMatches \<Rightarrow>
          if length labelMatches = 0 then
            Some (go_bind (no_match_reply env (ss_srv st) w req z qnamefqdn qtype qlabel realIP ip m) (\<lambda>(m, nx).
              let qle = map_option (\<lambda>q. q\<lparr>qe_LabelName := first_label qlabel\<rparr>) qle;
                  srv = (if nx
                         then count_query (z_Origin z, se_TypeToString env qtype, ''_error'', se_RcodeToString env (Rcode m)) (ss_srv st)
                         else ss_srv st)
              in Inr (write_msg m (st\<lparr>ss_srv := log_query m qle srv\<rparr>))))
          else
            (case match_answers env qnamefqdn labelMatches location m qle (ss_rnd st) of
               None \<Rightarrow> None
             | Some r \<Rightarrow> Some (go_bind r (\<lambda>(m, qle, rnd).
                 finish_reply env w req z qtype qlabel m qle (st\<lparr>ss_rnd := rnd\<rparr>)))))"

text \<open>The address a client is targeted by, its targets, and the reply with the subnet answered. \<open>GetTargets\<close>
  may write to the address it is given, which is either \<open>realIP\<close> or the address in the request.\<close>

definition client_targets ::
  "serve_env \<Rightarrow> msg \<Rightarrow> served_zone \<Rightarrow> ip \<Rightarrow> query_entry option \<Rightarrow>
   (ip \<times> ip \<times> string list \<times> location option \<times> msg \<times> query_entry option) go" where
  "client_targets env req z realIP qle =
     (let ec = fold scan_extra (enumerate 0 (Extra req)) \<lparr>ec_ip = [], ec_edns = None, ec_opt_rr = None, ec_qle = qle\<rparr>;
          noEdns = (length (ec_ip ec) = 0);
          ip = (if noEdns then realIP else ec_ip ec);
          qle = (if noEdns then map_option (\<lambda>q. q\<lparr>qe_ClientAddr := client_addr ip (length ip * 8)\<rparr>) (ec_qle ec) else ec_qle ec)
      in go_bind (GetTargets (se_geo env) (zo_Targeting (z_Options z)) ip (z_HasClosest z))
           (\<lambda>(targets, netmask, location, ip).
             let realIP = (if noEdns then ip else realIP);
                 extra = (case ec_edns ec of
                            Some p \<Rightarrow> if noEdns then Extra req else update_subnet p (\<lambda>e. e\<lparr>Address := ip\<rparr>) (Extra req)
                          | None \<Rightarrow> Extra req);
                 qle = map_option (\<lambda>q. q\<lparr>qe_Targets := targets\<rparr>) qle;
                 m = reply_subnet ec netmask extra (begin_reply req)
             in Inr (realIP, ip, targets, location, m, qle)))"

text \<open>The handler up to the lookup: the label asked for, the statistics, the client.\<close>

definition begin_query ::
  "serve_env \<Rightarrow> response_writer \<Rightarrow> msg \<Rightarrow> served_zone \<Rightarrow> string \<Rightarrow> uint16 \<Rightarrow> serve_state \<Rightarrow>
   (string \<times> stats_store \<times> ip \<times> ip \<times> string list \<times> location option \<times> msg \<times> query_entry option) go" where
  "begin_query env w req z qnamefqdn qtype st =
     (let qle = (case sv_queryLogger (ss_srv st) of None \<Rightarrow> None | Some _ \<Rightarrow> Some (new_entry env z qnamefqdn qtype));
          realIP = (case ra_IP (rw_RemoteAddr w) of None \<Rightarrow> [] | Some a \<Rightarrow> a);
          qle = map_option (\<lambda>q. q\<lparr>qe_RemoteAddr := IP_String realIP\<rparr>) qle
      in go_bind (getQuestionName z qnamefqdn) (\<lambda>qlabel.
         go_bind (stats_Add (zm_LabelStats (z_Metrics z)) qlabel (ss_store st)) (\<lambda>store.
         go_bind (stats_Add (zm_ClientStats (z_Metrics z)) (IP_String realIP) store) (\<lambda>store.
         go_bind (client_targets env req z realIP qle) (\<lambda>c. Inr (qlabel, store, c))))))"

text \<open>The handler for a query that is not answered from its own name.\<close>

definition serve_labels ::
  "serve_env \<Rightarrow> response_writer \<Rightarrow> msg \<Rightarrow> served_zone \<Rightarrow> string \<Rightarrow> uint16 \<Rightarrow> serve_state \<Rightarrow> serve_state go option" where
  "serve_labels env w req z qnamefqdn qtype st =
     (case begin_query env w req z qnamefqdn qtype st of
        Inl p \<Rightarrow> Some (Inl p)
      | Inr (qlabel, store, realIP, ip, targets, location, m, qle) \<Rightarrow>
          answer_query env w req z qnamefqdn qtype qlabel realIP ip targets location m qle (st\<lparr>ss_store := store\<rparr>))"

definition serve ::
  "serve_env \<Rightarrow> response_writer \<Rightarrow> msg \<Rightarrow> served_zone \<Rightarrow> serve_state \<Rightarrow> serve_state go option" where
  "serve env w req z st =
     (case Question req of
        [] \<Rightarrow> Some (Inl IndexOutOfRange)
      | q # _ \<Rightarrow>
          let qnamefqdn = Qname q; qtype = Qtype q
          in if qtype = TypeA \<and> z_ParseIP z = True
             then Some (Inr (write_msg (parse_ip_reply req qnamefqdn) st))
             else serve_labels env w req z qnamefqdn qtype st)"

text \<open>\<open>Server.ServeDNS\<close>: the multiplexer of the server selects the zone; without one it fails the query.\<close>

definition ServeDNS :: "serve_env \<Rightarrow> response_writer \<Rightarrow> msg \<Rightarrow> serve_state \<Rightarrow> serve_state go option" where
  "ServeDNS env w req st =
     (case (case Question req of [] \<Rightarrow> None | q # _ \<Rightarrow> mux_match (sv_mux (ss_srv st)) (Qname q) (Qtype q)) of
        Some z \<Rightarrow> serve env w req z st
      | None \<Rightarrow> Some (Inr (write_msg (HandleFailed req) st)))"

end
