(* ===== verification/ServeSafe.thy ===== *)
theory ServeSafe
  imports Serve
begin

text \<open>
  The handler of the server answers. The proofs follow a query: the multiplexer routes it to a zone whose
  name is a suffix of the question, the label asked for is the rest, the statistics rings take it, the
  search for labels returns for zones without alias cycles, the records picked are records of the zone,
  and the reply has answers, the SOA record or a name error. \<open>ServeDNS_ok\<close> puts them together for the
  zones a manager has registered.
\<close>

section \<open>Routing\<close>

lemma match_loop_Inr:
  "match_loop z q t off h = Inr (Some h') \<Longrightarrow> label_start q off \<Longrightarrow>
   h = Some h' \<or> (\<exists>off'. label_start q off' \<and> map_of z (drop off' q) = Some h')"
proof (induction z q t off h rule: match_loop.induct)
  case (1 z q t off h)
  obtain j e where n: "NextLabel q off = (j, e)" by (cases "NextLabel q off")
  let ?h2 = "case map_of z (drop off q) of Some h' \<Rightarrow> Some h' | None \<Rightarrow> h"
  have none: "(if t \<noteq> TypeDS then map_of z (drop off q) else None) = None"
    using "1.prems"(1)
    by (cases "if t \<noteq> TypeDS then map_of z (drop off q) else None") (simp_all add: match_loop.simps [of z q t off h])
  show ?case
  proof (cases e)
    case True
    with "1.prems" n none show ?thesis
      by (auto simp: match_loop.simps [of z q t off h] Let_def split: option.splits if_splits)
  next
    case False
    then have rec: "match_loop z q t j ?h2 = Inr (Some h')"
      using "1.prems"(1) n none by (simp add: match_loop.simps [of z q t off h] Let_def)
    have "label_start q j" using n False "1.prems"(2) by (auto intro: label_start.advance)
    with "1.IH" [OF none refl n [symmetric] False] rec "1.prems"(2) show ?thesis by (auto split: option.splits)
  qed
qed

lemma mux_match_route:
  assumes "mux_match z q t = Some h" and "map_of z ''.'' = None"
  shows "\<exists>off. label_start (toLower q) off \<and> map_of z (drop off (toLower q)) = Some h"
  using assms match_loop_Inl [of z "toLower q" t 0 None h] match_loop_Inr [of z "toLower q" t 0 None h] label_start.start
  by (auto simp: mux_match_def split: sum.splits)

text \<open>The prefix of a name: its labels, each with its dot.\<close>

definition dots :: "string list \<Rightarrow> string" where
  "dots pre = concat (map (\<lambda>l. l @ ''.'') pre)"

lemma getQuestionName_suffix:
  assumes "label_start (toLower q) off" and "drop off (toLower q) = Fqdn n" and "name_ok n" and "z_LabelCount z = CountLabel n"
  shows "\<exists>pre. toLower q = dots pre @ Fqdn n \<and> getQuestionName z q = Inr (join ''.'' pre)"
proof -
  from label_start_cut [OF assms(1)] assms(2) obtain pre where
    pre: "map toLower (labels_of q) = pre @ labels_of (Fqdn n)" "toLower q = dots pre @ Fqdn n"
    by (auto simp: labels_of_toLower dots_def)
  have F: "Fqdn n = n @ ''.''" "n \<noteq> []" using assms(3) by (simp_all add: name_ok_def Fqdn_def)
  have "2 \<le> length q"
  proof -
    have "length q = length (dots pre) + length (Fqdn n)" using arg_cong [OF pre(2), of length] by simp
    with F show ?thesis by (cases n) simp_all
  qed
  then have q: "q \<noteq> []" "q \<noteq> ''.''" by auto
  have "Fqdn n \<noteq> ''.''" using F by auto
  then have c: "z_LabelCount z = length (labels_of (Fqdn n))"
    using CountLabel_labels [of "Fqdn n"] CountLabel_Fqdn [OF F(2)] assms(4) by simp
  have len: "length (labels_of q) = length pre + length (labels_of (Fqdn n))"
    using arg_cong [OF pre(1), of length] by simp
  have "map toLower (take (length pre) (labels_of q)) = pre" using arg_cong [OF pre(1), of "take (length pre)"] by (simp add: take_map)
  with len c q have "getQuestionName z q = Inr (join ''.'' pre)"
    by (simp add: getQuestionName_def SplitDomainName_labels toLower_join Let_def)
  with pre(2) show ?thesis by blast
qed

lemma managed_route:
  assumes "mm_inv server_handler mm" and "mux_match (sv_mux (mm_reg mm)) q t = Some z"
  shows "registered_ok (mm_store mm) (z_Origin z) z \<and> map_of (Zones mm) (z_Origin z) = Some z \<and>
    (\<exists>pre. toLower q = dots pre @ Fqdn (z_Origin z) \<and> getQuestionName z q = Inr (join ''.'' pre))"
proof -
  note D = mm_invD [OF assms(1), unfolded server_handler_def]
  have "map_of (sv_mux (mm_reg mm)) ''.'' = None"
  proof (rule ccontr)
    assume "map_of (sv_mux (mm_reg mm)) ''.'' \<noteq> None"
    then obtain y where "map_of (sv_mux (mm_reg mm)) ''.'' = Some y" by blast
    from D(5) [OF this] have "''.'' = Fqdn (z_Origin y)" "z_Origin y \<noteq> []" "\<not> IsFqdn (z_Origin y)" by (simp_all add: name_ok_def)
    then show False by (cases "z_Origin y") (simp_all add: Fqdn_def)
  qed
  from mux_match_route [OF assms(2) this] obtain off where off: "label_start (toLower q) off"
    "map_of (sv_mux (mm_reg mm)) (drop off (toLower q)) = Some z" by blast
  from D(5) [OF off(2)] have n: "drop off (toLower q) = Fqdn (z_Origin z)" "name_ok (z_Origin z)" by simp_all
  with D(4) [OF n(2)] off(2) have m: "map_of (mm_zonelist mm) (z_Origin z) = Some z" by simp
  have r: "registered_ok (mm_store mm) (z_Origin z) z" by (rule D(2) [OF m])
  with getQuestionName_suffix [OF off(1) n, of z] m show ?thesis by (simp add: registered_ok_def Zones_def)
qed

section \<open>Answers\<close>

definition geo_total :: "geo_provider option \<Rightarrow> bool" where
  "geo_total gp \<longleftrightarrow> (\<forall>g ip. gp = Some g \<longrightarrow> go_ok (GetCountry g ip) \<and> go_ok (GetASN g ip) \<and> go_ok (GetLocation g ip))"

lemma GetTargets_total: "geo_total gp \<Longrightarrow> \<exists>r. GetTargets gp t ip c = Inr r"
proof -
  assume g: "geo_total gp"
  have "\<exists>r. getGeoTargets g t i c = Inr r" if "gp = Some g" for g i
  proof -
    from g that have "go_ok (GetCountry g i)" "go_ok (GetASN g i)" "go_ok (GetLocation g i)" by (simp_all add: geo_total_def)
    then obtain x y z where "GetCountry g i = Inr x" "GetASN g i = Inr y" "GetLocation g i = Inr z" by (auto simp: go_ok_iff)
    then show ?thesis by (auto simp: getGeoTargets_def split: prod.splits option.splits)
  qed
  note geo = this
  obtain ts i where ti: "(if has t TargetIP then ip_targets ip else ([], ip)) = (ts, i)" by (cases "if has t TargetIP then ip_targets ip else ([], ip)")
  show ?thesis
  proof (cases gp)
    case (Some g)
    then obtain r where "getGeoTargets g t i c = Inr r" using geo by blast
    with Some ti show ?thesis by (cases r) (simp add: GetTargets_def)
  qed (use ti in \<open>simp add: GetTargets_def\<close>)
qed

lemma answer_rrs_ok:
  "set rs \<subseteq> Some ` R \<Longrightarrow> \<exists>rrs. answer_rrs qn rs = Inr rrs \<and> set rrs \<subseteq> (\<lambda>r. set_name qn (rec_RR r)) ` R"
proof (induction rs)
  case (Cons r rs)
  then obtain x where x: "r = Some x" "x \<in> R" by auto
  from Cons obtain rrs where "answer_rrs qn rs = Inr rrs" "set rrs \<subseteq> (\<lambda>r. set_name qn (rec_RR r)) ` R" by auto
  with x show ?case by (simp add: answer_rrs_def)
qed (simp add: answer_rrs_def)

text \<open>The records of a zone, and the zones the handler can answer from.\<close>

definition zone_records :: "served_zone \<Rightarrow> zrecord set" where
  "zone_records z = (\<Union>l \<in> snd ` set (z_Labels z). label_records l)"

definition zone_servable :: "serve_env \<Rightarrow> served_zone \<Rightarrow> bool" where
  "zone_servable env z \<longleftrightarrow>
     aliases_ok z \<and> (\<forall>ts s. \<not> reaches_cycle (alias_edges z ts) s) \<and> (\<exists>soa. SoaRR z = Inr soa) \<and>
     (\<forall>l \<in> snd ` set (z_Labels z). \<forall>loc. label_pickable (se_health env) (se_angle env) loc l)"

lemma match_answers_ok:
  assumes "\<forall>(l, t) \<in> set ms. \<exists>l'. l = Some l' \<and> l' \<in> snd ` set (z_Labels z)" and "zone_servable env z" and "Answer m = []"
  shows "\<exists>as qle' rnd'. match_answers env qn ms loc m qle rnd = Some (Inr (m\<lparr>Answer := as\<rparr>, qle', rnd')) \<and>
    set as \<subseteq> (\<lambda>r. set_name qn (rec_RR r)) ` zone_records z"
  using assms(1)
proof (induction ms arbitrary: loc rnd)
  case Nil
  show ?case using assms(3) by (auto intro!: exI [of _ "[]"])
next
  case (Cons x ms)
  then obtain l t where x: "x = (Some l, t)" and l: "l \<in> snd ` set (z_Labels z)" by (cases x) auto
  let ?loc = "if lb_Closest l then loc else None"
  have "label_pickable (se_health env) (se_angle env) ?loc l" using assms(2) l unfolding zone_servable_def by blast
  from Picker_safe [OF this, of t rnd] obtain r rnd1 where
    p: "Picker (se_health env) (se_angle env) l t (lb_MaxHosts l) ?loc rnd = Some (Inr (r, rnd1))"
    and r: "\<forall>xs. r = Some xs \<longrightarrow> set xs \<subseteq> Some ` label_records l" by (auto simp: pick_safe_def)
  have sub: "label_records l \<subseteq> zone_records z" using l by (auto simp: zone_records_def)
  have rest: "\<exists>as qle' rnd'. match_answers env qn ms ?loc m qle rnd1 = Some (Inr (m\<lparr>Answer := as\<rparr>, qle', rnd')) \<and>
    set as \<subseteq> (\<lambda>r. set_name qn (rec_RR r)) ` zone_records z" using Cons by simp
  show ?case
  proof (cases r)
    case None
    with p rest show ?thesis by (simp add: x Let_def assms(3))
  next
    case (Some xs)
    with r have "set xs \<subseteq> Some ` label_records l" by simp
    from answer_rrs_ok [OF this, of qn] obtain rrs where rrs: "answer_rrs qn xs = Inr rrs"
      "set rrs \<subseteq> (\<lambda>r. set_name qn (rec_RR r)) ` label_records l" by blast
    have e: "m\<lparr>Answer := []\<rparr> = m" using assms(3) by simp
    show ?thesis
    proof (cases "rrs = []")
      case True
      with Some p rrs(1)
      have "match_answers env qn (x # ms) loc m qle rnd = match_answers env qn ms ?loc m qle rnd1"
        by (simp add: x Let_def) (simp only: e simp_thms)
      with rest show ?thesis by simp
    next
      case False
      with Some p rrs(1) have "\<exists>qle'. match_answers env qn (x # ms) loc m qle rnd = Some (Inr (m\<lparr>Answer := rrs\<rparr>, qle', rnd1))"
        by (simp add: x Let_def)
      moreover have "set rrs \<subseteq> (\<lambda>r. set_name qn (rec_RR r)) ` zone_records z" using rrs(2) sub by blast
      ultimately show ?thesis by blast
    qed
  qed
qed

lemma stats_Add_ok:
  assumes "metrics_ok st z"
  shows "\<exists>st'. stats_Add (zm_LabelStats (z_Metrics z)) l st = Inr st' \<and> metrics_ok st' z \<and> length st' = length st"
    "\<exists>st'. stats_Add (zm_ClientStats (z_Metrics z)) l st = Inr st' \<and> metrics_ok st' z \<and> length st' = length st"
proof -
  from assms obtain a b where ab: "z_Metrics z = \<lparr>zm_LabelStats = Some a, zm_ClientStats = Some b\<rparr>" "a < length st" "b < length st"
    "ring_open (st ! a)" "ring_open (st ! b)" by (rule metrics_okE)
  have upd: "metrics_ok (st[r := zs]) z" if "ring_open zs" for r zs
    using that ab by (cases "r < length st") (simp_all add: metrics_ok_def nth_list_update)
  from zs_Add_open [OF ab(4), of l] zs_Add_open [OF ab(5), of l] upd ab(1)
  show "\<exists>st'. stats_Add (zm_LabelStats (z_Metrics z)) l st = Inr st' \<and> metrics_ok st' z \<and> length st' = length st"
    "\<exists>st'. stats_Add (zm_ClientStats (z_Metrics z)) l st = Inr st' \<and> metrics_ok st' z \<and> length st' = length st"
    by (auto simp: stats_Add_def)
qed

section \<open>Replies\<close>

text \<open>A reply under construction, and a reply as the handler sends it: authoritative, to the question, with
  answers or the SOA record of the zone, or a name error with nothing but the SOA record.\<close>

definition draft_ok :: "msg \<Rightarrow> question \<Rightarrow> msg \<Rightarrow> bool" where
  "draft_ok req q m \<longleftrightarrow> Id m = Id req \<and> Response m \<and> Authoritative m \<and> Question m = [q] \<and> Rcode m = RcodeSuccess \<and>
     Answer m = [] \<and> Ns m = []"

definition reply_ok :: "served_zone \<Rightarrow> msg \<Rightarrow> question \<Rightarrow> msg \<Rightarrow> bool" where
  "reply_ok z req q m \<longleftrightarrow> Id m = Id req \<and> Response m \<and> Authoritative m \<and> Question m = [q] \<and>
     (\<exists>soa. SoaRR z = Inr soa \<and>
        (Rcode m = RcodeSuccess \<and> (Answer m \<noteq> [] \<or> Ns m = [soa]) \<or> Rcode m = RcodeNameError \<and> Answer m = [] \<and> Ns m = [soa]))"

lemma SetReply_question: "Question req = q # qs \<Longrightarrow> Question (SetReply m req) = [q]"
  by (simp add: SetReply_def Let_def)

lemma draft_begin: "Question req = q # qs \<Longrightarrow> draft_ok req q (begin_reply req)"
  by (simp add: begin_reply_def draft_ok_def IsEdns0_def new_msg_def SetReply_question Let_def)

lemma draft_subnet: "draft_ok req q m \<Longrightarrow> draft_ok req q (reply_subnet ec netmask extra m)"
  by (auto simp: reply_subnet_def draft_ok_def Let_def split: option.split)

definition debug_name :: "string \<Rightarrow> bool" where
  "debug_name qlabel \<longleftrightarrow> first_label qlabel \<in> {''_status'', ''_health'', ''_country''}"

lemma no_match_reply_ok:
  assumes "draft_ok req q m" and "Question req = q # qs" and "SoaRR z = Inr soa" and "geo_total (se_geo env)"
  shows "\<exists>m' nx. no_match_reply env srv w req z qn qtype qlabel realIP ip m = Inr (m', nx) \<and> reply_ok z req q m' \<and>
    (\<not> debug_name qlabel \<longrightarrow> Rcode m' = RcodeNameError)"
proof -
  obtain t n l i where "GetTargets (se_geo env) (zo_Targeting (z_Options z)) ip (z_HasClosest z) = Inr (t, n, l, i)"
    using GetTargets_total [OF assms(4)] by (metis prod_cases4)
  then have c: "\<exists>rr. countryRR env srv w z qn ip = Inr [rr]" by (simp add: countryRR_def)
  have soa: "add_soa z m = Inr (m\<lparr>Ns := [soa]\<rparr>)" using assms(1,3) by (simp add: add_soa_def draft_ok_def)
  let ?s = "sv_PublicDebugQueries srv \<or> IsLoopback realIP"
  consider "?s \<and> first_label qlabel = ''_status''" | "?s \<and> first_label qlabel = ''_health''" | "first_label qlabel = ''_country''"
    | "\<not> (?s \<and> first_label qlabel = ''_status'')" "\<not> (?s \<and> first_label qlabel = ''_health'')" "first_label qlabel \<noteq> ''_country''" by argo
  then show ?thesis
  proof cases
    case 1
    with soa assms(1,3) show ?thesis
      by (auto simp: no_match_reply_def Let_def statusRR_def reply_ok_def draft_ok_def debug_name_def)
  next
    case 2
    with soa assms(1,3) show ?thesis
      by (auto simp: no_match_reply_def Let_def HealthRR_def reply_ok_def draft_ok_def debug_name_def)
  next
    case 3
    with soa c assms(1,3) show ?thesis
      by (auto simp: no_match_reply_def Let_def reply_ok_def draft_ok_def debug_name_def)
  next
    case 4
    with assms(1-3) show ?thesis
      by (auto simp: no_match_reply_def Let_def reply_ok_def draft_ok_def SetRcode_def SetReply_question)
  qed
qed

lemma log_query_mux [simp]: "sv_mux (log_query m q srv) = sv_mux srv" "sv_mux (count_query l srv) = sv_mux srv"
  by (simp_all add: log_query_def count_query_def split: option.split)

text \<open>What a query leaves behind: one reply, followed by a server failure when it could not be written.\<close>

definition replied :: "response_writer \<Rightarrow> msg \<Rightarrow> serve_state \<Rightarrow> serve_state \<Rightarrow> msg \<Rightarrow> bool" where
  "replied w req st st' m \<longleftrightarrow>
     sv_mux (ss_srv st') = sv_mux (ss_srv st) \<and>
     (ss_written st' = ss_written st @ [m] \<or>
      rw_WriteMsg w m \<noteq> None \<and> ss_written st' = ss_written st @ [m, HandleFailed req])"

lemma answer_query_ok:
  assumes "zone_servable env z" and "geo_total (se_geo env)" and "qtype \<noteq> TypeANY"
    and ms: "FindLabels (se_stack env) z qlabel targets [TypeMF, TypeCNAME, qtype] = Inr ms"
    and m: "draft_ok req q m" and q: "Question req = q # qs"
  shows "\<exists>st' m'. answer_query env w req z qn qtype qlabel realIP ip targets location m qle st = Some (Inr st') \<and>
    ss_store st' = ss_store st \<and> replied w req st st' m' \<and> reply_ok z req q m' \<and>
    (if ms = [] then \<not> debug_name qlabel \<longrightarrow> Rcode m' = RcodeNameError
     else Rcode m' = RcodeSuccess \<and> set (Answer m') \<subseteq> (\<lambda>r. set_name qn (rec_RR r)) ` zone_records z)"
proof -
  obtain soa where soa: "SoaRR z = Inr soa" using assms(1) by (auto simp: zone_servable_def)
  show ?thesis
  proof (cases "ms = []")
    case True
    from no_match_reply_ok [OF m q soa assms(2), of "ss_srv st" w qn qtype qlabel realIP ip] obtain m' nx where
      m': "no_match_reply env (ss_srv st) w req z qn qtype qlabel realIP ip m = Inr (m', nx)" "reply_ok z req q m'"
      "\<not> debug_name qlabel \<longrightarrow> Rcode m' = RcodeNameError" by blast
    have "\<exists>st'. answer_query env w req z qn qtype qlabel realIP ip targets location m qle st = Some (Inr st') \<and>
        ss_store st' = ss_store st \<and> replied w req st st' m'"
      using True ms m'(1) by (simp add: answer_query_def replied_def write_msg_def Let_def)
    with True m'(2,3) show ?thesis by auto
  next
    case False
    have "list_all (match_ok z [TypeMF, TypeCNAME, qtype]) ms" by (rule FindLabels_sound [OF ms])
    then have lm: "\<forall>(l, t) \<in> set ms. \<exists>l'. l = Some l' \<and> l' \<in> snd ` set (z_Labels z)"
      using assms(3) by (fastforce simp: list_all_iff match_ok_def rrtype_defs split: option.splits)
    have "Answer m = []" using m by (simp add: draft_ok_def)
    from match_answers_ok [OF lm assms(1) this, of qn location qle "ss_rnd st"] obtain as qle' rnd' where
      a: "match_answers env qn ms location m qle (ss_rnd st) = Some (Inr (m\<lparr>Answer := as\<rparr>, qle', rnd'))"
      "set as \<subseteq> (\<lambda>r. set_name qn (rec_RR r)) ` zone_records z" by blast
    define m1 where "m1 = (if as = [] then m\<lparr>Answer := as, Ns := [soa]\<rparr> else m\<lparr>Answer := as\<rparr>)"
    have "\<exists>st'. finish_reply env w req z qtype qlabel (m\<lparr>Answer := as\<rparr>) qle' (st\<lparr>ss_rnd := rnd'\<rparr>) = Inr st' \<and>
        ss_store st' = ss_store st \<and> replied w req st st' m1"
      using m soa by (auto simp: finish_reply_def add_soa_def draft_ok_def write_msg_def replied_def m1_def Let_def split: option.split)
    then obtain st' where st': "answer_query env w req z qn qtype qlabel realIP ip targets location m qle st = Some (Inr st')"
      "ss_store st' = ss_store st" "replied w req st st' m1"
      using False ms a(1) by (auto simp: answer_query_def)
    have "reply_ok z req q m1" "Rcode m1 = RcodeSuccess" "Answer m1 = as"
      using m soa by (auto simp: reply_ok_def draft_ok_def m1_def)
    with st' a(2) False show ?thesis by (intro exI [of _ st'] exI [of _ m1]) simp
  qed
qed

lemma FindLabels_unknown:
  assumes "\<forall>g. map_of (z_Labels z) (target_name s g) = None"
  shows "FindLabels (Suc d) z s ts qts = Inr []"
proof -
  have "go_fold (find_target rec z s qts) ts [] = Inr []" for rec
    using assms by (induction ts) (simp_all add: find_target_def)
  moreover have "map_of (z_Labels z) s = None" using assms [rule_format, of "''@''"] by (simp add: target_name_def)
  ultimately show ?thesis by (simp add: no_match_fallback_def)
qed

lemma client_targets_ok:
  assumes "geo_total (se_geo env)" and "Question req = q # qs"
  shows "\<exists>realIP' ip ts location m qle'. client_targets env req z realIP qle = Inr (realIP', ip, ts, location, m, qle') \<and> draft_ok req q m"
proof -
  define ec where "ec = fold scan_extra (enumerate 0 (Extra req)) \<lparr>ec_ip = [], ec_edns = None, ec_opt_rr = None, ec_qle = qle\<rparr>"
  obtain ts netmask location ip where
    t: "GetTargets (se_geo env) (zo_Targeting (z_Options z)) (if length (ec_ip ec) = 0 then realIP else ec_ip ec) (z_HasClosest z) =
      Inr (ts, netmask, location, ip)"
    using GetTargets_total [OF assms(1)] by (metis prod_cases4)
  show ?thesis unfolding client_targets_def ec_def [symmetric] Let_def t
    using draft_subnet [OF draft_begin [OF assms(2)]] by (simp del: length_0_conv)
qed

lemma begin_query_ok:
  assumes "geo_total (se_geo env)" and "metrics_ok (ss_store st) z" and "getQuestionName z qn = Inr qlabel" and "Question req = q # qs"
  shows "\<exists>store realIP ip ts location m qle. begin_query env w req z qn qtype st = Inr (qlabel, store, realIP, ip, ts, location, m, qle) \<and>
    metrics_ok store z \<and> draft_ok req q m"
proof -
  let ?real = "case ra_IP (rw_RemoteAddr w) of None \<Rightarrow> [] | Some a \<Rightarrow> a"
  from stats_Add_ok(1) [OF assms(2), of qlabel] obtain st1 where
    st1: "stats_Add (zm_LabelStats (z_Metrics z)) qlabel (ss_store st) = Inr st1" "metrics_ok st1 z" by blast
  from stats_Add_ok(2) [OF st1(2), of "IP_String ?real"] obtain st2 where
    st2: "stats_Add (zm_ClientStats (z_Metrics z)) (IP_String ?real) st1 = Inr st2" "metrics_ok st2 z" by blast
  let ?qle = "map_option (\<lambda>q. q\<lparr>qe_RemoteAddr := IP_String ?real\<rparr>)
    (case sv_queryLogger (ss_srv st) of None \<Rightarrow> None | Some _ \<Rightarrow> Some (new_entry env z qn qtype))"
  from client_targets_ok [OF assms(1,4), of z ?real ?qle] obtain realIP' ip ts location m qle' where
    "client_targets env req z ?real ?qle = Inr (realIP', ip, ts, location, m, qle')" "draft_ok req q m" by blast
  with st1(1) st2 assms(3) show ?thesis by (simp add: begin_query_def Let_def)
qed

lemma begin_query_stack: "begin_query (env\<lparr>se_stack := k\<rparr>) w req z qn qtype st = begin_query env w req z qn qtype st"
proof -
  have c: "client_targets (env\<lparr>se_stack := k\<rparr>) = client_targets env" by (intro ext) (simp add: client_targets_def)
  have n: "new_entry (env\<lparr>se_stack := k\<rparr>) = new_entry env" by (intro ext) (simp add: new_entry_def)
  show ?thesis unfolding begin_query_def c n ..
qed

text \<open>The code of the reply to a question for the label \<open>ql\<close>: a name error when the zone has no label for any
  target, success with records of the zone when the label exists.\<close>

definition code_ok :: "served_zone \<Rightarrow> string \<Rightarrow> string \<Rightarrow> msg \<Rightarrow> bool" where
  "code_ok z ql qn m \<longleftrightarrow>
     ((\<forall>g. map_of (z_Labels z) (target_name ql g) = None) \<longrightarrow> \<not> debug_name ql \<longrightarrow> Rcode m = RcodeNameError) \<and>
     (map_of (z_Labels z) ql \<noteq> None \<longrightarrow>
        Rcode m = RcodeSuccess \<and> set (Answer m) \<subseteq> (\<lambda>r. set_name qn (rec_RR r)) ` zone_records z)"

lemma code_okI:
  assumes ms: "FindLabels d z ql ts qts = Inr ms"
    and m: "if ms = [] then \<not> debug_name ql \<longrightarrow> Rcode m = RcodeNameError
      else Rcode m = RcodeSuccess \<and> set (Answer m) \<subseteq> (\<lambda>r. set_name qn (rec_RR r)) ` zone_records z"
  shows "code_ok z ql qn m"
proof -
  have "ms = []" if "\<forall>g. map_of (z_Labels z) (target_name ql g) = None"
    using ms FindLabels_unknown [OF that] by (cases d) auto
  moreover have "ms \<noteq> []" if "map_of (z_Labels z) ql \<noteq> None" using that FindLabels_label_found [OF ms] by auto
  ultimately show ?thesis using m by (simp add: code_ok_def)
qed

text \<open>The whole handler for a zone that can be served: from some depth of the stack on it returns.\<close>

lemma serve_labels_ok:
  assumes "zone_servable env z" and "geo_total (se_geo env)" and "qtype \<noteq> TypeANY" and "metrics_ok (ss_store st) z"
    and "getQuestionName z qn = Inr qlabel" and "Question req = q # qs"
  shows "\<exists>d. \<forall>stack \<ge> d. \<exists>st' m. serve_labels (env\<lparr>se_stack := stack\<rparr>) w req z qn qtype st = Some (Inr st') \<and>
    metrics_ok (ss_store st') z \<and> replied w req st st' m \<and> reply_ok z req q m \<and> code_ok z qlabel qn m"
proof -
  obtain store realIP ip ts location m qle where
    b: "begin_query env w req z qn qtype st = Inr (qlabel, store, realIP, ip, ts, location, m, qle)" "metrics_ok store z" "draft_ok req q m"
    using begin_query_ok [OF assms(2,4,5,6)] by metis
  obtain d ms where ms: "FindLabels d z qlabel ts [TypeMF, TypeCNAME, qtype] = Inr ms"
    using assms(1) FindLabels_returns unfolding zone_servable_def by metis
  have "\<exists>st' m. serve_labels (env\<lparr>se_stack := stack\<rparr>) w req z qn qtype st = Some (Inr st') \<and>
    metrics_ok (ss_store st') z \<and> replied w req st st' m \<and> reply_ok z req q m \<and> code_ok z qlabel qn m" if "d \<le> stack" for stack
  proof -
    let ?env = "env\<lparr>se_stack := stack\<rparr>"
    have f: "FindLabels (se_stack ?env) z qlabel ts [TypeMF, TypeCNAME, qtype] = Inr ms" using FindLabels_mono [OF ms that] by simp
    have "zone_servable ?env z" "geo_total (se_geo ?env)" using assms(1,2) by (simp_all add: zone_servable_def)
    from answer_query_ok [OF this assms(3) f b(3) assms(6), of w qn realIP ip location qle "st\<lparr>ss_store := store\<rparr>"]
    obtain st' m' where m': "answer_query ?env w req z qn qtype qlabel realIP ip ts location m qle (st\<lparr>ss_store := store\<rparr>) = Some (Inr st')"
      "ss_store st' = store" "replied w req (st\<lparr>ss_store := store\<rparr>) st' m'" "reply_ok z req q m'"
      "if ms = [] then \<not> debug_name qlabel \<longrightarrow> Rcode m' = RcodeNameError
       else Rcode m' = RcodeSuccess \<and> set (Answer m') \<subseteq> (\<lambda>r. set_name qn (rec_RR r)) ` zone_records z" by auto
    have "serve_labels ?env w req z qn qtype st = Some (Inr st')" using m'(1) by (simp add: serve_labels_def begin_query_stack b(1))
    with m' b(2) code_okI [OF f m'(5)] show ?thesis by (intro exI [of _ st'] exI [of _ m']) (simp add: replied_def)
  qed
  then show ?thesis by blast
qed

text \<open>The same between the steps of a reload, for a zone that is not being removed.\<close>

lemma moment_route:
  assumes "moment ext server_api (NewServer si) ph mm" and "mux_match (sv_mux (mm_reg mm)) q t = Some z" and "closing ph \<noteq> Some (z_Origin z)"
  shows "metrics_ok (mm_store mm) z \<and> (\<exists>pre. toLower q = dots pre @ Fqdn (z_Origin z) \<and> getQuestionName z q = Inr (join ''.'' pre))"
proof (rule phase_inv_base [OF srv.moment_inv [OF assms(1) NewServer_handler]])
  fix mm0 assume mm0: "mm_inv server_handler mm0" "mm_reg mm = mm_reg mm0" "mm_zonelist mm = mm_zonelist mm0"
    and rings: "\<And>n z. map_of (mm_zonelist mm) n = Some z \<Longrightarrow> closing ph \<noteq> Some n \<Longrightarrow> metrics_ok (mm_store mm) z"
  from managed_route [OF mm0(1) assms(2) [unfolded mm0(2)]] rings [of "z_Origin z" z] assms(3) show ?thesis
    by (auto simp: Zones_def mm0(3))
qed

text \<open>The composition: a query the multiplexer of a managed server routes to a zone.\<close>

lemma ServeDNS_ok:
  assumes "moment ext server_api (NewServer si) ph mm" and "sv_mux (ss_srv st) = sv_mux (mm_reg mm)" and "ss_store st = mm_store mm"
    and "Question req = q # qs" and "mux_match (sv_mux (ss_srv st)) (Qname q) (Qtype q) = Some z"
    and "zone_servable env z" and "geo_total (se_geo env)" and "Qtype q \<noteq> TypeANY" and "\<not> (Qtype q = TypeA \<and> z_ParseIP z)"
    and "closing ph \<noteq> Some (z_Origin z)"
  shows "\<exists>pre d. toLower (Qname q) = dots pre @ Fqdn (z_Origin z) \<and> (\<forall>stack \<ge> d. \<exists>st' m.
    ServeDNS (env\<lparr>se_stack := stack\<rparr>) w req st = Some (Inr st') \<and> replied w req st st' m \<and> reply_ok z req q m \<and>
    metrics_ok (ss_store st') z \<and> code_ok z (join ''.'' pre) (Qname q) m)"
proof -
  from moment_route [OF assms(1) assms(5) [unfolded assms(2)] assms(10)] obtain pre where
    pre: "toLower (Qname q) = dots pre @ Fqdn (z_Origin z)" "getQuestionName z (Qname q) = Inr (join ''.'' pre)"
      "metrics_ok (ss_store st) z" by (auto simp: assms(3))
  have "ServeDNS env' w req st = serve_labels env' w req z (Qname q) (Qtype q) st" for env'
    using assms(4,5,9) by (auto simp: ServeDNS_def serve_def Let_def)
  with serve_labels_ok [OF assms(6-8) pre(3,2) assms(4), of w] pre(1) show ?thesis by fastforce
qed

section \<open>Queries of type ANY\<close>

lemma FindLabels_any:
  assumes "\<forall>g \<in> set ts. \<forall>l. map_of (z_Labels z) (target_name s g) = Some l \<longrightarrow>
      map_of (lb_Records l) TypeMF = None \<and> \<not> has_records l TypeCNAME"
    and "map_of (z_Labels z) s = None"
  shows "FindLabels (Suc d) z s ts [TypeMF, TypeCNAME, TypeANY] =
    Inr (map (\<lambda>g. (None, TypeANY)) (filter (\<lambda>g. map_of (z_Labels z) (target_name s g) \<noteq> None) ts))"
proof -
  have "go_fold (find_target rec z s [TypeMF, TypeCNAME, TypeANY]) ts ms =
      Inr (ms @ map (\<lambda>g. (None, TypeANY)) (filter (\<lambda>g. map_of (z_Labels z) (target_name s g) \<noteq> None) ts))" for rec ms
    using assms(1)
  proof (induction ts arbitrary: ms)
    case (Cons g ts)
    then show ?case
      using assms(2) by (cases "map_of (z_Labels z) (target_name s g)")
        (simp_all add: find_target_def find_qtype_def rrtype_distinct)
  qed simp
  then show ?thesis using assms(2) by (simp add: no_match_fallback_def)
qed

text \<open>C36. A query of type ANY for a name that the zone only has for a target of the client (\<open>www.europe\<close>
  without \<open>www\<close>) makes the server panic: the search returns the label of the bare name, which is nil. The labels for the targets
  have neither alias nor CNAME records, which the search would match before ANY.\<close>

theorem any_query_panics:
  assumes "Question req = q # qs" and "Qtype q = TypeANY"
    and "begin_query env w req z (Qname q) TypeANY st = Inr (ql, store, realIP, ip, ts, location, m, qle)"
    and "\<forall>g \<in> set ts. \<forall>l. map_of (z_Labels z) (target_name ql g) = Some l \<longrightarrow>
      map_of (lb_Records l) TypeMF = None \<and> \<not> has_records l TypeCNAME"
    and "map_of (z_Labels z) ql = None" and "g \<in> set ts" and "map_of (z_Labels z) (target_name ql g) \<noteq> None" and "0 < se_stack env"
  shows "serve env w req z st = Some (Inl NilDeref)"
proof -
  let ?gs = "filter (\<lambda>g. map_of (z_Labels z) (target_name ql g) \<noteq> None) ts"
  from assms(8) obtain d where "se_stack env = Suc d" by (cases "se_stack env") auto
  with FindLabels_any [OF assms(4,5)]
  have f: "FindLabels (se_stack env) z ql ts [TypeMF, TypeCNAME, TypeANY] = Inr (map (\<lambda>g. (None, TypeANY)) ?gs)" by simp
  have "g \<in> set ?gs" using assms(6,7) by simp
  then obtain h hs where "?gs = h # hs" by (metis list.set_cases)
  with f have "answer_query env w req z (Qname q) TypeANY ql realIP ip ts location m qle st' = Some (Inl NilDeref)" for st'
    by (simp add: answer_query_def)
  with assms(1-3) show ?thesis by (simp add: serve_def serve_labels_def rrtype_defs Let_def)
qed

section \<open>Addresses in names\<close>

lemma dashed_label:
  "first_label (replace_char (CHR ''.'') (CHR ''-'') s @ CHR ''.'' # rest) = replace_char (CHR ''.'') (CHR ''-'') s"
proof -
  have "CHR ''.'' \<notin> set (replace_char (CHR ''.'') (CHR ''-'') s)" by (auto simp: replace_char_def)
  then show ?thesis by (simp add: first_label_def split_on_append_sep)
qed

lemma undash: "CHR ''-'' \<notin> set s \<Longrightarrow> replace_char (CHR ''-'') (CHR ''.'') (replace_char (CHR ''.'') (CHR ''-'') s) = s"
  by (induction s) (auto simp: replace_char_def)

lemma getIPFromDomain_dashed:
  assumes "length p = 4"
  shows "getIPFromDomain (replace_char (CHR ''.'') (CHR ''-'') (dotted p) @ CHR ''.'' # rest) = Some (v4InV6Prefix @ p)"
proof -
  have "CHR ''-'' \<notin> set (dotted p)"
    unfolding dotted_def by (rule join_no_char) (auto dest: utoa_chars simp: is_digit_def)
  then show ?thesis by (simp add: getIPFromDomain_def dashed_label undash ParseIP_dotted [OF assms])
qed

text \<open>C35. In a zone with \<open>parseIP\<close> every IPv4 address has a name: an A query for the address with dashes for
  dots, under any domain, is answered with exactly that address.\<close>

theorem parse_ip_roundtrip:
  assumes "Question req = q # qs" and "Qtype q = TypeA" and "z_ParseIP z" and "length p = 4"
    and "Qname q = replace_char (CHR ''.'') (CHR ''-'') (dotted p) @ CHR ''.'' # rest"
  shows "\<exists>m h. serve env w req z st = Some (Inr (write_msg m st)) \<and> Rcode m = RcodeSuccess \<and> Question m = [q] \<and>
    Answer m = [RR_A h (v4InV6Prefix @ p)] \<and> Name h = Qname q"
  using assms(1-3) getIPFromDomain_dashed [OF assms(4), of rest, folded assms(5)]
  by (intro exI [of _ "parse_ip_reply req (Qname q)"]) (simp add: serve_def parse_ip_reply_def SetReply_question Let_def)

text \<open>In a zone with \<open>parseIP\<close> a name that is not an address is not an error for the client: the answer is a
  success with an A record that has no address.\<close>

theorem parse_ip_bad_name:
  assumes "Question req = q # qs" and "Qtype q = TypeA" and "z_ParseIP z" and "getIPFromDomain (Qname q) = None"
  shows "\<exists>m h. serve env w req z st = Some (Inr (write_msg m st)) \<and> Rcode m = RcodeSuccess \<and> Answer m = [RR_A h []] \<and> Name h = Qname q"
  using assms by (intro exI [of _ "parse_ip_reply req (Qname q)"]) (simp add: serve_def parse_ip_reply_def Let_def)

section \<open>Queries for no zone\<close>

text \<open>A query for a name under none of the zones of the manager is failed by the multiplexer of the server.
  The handler that \<open>setupRootZone\<close> installs to refuse such queries sits in another multiplexer.\<close>

theorem unrouted_query_fails:
  assumes "managed ext server_api (NewServer si) mm" and "sv_mux (ss_srv st) = sv_mux (mm_reg mm)" and "Question req = q # qs"
    and "\<forall>n \<in> set (keys (Zones mm)). \<forall>pre. toLower (Qname q) \<noteq> dots pre @ Fqdn n"
  shows "ServeDNS env w req st = Some (Inr (write_msg (HandleFailed req) st)) \<and> Rcode (HandleFailed req) = RcodeServerFailure \<and>
    (\<exists>mux. setupRootZone [] = Inr mux \<and> mux_match mux (Qname q) (Qtype q) = Some refuse)"
proof -
  have "mux_match (sv_mux (ss_srv st)) (Qname q) (Qtype q) = None"
  proof (rule ccontr)
    assume "mux_match (sv_mux (ss_srv st)) (Qname q) (Qtype q) \<noteq> None"
    then obtain z where "mux_match (sv_mux (mm_reg mm)) (Qname q) (Qtype q) = Some z" by (auto simp: assms(2))
    from managed_route [OF srv.managed_inv [OF assms(1) NewServer_handler] this] obtain pre where
      "map_of (Zones mm) (z_Origin z) = Some z" "toLower (Qname q) = dots pre @ Fqdn (z_Origin z)" by blast
    with assms(4) map_of_eq_None_keys [of "Zones mm" "z_Origin z"] show False by fastforce
  qed
  then have "ServeDNS env w req st = Some (Inr (write_msg (HandleFailed req) st))" by (simp add: ServeDNS_def assms(3))
  moreover have "mux_match [(''.'', refuse)] (Qname q) (Qtype q) = Some refuse"
    using match_loop_Inl [of "[(''.'', refuse)]" "toLower (Qname q)" "Qtype q" 0 None] label_start.start
    by (auto simp: mux_match_def split: sum.split if_splits)
  ultimately show ?thesis by (simp add: setupRootZone_def mux_Handle_def Fqdn_def HandleFailed_def SetRcode_def)
qed

section \<open>Concrete queries\<close>

definition sample_env :: serve_env where
  "sample_env = \<lparr>se_geo = Some sample_provider, se_health = [], se_angle = (\<lambda>_ _. 0), se_stack = 4, se_now = 0, se_uptime = 7,
     se_hostname = None, se_TypeToString = (\<lambda>_. ''T''), se_RcodeToString = (\<lambda>_. ''R'')\<rparr>"

definition sample_writer :: response_writer where
  "sample_writer = \<lparr>rw_RemoteAddr = \<lparr>ra_IP = None, ra_String = ''pipe''\<rparr>, rw_WriteMsg = (\<lambda>_. None)\<rparr>"

definition sample_query :: "string \<Rightarrow> uint16 \<Rightarrow> msg" where
  "sample_query n t = new_msg\<lparr>Question := [\<lparr>Qname = n, Qtype = t, Qclass = ClassINET\<rparr>]\<rparr>"

definition sample_ring :: zoneLabelStats where
  "sample_ring = \<lparr>zs_pos = 0, zs_rotated = False, zs_log = [[], []]\<rparr>"

definition sample_state :: "server \<Rightarrow> stats_store \<Rightarrow> serve_state" where
  "sample_state srv store = \<lparr>ss_srv = srv, ss_store = store, ss_rnd = ((\<lambda>_. 0), 0), ss_written = []\<rparr>"

definition any_zone :: served_zone where
  "any_zone = (sample_zone [(''www.us'', [(TypeTXT, [sample_rec (RR_TXT (sample_rr TypeTXT) [''hello''])])])])
     \<lparr>z_Metrics := \<lparr>zm_LabelStats = Some 0, zm_ClientStats = Some 1\<rparr>\<rparr>"

lemma any_zone_query:
  "\<exists>store realIP ip location m qle.
     begin_query sample_env sample_writer (sample_query ''www.example.com.'' TypeANY) any_zone ''www.example.com.'' TypeANY
       (sample_state (NewServer sample_info) [sample_ring, sample_ring]) =
     Inr (''www'', store, realIP, ip, [''us'', ''north-america'', ''@''], location, m, qle)"
proof -
  have "(case begin_query sample_env sample_writer (sample_query ''www.example.com.'' TypeANY) any_zone ''www.example.com.'' TypeANY
       (sample_state (NewServer sample_info) [sample_ring, sample_ring]) of
     Inl _ \<Rightarrow> False | Inr (ql, store, realIP, ip, ts, r) \<Rightarrow> ql = ''www'' \<and> ts = [''us'', ''north-america'', ''@''])" by code_simp
  then show ?thesis by (auto split: sum.splits)
qed

theorem any_query_panics_witness:
  "serve sample_env sample_writer (sample_query ''www.example.com.'' TypeANY) any_zone
     (sample_state (NewServer sample_info) [sample_ring, sample_ring]) = Some (Inl NilDeref)"
proof -
  obtain store realIP ip location m qle where b:
    "begin_query sample_env sample_writer (sample_query ''www.example.com.'' TypeANY) any_zone ''www.example.com.'' TypeANY
       (sample_state (NewServer sample_info) [sample_ring, sample_ring]) =
     Inr (''www'', store, realIP, ip, [''us'', ''north-america'', ''@''], location, m, qle)" using any_zone_query by blast
  let ?q = "\<lparr>Qname = ''www.example.com.'', Qtype = TypeANY, Qclass = ClassINET\<rparr>"
  have q: "Question (sample_query ''www.example.com.'' TypeANY) = [?q]" by (simp add: sample_query_def)
  have b': "begin_query sample_env sample_writer (sample_query ''www.example.com.'' TypeANY) any_zone (Qname ?q) TypeANY
       (sample_state (NewServer sample_info) [sample_ring, sample_ring]) =
     Inr (''www'', store, realIP, ip, [''us'', ''north-america'', ''@''], location, m, qle)" using b by simp
  show ?thesis
    by (rule any_query_panics [OF q _ b', where g = "''us''"])
      (simp_all add: any_zone_def sample_zone_def sample_label_def target_name_def NewZone_def sample_env_def has_records_def rrtype_defs)
qed

definition ip_zone :: served_zone where
  "ip_zone = (NewZone ''ipv4.example.com'')\<lparr>z_ParseIP := True\<rparr>"

theorem parse_ip_roundtrip_witness:
  "\<exists>m h. serve sample_env sample_writer (sample_query ''10-0-0-1.ipv4.example.com.'' TypeA) ip_zone (sample_state (NewServer sample_info) []) =
       Some (Inr (write_msg m (sample_state (NewServer sample_info) []))) \<and>
     Answer m = [RR_A h (v4InV6Prefix @ [10, 0, 0, 1])]"
proof -
  have d: "''10-0-0-1.ipv4.example.com.'' = replace_char (CHR ''.'') (CHR ''-'') (dotted [10, 0, 0, 1]) @ CHR ''.'' # ''ipv4.example.com.''"
    by code_simp
  have "\<exists>m h. serve sample_env sample_writer (sample_query ''10-0-0-1.ipv4.example.com.'' TypeA) ip_zone (sample_state (NewServer sample_info) []) =
       Some (Inr (write_msg m (sample_state (NewServer sample_info) []))) \<and>
     Rcode m = RcodeSuccess \<and> Question m = [\<lparr>Qname = ''10-0-0-1.ipv4.example.com.'', Qtype = TypeA, Qclass = ClassINET\<rparr>] \<and>
     Answer m = [RR_A h (v4InV6Prefix @ [10, 0, 0, 1])] \<and> Name h = Qname \<lparr>Qname = ''10-0-0-1.ipv4.example.com.'', Qtype = TypeA, Qclass = ClassINET\<rparr>"
    by (rule parse_ip_roundtrip [where qs = "[]" and rest = "''ipv4.example.com.''"])
      (simp_all add: sample_query_def ip_zone_def d [symmetric])
  then show ?thesis by blast
qed

theorem parse_ip_bad_name_witness:
  "\<exists>m h. serve sample_env sample_writer (sample_query ''nope.example.com.'' TypeA) ip_zone (sample_state (NewServer sample_info) []) =
     Some (Inr (write_msg m (sample_state (NewServer sample_info) []))) \<and> Rcode m = RcodeSuccess \<and> Answer m = [RR_A h []]"
proof -
  have "getIPFromDomain ''nope.example.com.'' = None" by code_simp
  then show ?thesis
    using parse_ip_bad_name [of "sample_query ''nope.example.com.'' TypeA" "\<lparr>Qname = ''nope.example.com.'', Qtype = TypeA, Qclass = ClassINET\<rparr>" "[]"
      ip_zone sample_env sample_writer "sample_state (NewServer sample_info) []"]
    by (auto simp: sample_query_def ip_zone_def)
qed

section \<open>Zones that can be served\<close>

text \<open>The checks of a label that do not depend on the client.\<close>

definition label_sound :: "registry \<Rightarrow> zrecord label \<Rightarrow> bool" where
  "label_sound reg l \<longleftrightarrow>
     distinct (keys (lb_Records l)) \<and> TypeANY \<notin> set (keys (lb_Records l)) \<and> 0 \<le> lb_MaxHosts l \<and>
     list_all (\<lambda>(t, rs). label_ok l t \<and> tests_ok reg rs) (lb_Records l)"

lemma label_sound_pickable:
  assumes "label_sound reg l" and "\<forall>a b. \<bar>angle a b\<bar> \<le> MAX_DISTANCE"
  shows "label_pickable reg angle loc l"
proof -
  have "server_distance angle x s \<le> MAX_DISTANCE" for x s
    using assms(2) by (simp add: server_distance_def Distance_def split: option.split)
  with assms(1) show ?thesis by (auto simp: label_sound_def label_pickable_def list_all_iff)
qed

text \<open>A zone without aliases has no cycle of them.\<close>

lemma no_alias_cycle:
  assumes "list_all (\<lambda>(k, l). map_of (lb_Records l) TypeMF = None) (z_Labels z)"
  shows "\<not> reaches_cycle (alias_edges z ts) s"
proof -
  have none: "map_of (lb_Records l) TypeMF = None" if "(k, l) \<in> set (z_Labels z)" for k l
    using assms that by (auto simp: list_all_iff)
  have "t \<notin> set (aliases z ts s)" for t s
  proof
    assume "t \<in> set (aliases z ts s)"
    then obtain g l where "map_of (z_Labels z) (target_name s g) = Some l" "alias_of l = Some t" by (auto simp: mem_aliases)
    with none [OF map_of_SomeD] show False by (simp add: alias_of_def)
  qed
  then have "alias_edges z ts = {}" by (simp add: alias_edges_def)
  then show ?thesis by (simp add: reaches_cycle_def)
qed

lemma zone_servableI:
  assumes "list_all (\<lambda>(k, l). label_sound (se_health env) l \<and> alias_label_ok l) (z_Labels z)"
    and "\<And>ts s. \<not> reaches_cycle (alias_edges z ts) s"
    and "SoaRR z = Inr soa" and "\<forall>a b. \<bar>se_angle env a b\<bar> \<le> MAX_DISTANCE"
  shows "zone_servable env z"
proof -
  have "label_pickable (se_health env) (se_angle env) loc l" if "l \<in> snd ` set (z_Labels z)" for l loc
    using that assms(1) label_sound_pickable [OF _ assms(4)] by (fastforce simp: list_all_iff)
  with assms show ?thesis by (auto simp: zone_servable_def aliases_ok_def list_all_iff)
qed

definition plain_file :: zone_file where
  "plain_file = \<lparr>zf_open = None, zf_mtime = Some 42, zf_json = Inr
     [(''data'', JObj
        [([], JObj [(''ns'', JObj [(''ns1.example.net.'', JNull)])]),
         (''www'', JObj [(''cname'', JArr [JArr [JStr ''a.example.net.'', JStr ''10'']])])])]\<rparr>"

text \<open>A manager that serves the zone of \<open>plain_file\<close>, and a query the zone is selected for.\<close>

lemma plain_served:
  obtains mm z where "managed sample_ext server_api (NewServer sample_info) mm" "map_of (Zones mm) ''example.com'' = Some z"
    "zone_servable sample_env z" "map_of (z_Labels z) [] \<noteq> None" "z_ParseIP z = False" "z_Origin z = ''example.com''"
    "\<And>t. t \<noteq> TypeDS \<Longrightarrow> mux_match (sv_mux (mm_reg mm)) ''example.com.'' t = Some z"
proof (rule sample_start [OF sample_listing_ok(2), where c = "''v1''" and zf = plain_file])
  fix mm assume mm: "managed sample_ext server_api (NewServer sample_info) mm"
    "mm_abs mm ''example.com'' = spec_reload sample_ext (sample_zones ''v1'' plain_file) [] (sample_listing 5) (\<lambda>_. (None, None)) ''example.com''"
  let ?read = "ReadZoneFile (ext_fmtFloat sample_ext) (ext_sort sample_ext) (ext_newRR sample_ext) (ext_geo sample_ext)
     plain_file (NewZone ''example.com'')"
  have "(case ?read of Inl _ \<Rightarrow> False | Inr z \<Rightarrow>
      list_all (\<lambda>(k, l). label_sound [] l \<and> map_of (lb_Records l) TypeMF = None) (z_Labels (setupHealthTests z)) \<and>
      go_ok (SoaRR (setupHealthTests z)) \<and> map_of (z_Labels (setupHealthTests z)) [] \<noteq> None \<and> \<not> z_ParseIP z \<and> z_Origin z = ''example.com'')"
    by code_simp
  then obtain z where z: "?read = Inr z"
    "list_all (\<lambda>(k, l). label_sound [] l \<and> map_of (lb_Records l) TypeMF = None) (z_Labels (setupHealthTests z))"
    "go_ok (SoaRR (setupHealthTests z))" "map_of (z_Labels (setupHealthTests z)) [] \<noteq> None" "\<not> z_ParseIP z"
    by (cases ?read) auto
  have "mm_abs mm ''example.com'' = (Some (setupHealthTests z), Some \<lparr>zr_time = 5, zr_hash = ''xv1''\<rparr>)"
    unfolding mm(2) spec_reload_def sample_listing_ok(5)
    by (simp add: spec_file_def spec_read_def Let_def sample_listing_ok sample_zones_def sha256File_def z(1))
      (simp add: sample_ext_def sample_listing_def)
  then obtain z' where z': "map_of (Zones mm) ''example.com'' = Some z'" "unmetered z' = setupHealthTests z"
    by (auto simp: mm_abs_def Zones_def)
  have l: "z_Labels z' = z_Labels (setupHealthTests z)" "z_ParseIP z' = z_ParseIP z"
    using arg_cong [OF z'(2), of z_Labels] arg_cong [OF z'(2), of z_ParseIP]
    by (simp_all add: unmetered_def) (simp add: setupHealthTests_def)
  have nomf: "list_all (\<lambda>(k, l). map_of (lb_Records l) TypeMF = None) (z_Labels z')" using z(2) l by (auto simp: list_all_iff)
  have serv: "zone_servable sample_env z'"
    using z(2,3) l by (auto intro!: zone_servableI no_alias_cycle [OF nomf]
      simp: sample_env_def MAX_DISTANCE_def go_ok_iff SoaRR_def alias_label_ok_def list_all_iff)
  note inv = srv.managed_inv [OF mm(1) NewServer_handler]
  from mm_invD(2) [OF inv, of "''example.com''" z'] z'(1) have r: "registered_ok (mm_store mm) ''example.com'' z'" by (simp add: Zones_def)
  then have "name_ok ''example.com''" "z_Origin z' = ''example.com''" by (simp_all add: registered_ok_def)
  moreover have F: "Fqdn ''example.com'' = ''example.com.''" by code_simp
  ultimately have "map_of (sv_mux (mm_reg mm)) ''example.com.'' = Some z'"
    using mm_invD(4) [OF inv, of "''example.com''"] z'(1) by (simp add: server_handler_def Zones_def)
  then have "mux_match (sv_mux (mm_reg mm)) ''example.com.'' t = Some z'" if "t \<noteq> TypeDS" for t
    using that by (simp add: mux_match_def match_loop.simps [of _ _ _ 0] toLower_def lower_char_def)
  with that mm(1) z'(1) serv z(4,5) l \<open>z_Origin z' = ''example.com''\<close> show thesis by simp
qed

theorem unrouted_query_fails_witness:
  "\<exists>mm st. managed sample_ext server_api (NewServer sample_info) mm \<and> sv_mux (ss_srv st) = sv_mux (mm_reg mm) \<and>
     ServeDNS sample_env sample_writer (sample_query ''a.'' TypeA) st =
       Some (Inr (write_msg (HandleFailed (sample_query ''a.'' TypeA)) st))"
proof -
  have n: "ext_newRR sample_ext s = Some sample_soa" for s by (simp add: sample_ext_def)
  show ?thesis
  proof (rule srv.managed_start [OF n NewServer_handler sample_listing_ok(1)])
    fix mm assume mm: "managed sample_ext server_api (NewServer sample_info) mm"
      "\<And>n. n \<noteq> ''pgeodns'' \<Longrightarrow> mm_abs mm n = spec_reload sample_ext (sample_zones [] plain_file) [] [] (\<lambda>_. (None, None)) n"
    have k: "n = ''pgeodns''" if "n \<in> set (keys (Zones mm))" for n
    proof (rule ccontr)
      assume "n \<noteq> ''pgeodns''"
      from mm(2) [OF this] have "map_of (Zones mm) n = None" by (simp add: spec_reload_def mm_abs_def Zones_def)
      with that map_of_eq_None_keys [of "Zones mm" n] show False by simp
    qed
    have "length (Fqdn ''pgeodns'') = 8" by code_simp
    then have "\<forall>n \<in> set (keys (Zones mm)). \<forall>pre. toLower (Qname \<lparr>Qname = ''a.'', Qtype = TypeA, Qclass = ClassINET\<rparr>) \<noteq> dots pre @ Fqdn n"
      using k by (auto dest!: arg_cong [where f = length])
    from unrouted_query_fails [OF mm(1) _ _ this, of "sample_state (mm_reg mm) (mm_store mm)" "sample_query ''a.'' TypeA" "[]"] mm(1)
    show ?thesis by (intro exI [of _ mm] exI [of _ "sample_state (mm_reg mm) (mm_store mm)"]) (simp add: sample_state_def sample_query_def)
  qed
qed

end
