(* ===== verification/Countries.thy ===== *)
theory Countries
  imports GoStrings
begin

text \<open>
  Package \<open>countries\<close>: the tables from country code to continent and from region to region group
  (\<open>countries.go\<close>, \<open>regiongroups.go\<close>), the inverse tables their \<open>init\<close> functions build by
  iterating over them, and \<open>CountryRegionGroup\<close>.
\<close>

section \<open>The tables\<close>

text \<open>The first entries of \<open>CountryContinent\<close>, up to \<open>kz\<close>, and the others.\<close>

definition CountryContinent_1 :: "(string \<times> string) list" where
  "CountryContinent_1 =
    [(''ad'', ''europe''), (''ae'', ''asia''), (''af'', ''asia''),
     (''ag'', ''north-america''), (''ai'', ''north-america''), (''al'', ''europe''),
     (''am'', ''asia''), (''an'', ''north-america''), (''ao'', ''africa''),
     (''ap'', ''asia''), (''aq'', ''antarctica''), (''ar'', ''south-america''),
     (''as'', ''oceania''), (''at'', ''europe''), (''au'', ''oceania''),
     (''aw'', ''north-america''), (''ax'', ''europe''), (''az'', ''asia''),
     (''ba'', ''europe''), (''bb'', ''north-america''), (''bd'', ''asia''),
     (''be'', ''europe''), (''bf'', ''africa''), (''bg'', ''europe''), (''bh'', ''asia''),
     (''bi'', ''africa''), (''bj'', ''africa''), (''bl'', ''north-america''),
     (''bm'', ''north-america''), (''bn'', ''asia''), (''bo'', ''south-america''),
     (''br'', ''south-america''), (''bs'', ''north-america''), (''bt'', ''asia''),
     (''bv'', ''antarctica''), (''bw'', ''africa''), (''by'', ''europe''),
     (''bz'', ''north-america''), (''ca'', ''north-america''), (''cc'', ''asia''),
     (''cd'', ''africa''), (''cf'', ''africa''), (''cg'', ''africa''), (''ch'', ''europe''),
     (''ci'', ''africa''), (''ck'', ''oceania''), (''cl'', ''south-america''),
     (''cm'', ''africa''), (''cn'', ''asia''), (''co'', ''south-america''),
     (''cr'', ''north-america''), (''cu'', ''north-america''), (''cv'', ''africa''),
     (''cx'', ''asia''), (''cy'', ''asia''), (''cz'', ''europe''), (''de'', ''europe''),
     (''dj'', ''africa''), (''dk'', ''europe''), (''dm'', ''north-america''),
     (''do'', ''north-america''), (''dz'', ''africa''), (''ec'', ''south-america''),
     (''ee'', ''europe''), (''eg'', ''africa''), (''eh'', ''africa''), (''er'', ''africa''),
     (''es'', ''europe''), (''et'', ''africa''), (''eu'', ''europe''), (''fi'', ''europe''),
     (''fj'', ''oceania''), (''fk'', ''south-america''), (''fm'', ''oceania''),
     (''fo'', ''europe''), (''fr'', ''europe''), (''fx'', ''europe''), (''ga'', ''africa''),
     (''gb'', ''europe''), (''gd'', ''north-america''), (''ge'', ''asia''),
     (''gf'', ''south-america''), (''gg'', ''europe''), (''gh'', ''africa''),
     (''gi'', ''europe''), (''gl'', ''north-america''), (''gm'', ''africa''),
     (''gn'', ''africa''), (''gp'', ''north-america''), (''gq'', ''africa''),
     (''gr'', ''europe''), (''gs'', ''antarctica''), (''gt'', ''north-america''),
     (''gu'', ''oceania''), (''gw'', ''africa''), (''gy'', ''south-america''),
     (''hk'', ''asia''), (''hm'', ''antarctica''), (''hn'', ''north-america''),
     (''hr'', ''europe''), (''ht'', ''north-america''), (''hu'', ''europe''),
     (''id'', ''asia''), (''ie'', ''europe''), (''il'', ''asia''), (''im'', ''europe''),
     (''in'', ''asia''), (''io'', ''asia''), (''iq'', ''asia''), (''ir'', ''asia''),
     (''is'', ''europe''), (''it'', ''europe''), (''je'', ''europe''),
     (''jm'', ''north-america''), (''jo'', ''asia''), (''jp'', ''asia''),
     (''ke'', ''africa''), (''kg'', ''asia''), (''kh'', ''asia''), (''ki'', ''oceania''),
     (''km'', ''africa''), (''kn'', ''north-america''), (''kp'', ''asia''),
     (''kr'', ''asia''), (''kw'', ''asia''), (''ky'', ''north-america''), (''kz'', ''asia'')]"

definition CountryContinent_2 :: "(string \<times> string) list" where
  "CountryContinent_2 =
    [(''la'', ''asia''), (''lb'', ''asia''), (''lc'', ''north-america''),
     (''li'', ''europe''), (''lk'', ''asia''), (''lr'', ''africa''), (''ls'', ''africa''),
     (''lt'', ''europe''), (''lu'', ''europe''), (''lv'', ''europe''), (''ly'', ''africa''),
     (''ma'', ''africa''), (''mc'', ''europe''), (''md'', ''europe''), (''me'', ''europe''),
     (''mf'', ''north-america''), (''mg'', ''africa''), (''mh'', ''oceania''),
     (''mk'', ''europe''), (''ml'', ''africa''), (''mm'', ''asia''), (''mn'', ''asia''),
     (''mo'', ''asia''), (''mp'', ''oceania''), (''mq'', ''north-america''),
     (''mr'', ''africa''), (''ms'', ''north-america''), (''mt'', ''europe''),
     (''mu'', ''africa''), (''mv'', ''asia''), (''mw'', ''africa''),
     (''mx'', ''north-america''), (''my'', ''asia''), (''mz'', ''africa''),
     (''na'', ''africa''), (''nc'', ''oceania''), (''ne'', ''africa''), (''nf'', ''oceania''),
     (''ng'', ''africa''), (''ni'', ''north-america''), (''nl'', ''europe''),
     (''no'', ''europe''), (''np'', ''asia''), (''nr'', ''oceania''), (''nu'', ''oceania''),
     (''nz'', ''oceania''), (''om'', ''asia''), (''pa'', ''north-america''),
     (''pe'', ''south-america''), (''pf'', ''oceania''), (''pg'', ''oceania''),
     (''ph'', ''asia''), (''pk'', ''asia''), (''pl'', ''europe''),
     (''pm'', ''north-america''), (''pn'', ''oceania''), (''pr'', ''north-america''),
     (''ps'', ''asia''), (''pt'', ''europe''), (''pw'', ''oceania''),
     (''py'', ''south-america''), (''qa'', ''asia''), (''re'', ''africa''),
     (''ro'', ''europe''), (''rs'', ''europe''), (''ru'', ''europe''), (''rw'', ''africa''),
     (''sa'', ''asia''), (''sb'', ''oceania''), (''sc'', ''africa''), (''sd'', ''africa''),
     (''se'', ''europe''), (''sg'', ''asia''), (''sh'', ''africa''), (''si'', ''europe''),
     (''sj'', ''europe''), (''sk'', ''europe''), (''sl'', ''africa''), (''sm'', ''europe''),
     (''sn'', ''africa''), (''so'', ''africa''), (''sr'', ''south-america''),
     (''st'', ''africa''), (''sv'', ''north-america''), (''sy'', ''asia''),
     (''sz'', ''africa''), (''tc'', ''north-america''), (''td'', ''africa''),
     (''tf'', ''antarctica''), (''tg'', ''africa''), (''th'', ''asia''), (''tj'', ''asia''),
     (''tk'', ''oceania''), (''tl'', ''asia''), (''tm'', ''asia''), (''tn'', ''africa''),
     (''to'', ''oceania''), (''tr'', ''europe''), (''tt'', ''north-america''),
     (''tv'', ''oceania''), (''tw'', ''asia''), (''tz'', ''africa''), (''ua'', ''europe''),
     (''ug'', ''africa''), (''um'', ''oceania''), (''us'', ''north-america''),
     (''uy'', ''south-america''), (''uz'', ''asia''), (''va'', ''europe''),
     (''vc'', ''north-america''), (''ve'', ''south-america''), (''vg'', ''north-america''),
     (''vi'', ''north-america''), (''vn'', ''asia''), (''vu'', ''oceania''),
     (''wf'', ''oceania''), (''ws'', ''oceania''), (''ye'', ''asia''), (''yt'', ''africa''),
     (''za'', ''africa''), (''zm'', ''africa''), (''zw'', ''africa'')]"

definition CountryContinent :: "(string \<times> string) list" where
  "CountryContinent = CountryContinent_1 @ CountryContinent_2"

definition RegionGroups :: "(string \<times> string) list" where
  "RegionGroups =
    [(''us-ak'', ''us-west''), (''us-az'', ''us-west''), (''us-ca'', ''us-west''),
     (''us-co'', ''us-west''), (''us-hi'', ''us-west''), (''us-id'', ''us-west''),
     (''us-mt'', ''us-west''), (''us-nm'', ''us-west''), (''us-nv'', ''us-west''),
     (''us-or'', ''us-west''), (''us-ut'', ''us-west''), (''us-wa'', ''us-west''),
     (''us-wy'', ''us-west''), (''us-ar'', ''us-central''), (''us-ia'', ''us-central''),
     (''us-il'', ''us-central''), (''us-in'', ''us-central''), (''us-ks'', ''us-central''),
     (''us-la'', ''us-central''), (''us-mn'', ''us-central''), (''us-mo'', ''us-central''),
     (''us-nd'', ''us-central''), (''us-ne'', ''us-central''), (''us-ok'', ''us-central''),
     (''us-sd'', ''us-central''), (''us-tx'', ''us-central''), (''us-wi'', ''us-central''),
     (''us-al'', ''us-east''), (''us-ct'', ''us-east''), (''us-dc'', ''us-east''),
     (''us-de'', ''us-east''), (''us-fl'', ''us-east''), (''us-ga'', ''us-east''),
     (''us-ky'', ''us-east''), (''us-ma'', ''us-east''), (''us-md'', ''us-east''),
     (''us-me'', ''us-east''), (''us-mi'', ''us-east''), (''us-ms'', ''us-east''),
     (''us-nc'', ''us-east''), (''us-nh'', ''us-east''), (''us-nj'', ''us-east''),
     (''us-ny'', ''us-east''), (''us-oh'', ''us-east''), (''us-pa'', ''us-east''),
     (''us-ri'', ''us-east''), (''us-sc'', ''us-east''), (''us-tn'', ''us-east''),
     (''us-va'', ''us-east''), (''us-vt'', ''us-east''), (''us-wv'', ''us-east'')]"

section \<open>The inverse tables\<close>

text \<open>The \<open>init\<close> loops append each key to the list of its value, in iteration order.\<close>

primrec invert :: "(string \<times> string) list \<Rightarrow> (string \<times> string list) list \<Rightarrow> (string \<times> string list) list" where
  "invert [] m = m"
| "invert (e # es) m = invert es (map_put (snd e) (map_get m (snd e) [] @ [fst e]) m)"

definition ContinentCountries :: "(string \<times> string list) list" where
  "ContinentCountries = invert CountryContinent []"

definition RegionGroupRegions :: "(string \<times> string list) list" where
  "RegionGroupRegions = invert RegionGroups []"

definition CountryRegionGroup :: "string \<Rightarrow> string \<Rightarrow> string" where
  "CountryRegionGroup country region =
     (if country \<noteq> ''us'' then []
      else case map_of RegionGroups region of Some g \<Rightarrow> g | None \<Rightarrow> [])"

section \<open>Lemmas\<close>

lemma map_of_invert:
  "map_get (invert es m) v [] = map_get m v [] @ map fst (filter (\<lambda>e. snd e = v) es)"
  by (induction es arbitrary: m) (auto simp: map_get_def)

lemma set_map_get_invert: "set (map_get (invert es []) v []) = {k. (k, v) \<in> set es}"
  by (auto simp: map_of_invert map_get_def [of "[]"] image_iff)

lemma dom_invert: "set (keys (invert es m)) = set (keys m) \<union> snd ` set es"
  by (induction es arbitrary: m) auto

text \<open>A list of strictly increasing keys is distinct; the order compared is that of the character
  codes.\<close>

fun str_less :: "string \<Rightarrow> string \<Rightarrow> bool" where
  "str_less [] [] = False"
| "str_less [] (c # s) = True"
| "str_less (c # s) [] = False"
| "str_less (c # s) (d # t) =
     ((of_char c :: nat) < of_char d \<or> (of_char c :: nat) = of_char d \<and> str_less s t)"

fun ascending :: "string list \<Rightarrow> bool" where
  "ascending (s # t # r) = (str_less s t \<and> ascending (t # r))"
| "ascending _ = True"

lemma str_less_irrefl [simp]: "\<not> str_less s s"
  by (induction s) auto

lemma str_less_trans: "str_less s t \<Longrightarrow> str_less t u \<Longrightarrow> str_less s u"
proof (induction s t arbitrary: u rule: str_less.induct)
  case (2 c s)
  then show ?case by (cases u) auto
next
  case (4 c s d t)
  then show ?case by (cases u) auto
qed auto

lemma ascending_less: "ascending (s # r) \<Longrightarrow> t \<in> set r \<Longrightarrow> str_less s t"
  by (induction r arbitrary: s) (auto intro: str_less_trans)

lemma ascending_distinct: "ascending r \<Longrightarrow> distinct r"
proof (induction r)
  case (Cons s r)
  then have "ascending r" by (cases r) auto
  with Cons ascending_less [of s r s] show ?case by auto
qed simp

lemma keys_append: "keys (m @ n) = keys m @ keys n"
  by (simp add: keys_def)

lemma ascending_CountryContinent: "ascending (keys CountryContinent)"
  by code_simp

lemma distinct_CountryContinent: "distinct (keys CountryContinent)"
  using ascending_CountryContinent by (rule ascending_distinct)

text \<open>The table of region groups is ordered within each group; merging the groups gives no
  duplicates either.\<close>

lemma distinct_RegionGroups: "distinct (keys RegionGroups)"
  by code_simp

lemma mem_table_iff: "distinct (keys es) \<Longrightarrow> (k, v) \<in> set es \<longleftrightarrow> map_of es k = Some v"
  by (simp add: keys_def)

end
