(* ===== verification/GeoIP.thy ===== *)
theory GeoIP
  imports Countries Targeting
begin

text \<open>
  \<open>targeting/geoip2/geoip2.go\<close>: the geo provider backed by MaxMind databases. A database reader of the
  vendored library is a record of its lookups; opening a file and asking whether it exists are
  parameters. The methods open databases on first use and keep them, so every method also returns the
  provider as it leaves it. The properties relate this caching provider to the stateless one the
  targeting code is modelled with.
\<close>

section \<open>Data\<close>

datatype geoType = countryDB | cityDB | asnDB

record city_record =
  ct_Latitude :: rat
  ct_Longitude :: rat
  ct_Country :: string
  ct_Subdivisions :: "string list"

text \<open>The lookups of a \<open>geoip2.Reader\<close> that are used: the number of the autonomous system, the ISO code of
  the country, the city.\<close>

record geo_reader =
  rd_ASN :: "ip \<Rightarrow> string + nat"
  rd_Country :: "ip \<Rightarrow> string + string"
  rd_City :: "ip \<Rightarrow> string + city_record"

record geo_fs =
  gf_exists :: "string \<Rightarrow> bool"
  gf_Open :: "string \<Rightarrow> string + geo_reader"

record geoip2 =
  gi_dir :: string
  gi_country :: "geo_reader option"
  gi_city :: "geo_reader option"
  gi_asn :: "geo_reader option"

section \<open>Operations\<close>

definition quoted :: "string \<Rightarrow> string" where
  "quoted s = CHR 0x27 # s @ [CHR 0x27]"

fun dbFiles :: "geoType \<Rightarrow> string list" where
  "dbFiles countryDB = [''GeoIP2-Country.mmdb'', ''GeoLite2-Country.mmdb'']"
| "dbFiles asnDB = [''GeoIP2-ASN.mmdb'', ''GeoLite2-ASN.mmdb'']"
| "dbFiles cityDB = [''GeoIP2-City.mmdb'', ''GeoLite2-City.mmdb'']"

definition FindDB :: "geo_fs \<Rightarrow> string" where
  "FindDB fs =
     (case find (gf_exists fs) [''/usr/share/GeoIP/'', ''/usr/share/local/GeoIP/'', ''/usr/local/share/GeoIP/'',
                                ''/opt/local/share/GeoIP/''] of
        Some dir \<Rightarrow> dir
      | None \<Rightarrow> [])"

fun cached :: "geoType \<Rightarrow> geoip2 \<Rightarrow> geo_reader option" where
  "cached countryDB g = gi_country g"
| "cached cityDB g = gi_city g"
| "cached asnDB g = gi_asn g"

fun keep_reader :: "geoType \<Rightarrow> geo_reader \<Rightarrow> geoip2 \<Rightarrow> geoip2" where
  "keep_reader countryDB n g = g\<lparr>gi_country := Some n\<rparr>"
| "keep_reader cityDB n g = g\<lparr>gi_city := Some n\<rparr>"
| "keep_reader asnDB n g = g\<lparr>gi_asn := Some n\<rparr>"

definition geo_open :: "geo_fs \<Rightarrow> geoType \<Rightarrow> string \<Rightarrow> geoip2 \<Rightarrow> (string + geo_reader) \<times> geoip2" where
  "geo_open fs t db g =
     (let fileName = (if length db = 0
                      then find (gf_exists fs) (map (path_Join (gi_dir g)) (dbFiles t))
                      else Some (path_Join (gi_dir g) db))
      in case fileName of
           None \<Rightarrow> (Inl (''could not find '' @ quoted (''['' @ join '' '' (dbFiles t) @ '']'') @ '' in '' @ quoted (gi_dir g)), g)
         | Some fileName \<Rightarrow>
             (case gf_Open fs fileName of
                Inl err \<Rightarrow> (Inl err, g)
              | Inr n \<Rightarrow> (Inr n, keep_reader t n g)))"

definition geo_get :: "geo_fs \<Rightarrow> geoType \<Rightarrow> string \<Rightarrow> geoip2 \<Rightarrow> (string + geo_reader) \<times> geoip2" where
  "geo_get fs t db g = (case cached t g of Some r \<Rightarrow> (Inr r, g) | None \<Rightarrow> geo_open fs t db g)"

definition GeoIP2_New :: "geo_fs \<Rightarrow> string \<Rightarrow> string + geoip2" where
  "GeoIP2_New fs dir =
     (let g = \<lparr>gi_dir = dir, gi_country = None, gi_city = None, gi_asn = None\<rparr>
      in case geo_open fs countryDB [] g of (Inl err, _) \<Rightarrow> Inl err | (Inr _, g) \<Rightarrow> Inr g)"

definition geo_has :: "geo_fs \<Rightarrow> geoType \<Rightarrow> geoip2 \<Rightarrow> (bool \<times> string option) \<times> geoip2" where
  "geo_has fs t g = (case geo_get fs t [] g of (Inr r, g) \<Rightarrow> ((True, None), g) | (Inl err, g) \<Rightarrow> ((False, Some err), g))"

definition GeoIP2_HasASN :: "geo_fs \<Rightarrow> geoip2 \<Rightarrow> (bool \<times> string option) \<times> geoip2" where
  "GeoIP2_HasASN fs g = geo_has fs asnDB g"

definition GeoIP2_HasCountry :: "geo_fs \<Rightarrow> geoip2 \<Rightarrow> (bool \<times> string option) \<times> geoip2" where
  "GeoIP2_HasCountry fs g = geo_has fs countryDB g"

definition GeoIP2_HasLocation :: "geo_fs \<Rightarrow> geoip2 \<Rightarrow> (bool \<times> string option) \<times> geoip2" where
  "GeoIP2_HasLocation fs g = geo_has fs cityDB g"

definition asn_of :: "geo_reader \<Rightarrow> ip \<Rightarrow> string \<times> int \<times> string option" where
  "asn_of r ip =
     (case rd_ASN r ip of
        Inl err \<Rightarrow> ([], 0, Some (''lookup ASN for '' @ quoted (IP_String ip) @ '': '' @ err))
      | Inr asn \<Rightarrow> (''as'' @ utoa asn, 0, None))"

definition GeoIP2_GetASN :: "geo_fs \<Rightarrow> ip \<Rightarrow> geoip2 \<Rightarrow> (string \<times> int \<times> string option) \<times> geoip2" where
  "GeoIP2_GetASN fs ip g =
     (case geo_get fs asnDB [] g of
        (Inl err, g) \<Rightarrow> (([], 0, Some err), g)
      | (Inr r, g) \<Rightarrow> (asn_of r ip, g))"

definition country_of :: "geo_reader \<Rightarrow> ip \<Rightarrow> string \<times> string \<times> int" where
  "country_of r ip =
     (case rd_Country r ip of
        Inl err \<Rightarrow> ([], [], 0)
      | Inr code \<Rightarrow>
          if 0 < length code then (toLower code, map_get CountryContinent (toLower code) [], 0) else (code, [], 0))"

text \<open>\<open>GetCountry\<close> does not look at the error of \<open>get\<close>; a nil reader panics.\<close>

definition GeoIP2_GetCountry :: "geo_fs \<Rightarrow> ip \<Rightarrow> geoip2 \<Rightarrow> (string \<times> string \<times> int) go \<times> geoip2" where
  "GeoIP2_GetCountry fs ip g =
     (case geo_get fs countryDB [] g of
        (Inl err, g) \<Rightarrow> (Inl NilDeref, g)
      | (Inr r, g) \<Rightarrow> (Inr (country_of r ip), g))"

definition city_location :: "city_record \<Rightarrow> location" where
  "city_location c =
     (let country = toLower (ct_Country c);
          region = (if 0 < length (ct_Subdivisions c) then toLower (ct_Subdivisions c ! 0) else []);
          l = \<lparr>Country = country, Continent = [], RegionGroup = [], Region = region,
               Latitude = ct_Latitude c, Longitude = ct_Longitude c, Netmask = 0\<rparr>
      in if 0 < length country then
           let l = l\<lparr>Continent := map_get CountryContinent country []\<rparr>
           in if 0 < length region then
                let region = country @ ''-'' @ region
                in l\<lparr>Region := region, RegionGroup := CountryRegionGroup country region\<rparr>
              else l
         else l)"

definition location_of :: "geo_reader \<Rightarrow> ip \<Rightarrow> location option \<times> string option" where
  "location_of r ip = (case rd_City r ip of Inl err \<Rightarrow> (None, Some err) | Inr c \<Rightarrow> (Some (city_location c), None))"

text \<open>\<open>GetLocation\<close> uses the city database without opening it.\<close>

definition GeoIP2_GetLocation :: "ip \<Rightarrow> geoip2 \<Rightarrow> (location option \<times> string option) go" where
  "GeoIP2_GetLocation ip g = (case gi_city g of None \<Rightarrow> Inl NilDeref | Some r \<Rightarrow> Inr (location_of r ip))"

section \<open>The provider without its cache\<close>

text \<open>The databases a directory holds: what opening them now gives.\<close>

definition database :: "geo_fs \<Rightarrow> string \<Rightarrow> geoType \<Rightarrow> string + geo_reader" where
  "database fs dir t = fst (geo_open fs t [] \<lparr>gi_dir = dir, gi_country = None, gi_city = None, gi_asn = None\<rparr>)"

definition has_database :: "geo_fs \<Rightarrow> string \<Rightarrow> geoType \<Rightarrow> bool \<times> string option" where
  "has_database fs dir t = (case database fs dir t of Inr _ \<Rightarrow> (True, None) | Inl err \<Rightarrow> (False, Some err))"

definition directory_provider :: "geo_fs \<Rightarrow> string \<Rightarrow> geo_provider" where
  "directory_provider fs dir =
     \<lparr>HasCountry = has_database fs dir countryDB,
      GetCountry = (\<lambda>ip. case database fs dir countryDB of Inl _ \<Rightarrow> Inl NilDeref | Inr r \<Rightarrow> Inr (country_of r ip)),
      HasASN = has_database fs dir asnDB,
      GetASN = (\<lambda>ip. Inr (case database fs dir asnDB of Inl err \<Rightarrow> ([], 0, Some err) | Inr r \<Rightarrow> asn_of r ip)),
      HasLocation = has_database fs dir cityDB,
      GetLocation = (\<lambda>ip. case database fs dir cityDB of Inl _ \<Rightarrow> Inl NilDeref | Inr r \<Rightarrow> Inr (location_of r ip))\<rparr>"

text \<open>A provider whose cached readers are those its directory holds.\<close>

definition cache_ok :: "geo_fs \<Rightarrow> string \<Rightarrow> geoip2 \<Rightarrow> bool" where
  "cache_ok fs dir g \<longleftrightarrow> gi_dir g = dir \<and> (\<forall>t r. cached t g = Some r \<longrightarrow> database fs dir t = Inr r)"

lemma cached_keep [simp]: "cached t' (keep_reader t r g) = (if t' = t then Some r else cached t' g)"
  by (cases t; cases t') simp_all

lemma gi_dir_keep [simp]: "gi_dir (keep_reader t r g) = gi_dir g"
  by (cases t) simp_all

lemma geo_open_database:
  "gi_dir g = dir \<Longrightarrow> geo_open fs t [] g = (database fs dir t, case database fs dir t of Inl _ \<Rightarrow> g | Inr r \<Rightarrow> keep_reader t r g)"
  by (simp add: database_def geo_open_def Let_def split: option.split sum.split)

lemma geo_get_ok:
  assumes "cache_ok fs dir g"
  shows "fst (geo_get fs t [] g) = database fs dir t \<and> cache_ok fs dir (snd (geo_get fs t [] g)) \<and>
    (\<forall>r. database fs dir t = Inr r \<longrightarrow> cached t (snd (geo_get fs t [] g)) = Some r) \<and>
    (\<forall>t' r. cached t' g = Some r \<longrightarrow> cached t' (snd (geo_get fs t [] g)) = Some r)"
proof (cases "cached t g")
  case None
  have "gi_dir g = dir" using assms by (simp add: cache_ok_def)
  with None assms show ?thesis
    by (auto simp: geo_get_def geo_open_database cache_ok_def split: sum.split)
next
  case (Some r)
  with assms show ?thesis by (auto simp: geo_get_def cache_ok_def)
qed

lemmas geoip2_defs = GeoIP2_HasASN_def GeoIP2_HasCountry_def GeoIP2_HasLocation_def GeoIP2_GetASN_def
  GeoIP2_GetCountry_def GeoIP2_GetLocation_def geo_has_def

section \<open>The provider in use\<close>

text \<open>The provider a process holds: made by \<open>New\<close>, then changed by its methods only.\<close>

inductive geo_steps :: "geo_fs \<Rightarrow> geoip2 \<Rightarrow> geoip2 \<Rightarrow> bool" for fs where
  geo_refl: "geo_steps fs g g"
| geo_HasASN: "geo_steps fs g h \<Longrightarrow> geo_steps fs g (snd (GeoIP2_HasASN fs h))"
| geo_HasCountry: "geo_steps fs g h \<Longrightarrow> geo_steps fs g (snd (GeoIP2_HasCountry fs h))"
| geo_HasLocation: "geo_steps fs g h \<Longrightarrow> geo_steps fs g (snd (GeoIP2_HasLocation fs h))"
| geo_GetASN: "geo_steps fs g h \<Longrightarrow> geo_steps fs g (snd (GeoIP2_GetASN fs ip h))"
| geo_GetCountry: "geo_steps fs g h \<Longrightarrow> geo_steps fs g (snd (GeoIP2_GetCountry fs ip h))"

text \<open>What the methods answer in a state.\<close>

definition geo_view :: "geo_fs \<Rightarrow> geoip2 \<Rightarrow> geo_provider" where
  "geo_view fs g =
     \<lparr>HasCountry = fst (GeoIP2_HasCountry fs g),
      GetCountry = (\<lambda>ip. fst (GeoIP2_GetCountry fs ip g)),
      HasASN = fst (GeoIP2_HasASN fs g),
      GetASN = (\<lambda>ip. Inr (fst (GeoIP2_GetASN fs ip g))),
      HasLocation = fst (GeoIP2_HasLocation fs g),
      GetLocation = (\<lambda>ip. GeoIP2_GetLocation ip g)\<rparr>"

text \<open>The checks the zone reader makes at the end of a file, as far as they concern the provider.\<close>

definition reader_geo_checks :: "geo_fs \<Rightarrow> int \<Rightarrow> bool \<Rightarrow> geoip2 \<Rightarrow> geoip2" where
  "reader_geo_checks fs t hasClosest g =
     (let g = (if TargetRegionGroup \<le> t \<or> hasClosest then snd (GeoIP2_HasLocation fs g)
               else if TargetContinent \<le> t then snd (GeoIP2_HasCountry fs g) else g)
      in if has t TargetASN then snd (GeoIP2_HasASN fs g) else g)"

lemma snd_geo_methods:
  "snd (GeoIP2_HasASN fs g) = snd (geo_get fs asnDB [] g)"
  "snd (GeoIP2_HasCountry fs g) = snd (geo_get fs countryDB [] g)"
  "snd (GeoIP2_HasLocation fs g) = snd (geo_get fs cityDB [] g)"
  "snd (GeoIP2_GetASN fs ip g) = snd (geo_get fs asnDB [] g)"
  "snd (GeoIP2_GetCountry fs ip g) = snd (geo_get fs countryDB [] g)"
  by (auto simp: geoip2_defs split: prod.split sum.split)

lemma geo_steps_ok:
  assumes "geo_steps fs g h" "cache_ok fs dir g"
  shows "cache_ok fs dir h \<and> (\<forall>t r. cached t g = Some r \<longrightarrow> cached t h = Some r)"
  using assms by induction (auto simp: snd_geo_methods geo_get_ok)

lemma GeoIP2_New_ok:
  assumes "GeoIP2_New fs dir = Inr g"
  shows "cache_ok fs dir g \<and> (\<exists>r. gi_country g = Some r \<and> database fs dir countryDB = Inr r) \<and> gi_city g = None"
proof -
  obtain r where "database fs dir countryDB = Inr r"
    and "g = keep_reader countryDB r \<lparr>gi_dir = dir, gi_country = None, gi_city = None, gi_asn = None\<rparr>"
    using assms by (auto simp: GeoIP2_New_def geo_open_database Let_def split: sum.splits)
  then show ?thesis by (auto simp: cache_ok_def elim: cached.elims)
qed

lemma cached_database: "cache_ok fs dir g \<Longrightarrow> cached t g = Some r \<Longrightarrow> database fs dir t = Inr r"
  by (simp add: cache_ok_def)

lemma fst_geo_methods:
  "fst (geo_has fs t g) = (case fst (geo_get fs t [] g) of Inr _ \<Rightarrow> (True, None) | Inl err \<Rightarrow> (False, Some err))"
  "fst (GeoIP2_GetASN fs ip g) = (case fst (geo_get fs asnDB [] g) of Inl err \<Rightarrow> ([], 0, Some err) | Inr r \<Rightarrow> asn_of r ip)"
  "fst (GeoIP2_GetCountry fs ip g) =
     (case fst (geo_get fs countryDB [] g) of Inl _ \<Rightarrow> Inl NilDeref | Inr r \<Rightarrow> Inr (country_of r ip))"
  by (auto simp: geoip2_defs split: prod.split sum.split)

lemma geo_view_directory:
  assumes "cache_ok fs dir g"
  shows "geo_view fs g = (directory_provider fs dir)
    \<lparr>GetLocation := if gi_city g = None then (\<lambda>_. Inl NilDeref) else GetLocation (directory_provider fs dir)\<rparr>"
proof -
  have get: "fst (geo_get fs t [] g) = database fs dir t" for t
    using geo_get_ok [OF assms, of t] by blast
  have "database fs dir cityDB = Inr r" if "gi_city g = Some r" for r
    using cached_database [OF assms, of cityDB] that by simp
  then show ?thesis
    by (auto simp: geo_view_def directory_provider_def GeoIP2_HasASN_def GeoIP2_HasCountry_def
        GeoIP2_HasLocation_def fst_geo_methods has_database_def get GeoIP2_GetLocation_def)
qed

lemma has_le:
  assumes "0 \<le> t" "has t (2 ^ n)"
  shows "2 ^ n \<le> t"
proof (rule ccontr)
  assume "\<not> ?thesis"
  then have "take_bit n t = t" using assms(1) by (simp add: take_bit_int_eq_self_iff)
  moreover have "bit t n" using assms(2) by (simp add: has_bit)
  ultimately show False by (metis bit_take_bit_iff less_irrefl)
qed

lemma needs_location_checked:
  "0 \<le> t \<Longrightarrow> has t TargetRegion \<or> has t TargetRegionGroup \<Longrightarrow> TargetRegionGroup \<le> t"
  using has_le [of t 4] has_le [of t 3] by (auto simp: target_defs)

lemma reader_geo_checks_ok:
  assumes "cache_ok fs dir g" "TargetRegionGroup \<le> t \<or> c"
  shows "cache_ok fs dir (reader_geo_checks fs t c g) \<and>
    (\<forall>r. database fs dir cityDB = Inr r \<longrightarrow> gi_city (reader_geo_checks fs t c g) = Some r)"
proof -
  let ?h = "snd (geo_get fs cityDB [] g)"
  note h = geo_get_ok [OF assms(1), of cityDB]
  then have "cache_ok fs dir ?h" by blast
  note h' = geo_get_ok [OF this, of asnDB]
  show ?thesis
    using assms(2) h h' by (auto simp: reader_geo_checks_def snd_geo_methods Let_def simp flip: cached.simps(2))
qed

lemma no_city_no_reader: "cache_ok fs dir g \<Longrightarrow> database fs dir cityDB = Inl err \<Longrightarrow> gi_city g = None"
  using cached_database [of fs dir g cityDB] by (cases "gi_city g") auto

lemma getGeoTargets_no_location:
  assumes "has t TargetRegion \<or> has t TargetRegionGroup \<or> c" "GetLocation g ip = Inl e" "\<exists>a. GetASN g ip = Inr a"
  shows "getGeoTargets g t ip c = Inl e"
  using assms by (auto simp: getGeoTargets_def split: prod.split)

section \<open>A directory with and without a city database\<close>

definition sample_reader :: geo_reader where
  "sample_reader = \<lparr>rd_ASN = (\<lambda>_. Inr 64500), rd_Country = (\<lambda>_. Inr ''DE''),
     rd_City = (\<lambda>_. Inr \<lparr>ct_Latitude = 52, ct_Longitude = 13, ct_Country = ''US'', ct_Subdivisions = [''CA'']\<rparr>)\<rparr>"

definition sample_fs :: "bool \<Rightarrow> geo_fs" where
  "sample_fs city =
     \<lparr>gf_exists = (\<lambda>p. p = ''/g/GeoLite2-Country.mmdb'' \<or> city \<and> p = ''/g/GeoLite2-City.mmdb''),
      gf_Open = (\<lambda>_. Inr sample_reader)\<rparr>"

definition sample_geo :: geoip2 where
  "sample_geo = \<lparr>gi_dir = ''/g'', gi_country = Some sample_reader, gi_city = None, gi_asn = None\<rparr>"

lemma sample_paths:
  "path_Join ''/g'' ''GeoIP2-Country.mmdb'' = ''/g/GeoIP2-Country.mmdb''"
  "path_Join ''/g'' ''GeoLite2-Country.mmdb'' = ''/g/GeoLite2-Country.mmdb''"
  "path_Join ''/g'' ''GeoIP2-City.mmdb'' = ''/g/GeoIP2-City.mmdb''"
  "path_Join ''/g'' ''GeoLite2-City.mmdb'' = ''/g/GeoLite2-City.mmdb''"
  by code_simp+

definition sample_city_location :: location where
  "sample_city_location = \<lparr>Country = ''us'', Continent = ''north-america'', RegionGroup = ''us-west'',
     Region = ''us-ca'', Latitude = 52, Longitude = 13, Netmask = 0\<rparr>"

lemma sample_city_place:
  "city_location \<lparr>ct_Latitude = 52, ct_Longitude = 13, ct_Country = ''US'', ct_Subdivisions = [''CA'']\<rparr> = sample_city_location"
  by code_simp

lemma sample_New: "GeoIP2_New (sample_fs b) ''/g'' = Inr sample_geo"
  by (simp add: GeoIP2_New_def geo_open_def sample_fs_def sample_geo_def sample_paths)

lemma sample_city: "(\<exists>r. database (sample_fs b) ''/g'' cityDB = Inr r) = b"
  by (simp add: database_def geo_open_def sample_fs_def sample_paths)

section \<open>Properties\<close>

text \<open>C19. A provider made by \<open>New\<close> answers, in every state its methods bring it to, what the databases of
  its directory answer: opening on first use and keeping the readers changes no result. \<open>GetCountry\<close>,
  which ignores the error of opening the country database, never panics, because \<open>New\<close> refuses a
  directory without one. The exception is \<open>GetLocation\<close>, which panics until the city database has been
  opened by \<open>HasLocation\<close>.\<close>

theorem geoip2_serves_directory:
  assumes "GeoIP2_New fs dir = Inr g" "geo_steps fs g h"
  shows "geo_view fs h = (directory_provider fs dir)
      \<lparr>GetLocation := if gi_city h = None then (\<lambda>_. Inl NilDeref) else GetLocation (directory_provider fs dir)\<rparr> \<and>
    (\<exists>c. GetCountry (geo_view fs h) ip = Inr c)"
proof -
  note new = GeoIP2_New_ok [OF assms(1)]
  then have "cache_ok fs dir h" using geo_steps_ok [OF assms(2)] by blast
  note view = geo_view_directory [OF this]
  have "\<exists>c. GetCountry (geo_view fs h) ip = Inr c"
    using new unfolding view by (auto simp: directory_provider_def simp del: split_paired_Ex)
  with view show ?thesis by blast
qed

theorem geoip2_serves_directory_witness:
  "GeoIP2_New (sample_fs True) ''/g'' = Inr sample_geo \<and>
   HasLocation (geo_view (sample_fs True) (snd (GeoIP2_HasASN (sample_fs True) sample_geo))) = (True, None)"
proof
  show new: "GeoIP2_New (sample_fs True) ''/g'' = Inr sample_geo" by (rule sample_New)
  have "has_database (sample_fs True) ''/g'' cityDB = (True, None)"
    using sample_city [of True] by (auto simp: has_database_def)
  then show "HasLocation (geo_view (sample_fs True) (snd (GeoIP2_HasASN (sample_fs True) sample_geo))) = (True, None)"
    using geoip2_serves_directory [OF new geo_HasASN [OF geo_refl]] by (simp add: directory_provider_def)
qed

text \<open>C18. A zone that targets regions, region groups or the closest server has its provider checked when it is
  read. If the directory has a city database, from then on every query of the zone is targeted as that
  database says. If it has none, the check only logs so, and every such query makes the server panic.\<close>

theorem location_targeting_after_read:
  assumes "GeoIP2_New fs dir = Inr g" "geo_steps fs g h" "0 \<le> t"
    and "has t TargetRegion \<or> has t TargetRegionGroup \<or> c"
    and "geo_steps fs (reader_geo_checks fs t c h) h'"
  shows "getGeoTargets (geo_view fs h') t ip c =
    (if \<exists>r. database fs dir cityDB = Inr r then getGeoTargets (directory_provider fs dir) t ip c else Inl NilDeref)"
proof -
  have need: "TargetRegionGroup \<le> t \<or> c" using assms(3,4) needs_location_checked by blast
  have ch: "cache_ok fs dir h" using GeoIP2_New_ok [OF assms(1)] geo_steps_ok [OF assms(2)] by blast
  note read = reader_geo_checks_ok [OF ch need]
  then have ch': "cache_ok fs dir h'" using geo_steps_ok [OF assms(5)] by blast
  note view = geo_view_directory [OF ch']
  show ?thesis
  proof (cases "database fs dir cityDB")
    case (Inl err)
    with no_city_no_reader [OF ch'] have "gi_city h' = None" by simp
    with view have "GetLocation (geo_view fs h') ip = Inl NilDeref" "\<exists>a. GetASN (geo_view fs h') ip = Inr a"
      by (simp_all add: directory_provider_def del: split_paired_Ex)
    with Inl getGeoTargets_no_location [OF assms(4)] show ?thesis by simp
  next
    case (Inr r)
    with read have "cached cityDB (reader_geo_checks fs t c h) = Some r" by simp
    then have "cached cityDB h' = Some r" using read geo_steps_ok [OF assms(5)] by blast
    with view have "geo_view fs h' = directory_provider fs dir" by simp
    with Inr show ?thesis by simp
  qed
qed

theorem location_targeting_after_read_witness:
  "getGeoTargets (geo_view (sample_fs False) (reader_geo_checks (sample_fs False) 16 False sample_geo)) 16 [1, 2, 3, 4] False =
     Inl NilDeref \<and>
   getGeoTargets (geo_view (sample_fs True) (reader_geo_checks (sample_fs True) 16 False sample_geo)) 16 [1, 2, 3, 4] False =
     Inr ([''us-ca''], 0, Some \<lparr>Country = ''us'', Continent = ''north-america'', RegionGroup = ''us-west'',
       Region = ''us-ca'', Latitude = 52, Longitude = 13, Netmask = 0\<rparr>)"
proof -
  have "has 16 TargetRegion" by code_simp
  then have read: "getGeoTargets (geo_view (sample_fs b) (reader_geo_checks (sample_fs b) 16 False sample_geo)) 16 [1, 2, 3, 4] False =
      (if b then getGeoTargets (directory_provider (sample_fs b) ''/g'') 16 [1, 2, 3, 4] False else Inl NilDeref)" for b
    using location_targeting_after_read [OF sample_New [of b] geo_refl, of 16 False _ "[1, 2, 3, 4]"] geo_refl sample_city [of b]
    by simp
  have "GetLocation (directory_provider (sample_fs True) ''/g'') [1, 2, 3, 4] = Inr (Some sample_city_location, None)"
    by (simp add: directory_provider_def database_def geo_open_def sample_fs_def sample_paths location_of_def
        sample_reader_def sample_city_place)
  moreover have "\<not> has 16 TargetASN" "geo_append 16 ''us'' ''north-america'' ''us-ca'' ''us-west'' [] = [''us-ca'']"
    by code_simp+
  ultimately show ?thesis
    using \<open>has 16 TargetRegion\<close> unfolding read by (simp add: getGeoTargets_def sample_city_location_def)
qed

end
