(* ===== verification/ZoneAnswers.thy ===== *)
theory ZoneAnswers
  imports ServeSafe GeoIP
begin

text \<open>
  From a zone file to answers: a zone that \<open>ReadZoneFile\<close> accepts can be served (\<open>zone_servable\<close>), if its numbers are in
  range and its aliases have no cycle, also after \<open>setupHealthTests\<close> and with its metrics; the provider of \<open>GeoIP\<close> does
  not panic once its databases are open.
\<close>

section \<open>What the reader does not check\<close>

definition label_limits :: "zrecord label \<Rightarrow> bool" where
  "label_limits l \<longleftrightarrow> 0 \<le> lb_MaxHosts l \<and> list_all (\<lambda>(t, rs). weights_ok rs \<and> (t = TypeMF \<longrightarrow> rs \<noteq> [])) (lb_Records l)"

definition zone_limits :: "zrecord zone \<Rightarrow> bool" where
  "zone_limits z \<longleftrightarrow> list_all (\<lambda>(k, l). label_limits l) (z_Labels z)"

section \<open>Health tests of a zone\<close>

lemma default_test_keeps [simp]: "rec_RR (default_test r) = rec_RR r" "rec_Weight (default_test r) = rec_Weight r"
  by (simp_all add: default_test_def split: rr.split)

lemma setup_label_tests_fields [simp]:
  "lb_MaxHosts (setup_label_tests l) = lb_MaxHosts l" "lb_Weight (setup_label_tests l) = lb_Weight l"
  "keys (lb_Records (setup_label_tests l)) = keys (lb_Records l)"
  by (simp_all add: setup_label_tests_def keys_def comp_def case_prod_beta)

lemma setup_label_tests_records:
  "\<exists>f. map_of (lb_Records (setup_label_tests l)) t = map_option (map f) (map_of (lb_Records l) t) \<and>
     (\<forall>r. rec_RR (f r) = rec_RR r \<and> rec_Weight (f r) = rec_Weight r)"
proof (cases "lb_Test l")
  case None
  then show ?thesis by (intro exI [of _ id]) (simp add: setup_label_tests_def option.map_id)
next
  case Some
  then show ?thesis by (intro exI [of _ default_test]) (simp add: setup_label_tests_def map_of_map)
qed

lemma alias_of_setup [simp]: "alias_of (setup_label_tests l) = alias_of l"
proof -
  from setup_label_tests_records [of l TypeMF] obtain f where
    "map_of (lb_Records (setup_label_tests l)) TypeMF = map_option (map f) (map_of (lb_Records l) TypeMF)"
    "\<And>r. rec_RR (f r) = rec_RR r" by blast
  then show ?thesis by (simp add: alias_of_def split: option.split list.split)
qed

lemma map_of_setup: "map_of (z_Labels (setupHealthTests z)) k = map_option setup_label_tests (map_of (z_Labels z) k)"
  by (simp add: setupHealthTests_def map_of_map)

lemma alias_edges_setup [simp]: "alias_edges (setupHealthTests z) ts = alias_edges z ts"
proof -
  have "Option.bind (map_option setup_label_tests m) alias_of = Option.bind m alias_of" for m by (cases m) simp_all
  then show ?thesis by (simp add: alias_edges_def aliases_def map_of_setup)
qed

lemma SoaRR_setup [simp]: "SoaRR (setupHealthTests z) = SoaRR z"
proof -
  have "FirstRR (setup_label_tests l) TypeSOA = FirstRR l TypeSOA" for l
  proof -
    from setup_label_tests_records [of l TypeSOA] obtain f where
      "map_of (lb_Records (setup_label_tests l)) TypeSOA = map_option (map f) (map_of (lb_Records l) TypeSOA)"
      "\<And>r. rec_RR (f r) = rec_RR r" by blast
    then show ?thesis by (simp add: FirstRR_def map_get_def split: option.split list.split)
  qed
  then show ?thesis by (simp add: SoaRR_def map_of_setup split: option.split)
qed

section \<open>Zones that were read can be served\<close>

lemma weights_ok_wrap: "weights_ok rs \<Longrightarrow> wrap64 (weight_sum rs) = weight_sum rs"
  using weight_sum_nonneg [of rs] by (intro wrap64_id) (auto simp: weights_ok_def int64_def)

lemma weights_ok_map:
  assumes "\<And>r. rec_Weight (f r) = rec_Weight r"
  shows "weight_sum (map f rs) = weight_sum rs" "weights_ok (map f rs) \<longleftrightarrow> weights_ok rs"
proof -
  show w: "weight_sum (map f rs) = weight_sum rs" using assms by (induction rs) auto
  show "weights_ok (map f rs) \<longleftrightarrow> weights_ok rs" using assms by (simp add: weights_ok_def w list_all_iff)
qed

lemma soa_entry_sum: "soa_entry (t, rs) \<Longrightarrow> t = TypeSOA \<and> weight_sum rs = 0"
proof -
  have "list_all (\<lambda>r. rec_Weight r = 0 \<and> rec_Test r = []) rs \<Longrightarrow> weight_sum rs = 0" by (induction rs) auto
  then show "soa_entry (t, rs) \<Longrightarrow> t = TypeSOA \<and> weight_sum rs = 0" by (simp add: soa_entry_def)
qed

text \<open>The weight of a type adds up, since the sum did not wrap around.\<close>

lemma final_label_ok:
  assumes "final_ok opts origin k l" and "label_limits l"
  shows "label_ok (setup_label_tests l) t"
proof (cases "map_of (lb_Records l) t")
  case None
  with setup_label_tests_records [of l t] show ?thesis by (auto simp: label_ok_def)
next
  case (Some rs)
  then have m: "(t, rs) \<in> set (lb_Records l)" by (rule map_of_SomeD)
  with assms(2) have w: "weights_ok rs" by (auto simp: label_limits_def list_all_iff)
  from m assms(1) have "soa_entry (t, rs) \<or> type_ok opts origin k (lb_Ttl l) (lb_Weight l) (t, rs)"
    by (auto simp: final_ok_def list_all_iff)
  then have "map_get (lb_Weight l) t 0 = weight_sum rs"
    using assms(1) weights_ok_wrap [OF w] soa_entry_sum [of t rs] by (auto simp: type_ok_def final_ok_def)
  moreover from setup_label_tests_records [of l t] obtain f where
    "map_of (lb_Records (setup_label_tests l)) t = Some (map f rs)" "\<And>r. rec_Weight (f r) = rec_Weight r"
    using Some by auto
  ultimately show ?thesis using w by (simp add: label_ok_def weights_ok_map)
qed

lemma final_label_alias:
  assumes "final_ok opts origin k l" and "label_limits l"
  shows "alias_label_ok l"
proof (cases "map_of (lb_Records l) TypeMF")
  case (Some rs)
  then have m: "(TypeMF, rs) \<in> set (lb_Records l)" by (rule map_of_SomeD)
  with assms(2) obtain r rs' where rs: "rs = r # rs'" by (cases rs) (auto simp: label_limits_def list_all_iff)
  have "\<not> soa_entry (TypeMF, rs)" by (simp add: soa_entry_def rrtype_defs)
  with m assms(1) have "record_ok (final_header opts origin k (lb_Ttl l) TypeMF) r"
    by (auto simp: final_ok_def list_all_iff type_ok_def rs)
  then have "rr_kind (rec_RR r) = TypeMF" by (simp add: record_ok_def final_header_def)
  then obtain h mf where "rec_RR r = RR_MF h mf" by (cases "rec_RR r") (auto simp: rr_kind_def rrtype_defs)
  with Some show ?thesis by (simp add: alias_label_ok_def alias_of_def rs)
qed (simp add: alias_label_ok_def)

lemma final_label_sound:
  assumes "final_ok opts origin k l" and "label_limits l" and "registry_total reg"
  shows "label_sound reg (setup_label_tests l) \<and> alias_label_ok (setup_label_tests l)"
proof
  have "t \<noteq> TypeANY" if "(t, rs) \<in> set (lb_Records l)" for t rs
  proof -
    from that assms(1) have "soa_entry (t, rs) \<or> t \<in> record_types" by (auto simp: final_ok_def list_all_iff type_ok_def)
    then show ?thesis using record_types_special by (auto simp: soa_entry_def rrtype_defs)
  qed
  then have "TypeANY \<notin> set (keys (lb_Records l))" by (fastforce simp: keys_def)
  then show "label_sound reg (setup_label_tests l)"
    using assms final_label_ok [OF assms(1,2)]
    by (auto simp: label_sound_def final_ok_def label_limits_def tests_ok_def registry_total_def list_all_iff)
  have "map_of (lb_Records (setup_label_tests l)) TypeMF = None \<longleftrightarrow> map_of (lb_Records l) TypeMF = None"
    by (simp add: map_of_eq_None_keys)
  with final_label_alias [OF assms(1,2)] show "alias_label_ok (setup_label_tests l)" by (simp add: alias_label_ok_def)
qed

text \<open>The zone as it is registered: with its health tests set up, and with its metrics.\<close>

lemma read_zone_servable:
  assumes "zone_ok z" and "SoaRR z = Inr soa" and "zone_limits z" and "\<forall>ts s. \<not> reaches_cycle (alias_edges z ts) s"
    and "registry_total (se_health env)" and "\<forall>a b. \<bar>se_angle env a b\<bar> \<le> MAX_DISTANCE"
    and "unmetered z' = setupHealthTests z"
  shows "zone_servable env z'"
proof -
  have l: "z_Labels z' = z_Labels (setupHealthTests z)" using arg_cong [OF assms(7), of z_Labels] by (simp add: unmetered_def)
  have "alias_edges z' = alias_edges (setupHealthTests z)" by (simp add: fun_eq_iff alias_edges_def aliases_def l)
  moreover have "SoaRR z' = SoaRR (setupHealthTests z)" by (simp add: SoaRR_def l)
  moreover have "label_sound (se_health env) l \<and> alias_label_ok l" if "(k, l) \<in> set (z_Labels z')" for k l
  proof -
    from that obtain l0 where l0: "(k, l0) \<in> set (z_Labels z)" "l = setup_label_tests l0" by (auto simp: l setupHealthTests_def)
    then have "map_of (z_Labels z) k = Some l0" using assms(1) by (simp add: zone_ok_def keys_def)
    with assms(1) have "final_ok (z_Options z) (z_Origin z) k l0" by (simp add: zone_ok_def)
    moreover from l0(1) assms(3) have "label_limits l0" by (auto simp: zone_limits_def list_all_iff)
    ultimately show ?thesis unfolding l0(2) by (rule final_label_sound [OF _ _ assms(5)])
  qed
  ultimately show ?thesis using assms(2,4,6) by (intro zone_servableI) (auto simp: list_all_iff)
qed

section \<open>The provider of the program\<close>

lemma geo_view_total:
  assumes "gi_country g = Some c" and "gi_city g = Some d"
  shows "geo_total (Some (geo_view fs g))"
  using assms by (simp add: geo_total_def geo_view_def GeoIP2_GetCountry_def GeoIP2_GetLocation_def geo_get_def)

section \<open>An empty list of aliases\<close>

definition empty_alias_file :: zone_file where
  "empty_alias_file = \<lparr>zf_open = None, zf_mtime = None, zf_json = Inr
     [(''data'', JObj [(''www'', JObj [(''alias'', JArr [])])])]\<rparr>"

text \<open>The reader accepts a label whose alias is an empty list; the search for the label indexes the list and panics.\<close>

lemma empty_alias_panics:
  "case ReadZoneFile (\<lambda>_. []) weight_sort (\<lambda>_. Some sample_soa) None empty_alias_file (NewZone ''example.com'') of
     Inl _ \<Rightarrow> False
   | Inr z \<Rightarrow> FindLabels (Suc d) z ''www'' [''@''] [TypeMF, TypeCNAME, TypeA] = Inl IndexOutOfRange"
  by code_simp

end
