(* ===== verification/Config.thy ===== *)
theory Config
  imports GeoIP
begin

unbundle bit_operations_syntax

text \<open>
  \<open>config.go\<close>: the configuration and the watcher that reads it again. The state is the global \<open>Config\<close> and the time of the last
  attempt to read it, 0 for the zero time. What \<open>os.Stat\<close>, the clock and the parser of the vendored library \<open>gcfg\<close>
  give at an attempt is a \<open>config_attempt\<close>; the events come from the vendored library \<open>fsnotify\<close>.
\<close>

section \<open>Configuration\<close>

record app_config =
  StatHat_ApiKey :: string
  Flags_HasStatHat :: bool
  GeoIP_Directory :: string
  HTTP_User :: string
  HTTP_Password :: string
  QueryLog_Path :: string
  QueryLog_MaxSize :: int
  QueryLog_Keep :: int
  Health_Directory :: string
  Nodeping_Token :: string
  Pingdom_Username :: string
  Pingdom_Password :: string
  Pingdom_AccountEmail :: string
  Pingdom_AppKey :: string
  Pingdom_StateMap :: string

definition zero_config :: app_config where
  "zero_config =
     \<lparr>StatHat_ApiKey = [], Flags_HasStatHat = False, GeoIP_Directory = [], HTTP_User = [], HTTP_Password = [],
      QueryLog_Path = [], QueryLog_MaxSize = 0, QueryLog_Keep = 0, Health_Directory = [], Nodeping_Token = [],
      Pingdom_Username = [], Pingdom_Password = [], Pingdom_AccountEmail = [], Pingdom_AppKey = [], Pingdom_StateMap = []\<rparr>"

definition HasStatHat :: "app_config \<Rightarrow> bool" where
  "HasStatHat conf = Flags_HasStatHat conf"

definition StatHatApiKey :: "app_config \<Rightarrow> string" where
  "StatHatApiKey conf = StatHat_ApiKey conf"

definition GeoIPDirectory :: "geo_fs \<Rightarrow> app_config \<Rightarrow> string" where
  "GeoIPDirectory fs conf = (if 0 < length (GeoIP_Directory conf) then GeoIP_Directory conf else FindDB fs)"

section \<open>Reading\<close>

record config_attempt =
  ca_Stat :: "string + int"
  ca_Now :: int
  ca_Parse :: "app_config \<Rightarrow> string + app_config"

record config_state =
  cs_Config :: app_config
  cs_lastReadConfig :: int

definition config_start :: config_state where
  "config_start = \<lparr>cs_Config = zero_config, cs_lastReadConfig = 0\<rparr>"

definition configReader :: "config_attempt \<Rightarrow> config_state \<Rightarrow> string option \<times> config_state" where
  "configReader a st =
     (case ca_Stat a of
        Inl err \<Rightarrow> (Some err, st)
      | Inr modTime \<Rightarrow>
          if \<not> cs_lastReadConfig st < modTime then (None, st)
          else
            let st = st\<lparr>cs_lastReadConfig := ca_Now a\<rparr>
            in case ca_Parse a zero_config of
                 Inl err \<Rightarrow> (Some err, st)
               | Inr cfg \<Rightarrow>
                   let cfg = cfg\<lparr>Flags_HasStatHat := 0 < length (StatHat_ApiKey cfg)\<rparr>
                   in (None, st\<lparr>cs_Config := cfg\<rparr>))"

text \<open>The operations of an event of \<open>fsnotify\<close> are bits.\<close>

definition fsnotify_Write :: int where "fsnotify_Write = 2"
definition fsnotify_Rename :: int where "fsnotify_Rename = 8"
definition fsnotify_Chmod :: int where "fsnotify_Chmod = 16"

datatype watch_event = WatchEvent string int config_attempt | WatchError string

fun watch_step :: "string \<Rightarrow> watch_event \<Rightarrow> config_state \<Rightarrow> config_state" where
  "watch_step fileName (WatchEvent name op a) st =
     (if name = fileName then
        if op AND fsnotify_Write = fsnotify_Write \<or> op AND fsnotify_Rename = fsnotify_Rename \<or>
           op AND fsnotify_Chmod = fsnotify_Chmod
        then snd (configReader a st)
        else st
      else st)"
| "watch_step fileName (WatchError err) st = st"

definition configWatcher :: "bool \<Rightarrow> string \<Rightarrow> watch_event list \<Rightarrow> config_state \<Rightarrow> config_state" where
  "configWatcher watching fileName evs st = (if watching then fold (watch_step fileName) evs st else st)"

section \<open>Lemmas\<close>

text \<open>The attempts the watcher makes.\<close>

fun attempt :: "string \<Rightarrow> watch_event \<Rightarrow> config_attempt list" where
  "attempt fileName (WatchEvent name op a) =
     (if name = fileName \<and> (op AND fsnotify_Write = fsnotify_Write \<or> op AND fsnotify_Rename = fsnotify_Rename \<or>
        op AND fsnotify_Chmod = fsnotify_Chmod) then [a] else [])"
| "attempt fileName (WatchError err) = []"

lemma watch_steps: "fold (watch_step f) evs st = fold (\<lambda>a st. snd (configReader a st)) (concat (map (attempt f) evs)) st"
proof (induction evs arbitrary: st)
  case (Cons e evs)
  then show ?case by (cases e) auto
qed simp

text \<open>The configuration an attempt gives when it reads the file and parses it.\<close>

definition loaded :: "config_attempt \<Rightarrow> app_config option" where
  "loaded a = (case ca_Parse a zero_config of
     Inr cfg \<Rightarrow> Some (cfg\<lparr>Flags_HasStatHat := StatHat_ApiKey cfg \<noteq> []\<rparr>) | Inl _ \<Rightarrow> None)"

text \<open>Of the attempts, those made on a file modified after the attempt before that was not skipped.\<close>

fun fresh_attempts :: "int \<Rightarrow> config_attempt list \<Rightarrow> config_attempt list" where
  "fresh_attempts t [] = []"
| "fresh_attempts t (a # as) =
     (case ca_Stat a of
        Inr m \<Rightarrow> if t < m then a # fresh_attempts (ca_Now a) as else fresh_attempts t as
      | Inl _ \<Rightarrow> fresh_attempts t as)"

lemma reads_config:
  "cs_Config (fold (\<lambda>a st. snd (configReader a st)) as st) =
     fold (\<lambda>a c. case loaded a of Some c' \<Rightarrow> c' | None \<Rightarrow> c) (fresh_attempts (cs_lastReadConfig st) as) (cs_Config st)"
proof (induction as arbitrary: st)
  case (Cons a as)
  show ?case
  proof (cases "ca_Stat a")
    case (Inr m)
    then show ?thesis
      by (cases "ca_Parse a zero_config") (simp_all add: Cons.IH configReader_def [of a] loaded_def [of a] Let_def)
  qed (simp add: Cons.IH configReader_def [of a])
qed simp

lemma last_loaded:
  "fold (\<lambda>a c. case loaded a of Some c' \<Rightarrow> c' | None \<Rightarrow> c) as c = last (c # List.map_filter loaded as)"
  by (induction as arbitrary: c) (auto simp: List.map_filter_simps split: option.splits)

section \<open>Properties\<close>

text \<open>C29. The configuration in use at runtime is the last one that parsed, of the attempt \<open>a\<close> that the main program makes at its start
  and those that the events of the watcher trigger, each on a file newer than the attempt before; a file that does not parse, or whose
  modification time lies before the last attempt, leaves it as it is. StatHat counts as configured exactly when there is a key.\<close>

theorem config_last_good:
  "let c = cs_Config (configWatcher True f evs (snd (configReader a config_start)));
       good = List.map_filter loaded (fresh_attempts 0 (a # concat (map (attempt f) evs)))
   in c = last (zero_config # good) \<and> (HasStatHat c \<longleftrightarrow> StatHatApiKey c \<noteq> [])"
proof -
  let ?as = "a # concat (map (attempt f) evs)"
  let ?good = "List.map_filter loaded (fresh_attempts 0 ?as)"
  have "cs_Config (configWatcher True f evs (snd (configReader a config_start))) =
      cs_Config (fold (\<lambda>a st. snd (configReader a st)) ?as config_start)"
    by (simp add: configWatcher_def watch_steps)
  then have c: "cs_Config (configWatcher True f evs (snd (configReader a config_start))) = last (zero_config # ?good)"
    unfolding reads_config last_loaded by (simp add: config_start_def)
  have "c \<in> set ?good \<Longrightarrow> HasStatHat c \<longleftrightarrow> StatHatApiKey c \<noteq> []" for c
    by (auto simp: List.map_filter_def loaded_def HasStatHat_def StatHatApiKey_def split: sum.splits)
  moreover have "HasStatHat zero_config \<longleftrightarrow> StatHatApiKey zero_config \<noteq> []" by code_simp
  ultimately have "HasStatHat (last (zero_config # ?good)) \<longleftrightarrow> StatHatApiKey (last (zero_config # ?good)) \<noteq> []"
    using last_in_set [of "zero_config # ?good"] by auto
  then show ?thesis unfolding Let_def c by blast
qed

end
