(* ===== verification/HttpMonitor.thy ===== *)
theory HttpMonitor
  imports Config GoSort Server
begin

text \<open>
  \<open>http.go\<close>: the monitoring page behind basic authentication, and the order of the list of zones by rate.
  A handler of \<open>net/http\<close> is a function from a request to the response it leaves with the client;
  \<open>http.ServeMux\<close> is written out for the two patterns the program registers. The handler of \<open>/metrics\<close> is that
  of the vendored Prometheus library and a parameter.
\<close>

section \<open>Requests and responses\<close>

record http_req =
  hr_Method :: string
  hr_RequestURI :: string
  hr_Path :: string
  hr_Form :: "(string \<times> string list) list"
  hr_BasicAuth :: "(string \<times> string) option"

record http_resp =
  hp_Status :: nat
  hp_Header :: "(string \<times> string) list"
  hp_Body :: string

type_synonym http_handler = "http_req \<Rightarrow> http_resp"

definition newline :: string where "newline = [CHR 0x0A]"

definition http_Error :: "(string \<times> string) list \<Rightarrow> string \<Rightarrow> nat \<Rightarrow> http_resp" where
  "http_Error headers error code =
     \<lparr>hp_Status = code,
      hp_Header = map_put ''X-Content-Type-Options'' ''nosniff''
                    (map_put ''Content-Type'' ''text/plain; charset=utf-8'' headers),
      hp_Body = error @ newline\<rparr>"

section \<open>The server\<close>

record httpServer =
  hs_zones :: "(string \<times> served_zone) list"
  hs_serverInfo :: server_info

definition NewHTTPServer :: "server mux_manager \<Rightarrow> server_info \<Rightarrow> httpServer" where
  "NewHTTPServer mm serverInfo = \<lparr>hs_zones = Zones mm, hs_serverInfo = serverInfo\<rparr>"

text \<open>The text after the version is a raw string: a backslash and an \<open>n\<close>.\<close>

definition mainServer :: "httpServer \<Rightarrow> http_handler" where
  "mainServer hs req =
     (if hr_RequestURI req \<noteq> ''/version'' then http_Error [] ''404 page not found'' 404
      else \<lparr>hp_Status = 200, hp_Header = [(''Content-Type'', ''text/plain'')],
            hp_Body = ''GeoDNS '' @ si_Version (hs_serverInfo hs) @ [CHR 0x5C, CHR ''n'']\<rparr>)"

definition cleanPath :: "string \<Rightarrow> string" where
  "cleanPath p =
     (if p = [] then ''/''
      else let p = (if p ! 0 \<noteq> CHR ''/'' then ''/'' @ p else p); np = path_Clean p
           in if last p = CHR ''/'' \<and> np \<noteq> ''/'' then np @ ''/'' else np)"

definition hs_Mux :: "http_handler \<Rightarrow> httpServer \<Rightarrow> http_handler" where
  "hs_Mux metrics hs req =
     (if hr_RequestURI req = ''*'' then \<lparr>hp_Status = 400, hp_Header = [], hp_Body = []\<rparr>
      else if hr_Method req \<noteq> ''CONNECT'' \<and> cleanPath (hr_Path req) \<noteq> hr_Path req
        then \<lparr>hp_Status = 301, hp_Header = [(''Location'', cleanPath (hr_Path req))], hp_Body = []\<rparr>
      else if hr_Path req = ''/metrics'' then metrics req
      else mainServer hs req)"

definition basicauth :: "app_config \<Rightarrow> http_handler \<Rightarrow> http_handler" where
  "basicauth conf h r =
     (let user = HTTP_User conf; password = HTTP_Password conf
      in if length user = 0 then h r
         else if (case hr_BasicAuth r of Some (ruser, rpass) \<Rightarrow> ruser = user \<and> rpass = password | None \<Rightarrow> False) then h r
         else http_Error [(''WWW-Authenticate'', ''Basic realm='' @ [CHR 0x22] @ ''GeoDNS Status'' @ [CHR 0x22])]
                ''Unauthorized'' 401)"

definition hs_Run :: "app_config \<Rightarrow> http_handler \<Rightarrow> httpServer \<Rightarrow> http_handler" where
  "hs_Run conf metrics hs = basicauth conf (hs_Mux metrics hs)"

definition topParam :: "http_req \<Rightarrow> int \<Rightarrow> int" where
  "topParam req def =
     (case map_get (hr_Form req) ''top'' [] of
        [] \<Rightarrow> def
      | s # _ \<Rightarrow> (case atoi s of Some n \<Rightarrow> n | None \<Rightarrow> def))"

section \<open>Rates\<close>

record rate =
  rt_Name :: string
  rt_Count :: int
  rt_Metrics :: zone_metrics

definition ratesByCount_less :: "rate \<Rightarrow> rate \<Rightarrow> bool" where
  "ratesByCount_less a b =
     (let ic = rt_Count a; jc = rt_Count b in if ic = jc then str_less (rt_Name a) (rt_Name b) else jc < ic)"

lemma str_less_linear: "str_less s t \<or> s = t \<or> str_less t s"
proof (induction s t rule: str_less.induct)
  case (4 c s d t)
  have "(of_char c :: nat) = of_char d \<Longrightarrow> c = d" by simp
  with 4 show ?case by auto
qed auto

lemma less_not_antisym: "ratesByCount_less a b \<Longrightarrow> \<not> ratesByCount_less b a"
  using str_less_trans [of "rt_Name a" "rt_Name b" "rt_Name a"] by (auto simp: ratesByCount_less_def Let_def split: if_splits)

lemma less_trans_rate: "ratesByCount_less a b \<Longrightarrow> ratesByCount_less b c \<Longrightarrow> ratesByCount_less a c"
  using str_less_trans [of "rt_Name a" "rt_Name b" "rt_Name c"] by (auto simp: ratesByCount_less_def Let_def split: if_splits)

text \<open>The order is linear on count and name, so the sorted list of zones is determined by the zones.\<close>

lemma less_total_rate:
  "ratesByCount_less a b \<or> ratesByCount_less b a \<or> rt_Count a = rt_Count b \<and> rt_Name a = rt_Name b"
  using str_less_linear [of "rt_Name a" "rt_Name b"] by (auto simp: ratesByCount_less_def Let_def)

section \<open>Properties\<close>

text \<open>With a user configured the monitor gives nothing away without the password: two servers with different
  zones, versions and metrics answer a request with no or other credentials in the same way, with status 401.
  With the right credentials, or without a user, the version page is served, its text ending in a backslash and
  an n instead of a new line.\<close>

theorem monitor_authentication:
  assumes "HTTP_User conf \<noteq> []"
  shows "(hr_BasicAuth r \<noteq> Some (HTTP_User conf, HTTP_Password conf) \<longrightarrow>
      hs_Run conf metrics hs r = hs_Run conf metrics' hs' r \<and> hp_Status (hs_Run conf metrics hs r) = 401) \<and>
    hs_Run conf metrics hs (r\<lparr>hr_RequestURI := ''/version'', hr_Path := ''/version'',
        hr_BasicAuth := Some (HTTP_User conf, HTTP_Password conf)\<rparr>) =
      \<lparr>hp_Status = 200, hp_Header = [(''Content-Type'', ''text/plain'')],
       hp_Body = ''GeoDNS '' @ si_Version (hs_serverInfo hs) @ [CHR 0x5C, CHR ''n'']\<rparr>"
proof -
  have "cleanPath ''/version'' = ''/version''" by code_simp
  with assms show ?thesis
    by (auto simp: hs_Run_def basicauth_def hs_Mux_def mainServer_def http_Error_def Let_def split: option.split)
qed

theorem monitor_authentication_witness:
  "hp_Status (hs_Run (zero_config\<lparr>HTTP_User := ''u'', HTTP_Password := ''p''\<rparr>) (\<lambda>_. http_Error [] [] 200)
     \<lparr>hs_zones = [], hs_serverInfo = sample_info\<rparr>
     \<lparr>hr_Method = ''GET'', hr_RequestURI = ''/metrics'', hr_Path = ''/metrics'', hr_Form = [], hr_BasicAuth = Some (''u'', ''q'')\<rparr>) = 401"
proof -
  let ?c = "zero_config\<lparr>HTTP_User := ''u'', HTTP_Password := ''p''\<rparr>"
  let ?hs = "\<lparr>hs_zones = [], hs_serverInfo = sample_info\<rparr>"
  have "HTTP_User ?c \<noteq> []" by simp
  from monitor_authentication [OF this, of "\<lparr>hr_Method = ''GET'', hr_RequestURI = ''/metrics'', hr_Path = ''/metrics'',
      hr_Form = [], hr_BasicAuth = Some (''u'', ''q'')\<rparr>" "\<lambda>_. http_Error [] [] 200" ?hs "\<lambda>_. http_Error [] [] 200" ?hs]
  show ?thesis by simp
qed

end
