(* ===== verification/Interfaces.thy ===== *)
theory Interfaces
  imports Server
begin

text \<open>
  \<open>util.go\<close>: the addresses the server listens on, from the value of the flag \<open>-interface\<close>, and the identity of
  the server it takes from them. \<open>log.Fatalf\<close>, which ends the process, is \<open>None\<close>. The set \<open>uniq\<close> of the code
  always has the elements of the list it returns, so the list serves for both.
\<close>

section \<open>The loop\<close>

definition str_contains :: "string \<Rightarrow> string \<Rightarrow> bool" where
  "str_contains s sub = (0 \<le> indexOf s sub)"

text \<open>The address and the port of one element, the port empty when there is none.\<close>

definition interface_host :: "string \<Rightarrow> (string \<times> string) option go" where
  "interface_host host =
     (case SplitHostPort host of
        Inr (ip, port) \<Rightarrow> Inr (Some (ip, port))
      | Inl err \<Rightarrow>
          if str_contains err ''missing port in address'' then Inr (Some (host, []))
          else if str_contains err ''too many colons in address'' \<and> lastIndex host (CHR '']'') = int (length host) - 1 then
            if length host < 2 then Inl SliceBounds else Inr (Some (take (length host - 2) (drop 1 host), []))
          else if str_contains err ''too many colons in address'' then Inr (Some (host, []))
          else Inr None)"

definition note_identity :: "string \<Rightarrow> server_info \<Rightarrow> server_info" where
  "note_identity ip si =
     (if ip \<noteq> ''127.0.0.1'' then
        let si = (if length (si_ID si) = 0 then si\<lparr>si_ID := ip\<rparr> else si)
        in if length (si_IP si) = 0 then si\<lparr>si_IP := ip\<rparr> else si
      else si)"

definition with_port :: "string \<Rightarrow> string \<times> string \<Rightarrow> string" where
  "with_port flagport ipp = (case ipp of (ip, port) \<Rightarrow> joinHostPort ip (if length port = 0 then flagport else port))"

fun interfaces_loop :: "string \<Rightarrow> string list \<Rightarrow> string list \<Rightarrow> server_info \<Rightarrow> (string list \<times> server_info) option go" where
  "interfaces_loop flagport [] hosts si = Inr (Some (hosts, si))"
| "interfaces_loop flagport (h # hs) hosts si =
     go_bind (interface_host h) (\<lambda>r.
       case r of
         None \<Rightarrow> Inr None
       | Some ipp \<Rightarrow>
           let host = with_port flagport ipp
           in if List.member hosts host then interfaces_loop flagport hs hosts si
              else interfaces_loop flagport hs (hosts @ [host]) (note_identity (fst ipp) si))"

definition getInterfaces :: "string \<Rightarrow> string \<Rightarrow> server_info \<Rightarrow> (string list \<times> server_info) option go" where
  "getInterfaces flagport flaginter si = interfaces_loop flagport (split_on (CHR '','') flaginter) [] si"

section \<open>Lemmas\<close>

text \<open>The address one element of the flag is listened on with.\<close>

definition listen_address :: "string \<Rightarrow> string \<Rightarrow> string option" where
  "listen_address flagport h = (case interface_host h of Inr (Some ipp) \<Rightarrow> Some (with_port flagport ipp) | _ \<Rightarrow> None)"

lemma indexOf_append: "str_contains (xs @ sub) sub"
proof (induction xs)
  case Nil
  show ?case by (cases sub) (simp_all add: str_contains_def hasPrefix_def)
qed (auto simp: str_contains_def Let_def)

lemma addr_error_contains: "str_contains (addr_error h e) e"
  using indexOf_append [of "''address '' @ h @ '': ''" e] indexOf_append [of "[]" e] by (simp add: addr_error_def)

lemma indexOf_char: "c \<notin> set s \<Longrightarrow> indexOf (s @ c # t) [c] = int (length s)"
  by (induction s) (auto simp: hasPrefix_def Let_def)

text \<open>Elements without brackets: no colon, one colon, more.\<close>

lemma split_no_colon: "CHR '':'' \<notin> set h \<Longrightarrow> SplitHostPort h = Inl (addr_error h missingPort)"
  by (simp add: SplitHostPort_def lastIndex_neg_iff Let_def)

lemma first_not_bracket: "CHR ''['' \<notin> set h \<Longrightarrow> h \<noteq> [] \<Longrightarrow> h ! 0 \<noteq> CHR ''[''"
  by (cases h) auto

lemma split_colon:
  assumes "CHR '':'' \<notin> set p" "CHR ''['' \<notin> set (a @ p)" "CHR '']'' \<notin> set (a @ p)"
  shows "SplitHostPort (a @ '':'' @ p) =
    (if CHR '':'' \<in> set a then Inl (addr_error (a @ '':'' @ p) tooManyColons) else Inr (a, p))"
proof -
  have "lastIndex (a @ CHR '':'' # p) (CHR '':'') = int (length a)" by (rule lastIndex_split [OF assms(1)])
  moreover have "(a @ CHR '':'' # p) ! 0 \<noteq> CHR ''[''" using assms(2) by (intro first_not_bracket) auto
  ultimately show ?thesis
    using assms by (simp add: SplitHostPort_def split_rest_def contains_char_def Let_def)
qed

text \<open>Elements in brackets, with and without a port.\<close>

lemma split_bracket:
  assumes "CHR '']'' \<notin> set v" "CHR ''['' \<notin> set v" "CHR '':'' \<notin> set p" "CHR ''['' \<notin> set p" "CHR '']'' \<notin> set p"
  shows "SplitHostPort (''['' @ v @ '']:'' @ p) = Inr (v, p)"
proof -
  let ?h = "CHR ''['' # v @ CHR '']'' # CHR '':'' # p"
  have "lastIndex ((CHR ''['' # v @ '']'') @ CHR '':'' # p) (CHR '':'') = int (length (CHR ''['' # v @ '']''))"
    by (rule lastIndex_split [OF assms(3)])
  then have i: "lastIndex ?h (CHR '':'') = int (length v) + 2" by simp
  have "indexOf ((CHR ''['' # v) @ CHR '']'' # CHR '':'' # p) '']'' = int (length (CHR ''['' # v))"
    using assms(1) by (intro indexOf_char) simp
  then have e: "indexOf ?h '']'' = int (length v) + 1" by simp
  have n: "nat (int (length v) + 2) = length v + 2" "nat (int (length v) + 1) = length v + 1" by simp_all
  show ?thesis
    using assms unfolding SplitHostPort_def Let_def append_Cons append_Nil i e
    by (simp add: split_rest_def contains_char_def n)
qed

lemma split_bracket_bare:
  assumes "CHR '']'' \<notin> set v" "CHR '':'' \<in> set v"
  shows "SplitHostPort (''['' @ v @ '']'') = Inl (addr_error (''['' @ v @ '']'') missingPort)"
proof -
  let ?h = "CHR ''['' # v @ '']''"
  have i: "\<not> lastIndex ?h (CHR '':'') < 0" using assms(2) by (simp add: lastIndex_neg_iff del: lastIndex.simps)
  have "indexOf ((CHR ''['' # v) @ CHR '']'' # []) '']'' = int (length (CHR ''['' # v))"
    using assms(1) by (intro indexOf_char) simp
  then have e: "indexOf ?h '']'' = int (length v) + 1" by simp
  show ?thesis
    using i e unfolding SplitHostPort_def Let_def append_Cons append_Nil by simp
qed

lemma split_double_bracket:
  assumes "CHR '']'' \<notin> set v" "CHR '':'' \<notin> set p"
  shows "SplitHostPort (''[['' @ v @ '']]:'' @ p) = Inl (addr_error (''[['' @ v @ '']]:'' @ p) missingPort)"
proof -
  let ?h = "CHR ''['' # CHR ''['' # v @ CHR '']'' # CHR '']'' # CHR '':'' # p"
  have "lastIndex ((CHR ''['' # CHR ''['' # v @ '']]'') @ CHR '':'' # p) (CHR '':'') = int (length (CHR ''['' # CHR ''['' # v @ '']]''))"
    by (rule lastIndex_split [OF assms(2)])
  then have i: "lastIndex ?h (CHR '':'') = int (length v) + 4" by simp
  have "indexOf ((CHR ''['' # CHR ''['' # v) @ CHR '']'' # CHR '']'' # CHR '':'' # p) '']'' = int (length (CHR ''['' # CHR ''['' # v))"
    using assms(1) by (intro indexOf_char) simp
  then have e: "indexOf ?h '']'' = int (length v) + 2" by simp
  have n: "nat (int (length v) + 2 + 1) = length v + 3" by simp
  show ?thesis
    unfolding SplitHostPort_def Let_def append_Cons append_Nil i e n by (simp add: nth_append)
qed

lemma interface_host_missing:
  "SplitHostPort h = Inl (addr_error h missingPort) \<Longrightarrow> interface_host h = Inr (Some (h, []))"
  using addr_error_contains [of h missingPort] by (simp add: interface_host_def missingPort_def)

lemma interface_host_colons:
  assumes "SplitHostPort h = Inl (addr_error h tooManyColons)" "h \<noteq> []" "CHR '']'' \<notin> set h"
  shows "interface_host h = Inr (Some (h, []))"
proof -
  have "lastIndex h (CHR '']'') < 0" using assms(3) by (simp add: lastIndex_neg_iff)
  then have "lastIndex h (CHR '']'') \<noteq> int (length h) - 1" using assms(2) by (cases h) auto
  with assms(1) addr_error_contains [of h tooManyColons] show ?thesis
    by (simp add: interface_host_def tooManyColons_def)
qed

definition no_brackets :: "string \<Rightarrow> bool" where
  "no_brackets s \<longleftrightarrow> CHR ''['' \<notin> set s \<and> CHR '']'' \<notin> set s"

lemmas listen_defs = listen_address_def with_port_def joinHostPort_def contains_char_def no_brackets_def

lemma listen_plain: "CHR '':'' \<notin> set h \<Longrightarrow> listen_address q h = Some (h @ '':'' @ q)"
  by (simp add: interface_host_missing [OF split_no_colon] listen_defs)

lemma listen_port:
  "CHR '':'' \<notin> set h \<Longrightarrow> CHR '':'' \<notin> set p \<Longrightarrow> p \<noteq> [] \<Longrightarrow> no_brackets (h @ p) \<Longrightarrow>
   listen_address q (h @ '':'' @ p) = Some (h @ '':'' @ p)"
  using split_colon [of p h] by (simp add: interface_host_def listen_defs)

lemma listen_ip6:
  assumes "CHR '':'' \<in> set a" "CHR '':'' \<notin> set b" "no_brackets (a @ b)"
  shows "listen_address q (a @ '':'' @ b) = Some (''['' @ (a @ '':'' @ b) @ '']:'' @ q)"
proof -
  have "SplitHostPort (a @ '':'' @ b) = Inl (addr_error (a @ '':'' @ b) tooManyColons)"
    using split_colon [of b a] assms by (simp add: no_brackets_def)
  then have "interface_host (a @ '':'' @ b) = Inr (Some (a @ '':'' @ b, []))"
    using assms by (intro interface_host_colons) (auto simp: no_brackets_def)
  then show ?thesis by (simp add: listen_defs)
qed

lemma listen_bracket:
  assumes "CHR '':'' \<in> set v" "CHR '':'' \<notin> set p" "p \<noteq> []" "no_brackets (v @ p)"
  shows "listen_address q (''['' @ v @ '']:'' @ p) = Some (''['' @ v @ '']:'' @ p)"
  using split_bracket [of v p] assms by (simp add: interface_host_def listen_defs)

lemma listen_bracket_bare:
  assumes "CHR '':'' \<in> set v" "no_brackets v"
  shows "listen_address q (''['' @ v @ '']'') = Some (''[['' @ v @ '']]:'' @ q)"
  using interface_host_missing [OF split_bracket_bare, of v] assms by (simp add: listen_defs)

text \<open>The loop never panics. It ends the process on an element that cannot be parsed; otherwise the addresses are those
  of the elements, each once.\<close>

lemma interface_host_no_panic: "interface_host h \<noteq> Inl p"
proof (cases "length h < 2")
  case True
  consider "CHR '':'' \<notin> set h" | "h = '':''" using True by (cases h) auto
  then show ?thesis
  proof cases
    case 1
    then show ?thesis using interface_host_missing [OF split_no_colon] by simp
  next
    case 2
    then show ?thesis using split_colon [of "[]" "[]"] by (simp add: interface_host_def)
  qed
qed (simp add: interface_host_def split: sum.split prod.split)

lemma interface_host_cases: "\<exists>r. interface_host h = Inr r"
  using interface_host_no_panic [of h] by (cases "interface_host h") auto

lemma interfaces_loop_result:
  "distinct hosts \<Longrightarrow>
   (if \<forall>h \<in> set hs. listen_address q h \<noteq> None
    then \<exists>hosts' si'. interfaces_loop q hs hosts si = Inr (Some (hosts', si')) \<and> distinct hosts' \<and>
      set hosts' = set hosts \<union> {a. \<exists>h \<in> set hs. listen_address q h = Some a}
    else interfaces_loop q hs hosts si = Inr None)"
proof (induction hs arbitrary: hosts si)
  case (Cons h hs)
  obtain r where r: "interface_host h = Inr r" using interface_host_cases by blast
  show ?case
  proof (cases r)
    case None
    with r show ?thesis by (simp add: listen_address_def)
  next
    case (Some ipp)
    with r have l: "listen_address q h = Some (with_port q ipp)" by (simp add: listen_address_def)
    show ?thesis
    proof (cases "with_port q ipp \<in> set hosts")
      case True
      with Cons.IH [OF Cons.prems, of si] r Some l show ?thesis
        by (auto split: if_split_asm)
    next
      case False
      with Cons.IH [of "hosts @ [with_port q ipp]" "note_identity (fst ipp) si"] Cons.prems r Some l show ?thesis
        by (auto split: if_split_asm)
    qed
  qed
qed simp

section \<open>Properties\<close>

text \<open>C28. What an element of \<open>-interface\<close> makes the server listen on. A host name or an IPv4 address gets the
  default port or keeps its own, an IPv6 address with more than one colon gets brackets and the default port, and a
  bracketed one with a port is kept: each time \<open>net.SplitHostPort\<close> takes the result apart into that address and port.
  An IPv6 address in brackets without a port, which the code means to accept, gets a second pair of brackets, and
  the result is no address.\<close>

theorem interface_forms:
  assumes "CHR '':'' \<notin> set h" "CHR '':'' \<notin> set p" "CHR '':'' \<notin> set q" "p \<noteq> []" "CHR '':'' \<in> set a" "CHR '':'' \<notin> set b"
    and "no_brackets h" "no_brackets p" "no_brackets q" "no_brackets a" "no_brackets b"
  defines "v \<equiv> a @ '':'' @ b"
  shows "map_option SplitHostPort (listen_address q h) = Some (Inr (h, q)) \<and>
    map_option SplitHostPort (listen_address q (h @ '':'' @ p)) = Some (Inr (h, p)) \<and>
    map_option SplitHostPort (listen_address q v) = Some (Inr (v, q)) \<and>
    map_option SplitHostPort (listen_address q (''['' @ v @ '']:'' @ p)) = Some (Inr (v, p)) \<and>
    (\<exists>err. map_option SplitHostPort (listen_address q (''['' @ v @ '']'')) = Some (Inl err))"
proof -
  have v: "CHR '':'' \<in> set v" "no_brackets v" using assms by (auto simp: no_brackets_def)
  have "SplitHostPort (h @ '':'' @ q) = Inr (h, q)" "SplitHostPort (h @ '':'' @ p) = Inr (h, p)"
    using assms split_colon [of q h] split_colon [of p h] by (simp_all add: no_brackets_def)
  moreover have "SplitHostPort (''['' @ v @ '']:'' @ q) = Inr (v, q)" "SplitHostPort (''['' @ v @ '']:'' @ p) = Inr (v, p)"
    using assms(2,3,8,9) v by (simp_all add: split_bracket no_brackets_def del: append_Cons append_Nil)
  moreover have "listen_address q v = Some (''['' @ v @ '']:'' @ q)"
    unfolding v_def using assms by (intro listen_ip6) (auto simp: no_brackets_def)
  ultimately show ?thesis
    using assms v listen_plain [of h q] listen_port [of h p q] listen_bracket [of v p q] listen_bracket_bare [of v q]
      split_double_bracket [of v q]
    by (simp add: no_brackets_def)
qed

theorem interface_forms_witness:
  "map_option SplitHostPort (listen_address ''53'' ''192.0.2.1'') = Some (Inr (''192.0.2.1'', ''53'')) \<and>
   (\<exists>err. map_option SplitHostPort (listen_address ''53'' ''[2001:db8::1]'') = Some (Inl err))"
proof -
  have "no_brackets ''192.0.2.1''" "no_brackets ''8053''" "no_brackets ''53''" "no_brackets ''2001:db8:''" "no_brackets ''1''"
    by code_simp+
  then show ?thesis using interface_forms [of "''192.0.2.1''" "''8053''" "''53''" "''2001:db8:''" "''1''"] by simp
qed

end
