(* ===== verification/Startup.thy ===== *)
theory Startup
  imports HttpMonitor Interfaces
begin

text \<open>
  \<open>geodns.go\<close>: the main program, from its flags to the running server, and the check of a configuration. What
  it finds outside, the attempt to read the configuration, the GeoIP files, the zone directory and the addresses
  of the machine, is a \<open>world\<close>. The goroutines it starts are the other theories: the zone manager's reloads,
  the watcher of \<open>Config\<close>, the listeners and the monitor. Profiling and the log files are left out.
\<close>

section \<open>Flags and surroundings\<close>

record main_flags =
  mf_config :: string
  mf_configfile :: string
  mf_checkconfig :: bool
  mf_identifier :: string
  mf_interface :: string
  mf_port :: string
  mf_http :: string
  mf_privatedebug :: bool
  mf_version :: bool

definition default_flags :: main_flags where
  "default_flags =
     \<lparr>mf_config = ''./dns/'', mf_configfile = ''geodns.conf'', mf_checkconfig = False, mf_identifier = [],
      mf_interface = ''*'', mf_port = ''53'', mf_http = '':8053'', mf_privatedebug = False, mf_version = False\<rparr>"

record main_world =
  mw_config :: "string \<Rightarrow> config_attempt"
  mw_geo :: geo_fs
  mw_ext :: "geo_provider option \<Rightarrow> externals"
  mw_zones :: zone_fs
  mw_listing :: "string \<Rightarrow> string + file_info list"
  mw_addrs :: "string list"
  mw_gitVersion :: string
  mw_uuid :: string
  mw_now :: int

record process =
  pr_config :: config_state
  pr_health :: "string option"
  pr_geo :: "geoip2 option"
  pr_manager :: "server mux_manager"
  pr_loadError :: "manager_error option"
  pr_listen :: "(string \<times> string) list"
  pr_http :: "string option"

datatype main_result = Exit int | Running process

section \<open>Steps of main\<close>

text \<open>\<open>init\<close>\<close>

definition main_init :: "main_world \<Rightarrow> server_info" where
  "main_init w =
     \<lparr>si_Version = (if 0 < length (mw_gitVersion w) then ''3.0.2'' @ ''/'' @ mw_gitVersion w else ''3.0.2''),
      si_ID = [], si_IP = [], si_UUID = mw_uuid w, si_Groups = [], si_Started = mw_now w\<rparr>"

definition set_identifier :: "string \<Rightarrow> server_info \<Rightarrow> server_info" where
  "set_identifier identifier si =
     (if 0 < length identifier then
        let ids = split_on (CHR '','') identifier;
            si = si\<lparr>si_ID := ids ! 0\<rparr>
        in if 1 < length ids then si\<lparr>si_Groups := drop 1 ids\<rparr> else si
      else si)"

definition configFileName :: "main_flags \<Rightarrow> string" where
  "configFileName f =
     (if hasPrefix (mf_configfile f) ''/'' then mf_configfile f
      else path_Clean (path_Join (mf_config f) (mf_configfile f)))"

text \<open>\<open>net.ParseCIDR\<close>, of which only the address is used, and \<open>IsGlobalUnicast\<close>.\<close>

definition ParseCIDR :: "string \<Rightarrow> ip option" where
  "ParseCIDR s =
     (let i = indexOf s ''/''
      in if i < 0 then None
         else let addr = take (nat i) s; bits = drop (nat i + 1) s;
                  (ip, iplen) = (case parseIPv4 addr of Some ip \<Rightarrow> (Some ip, 4) | None \<Rightarrow> (parseIPv6 addr, 16 :: nat))
              in case dtoi bits of (n, c, ok) \<Rightarrow>
                   if ip = None \<or> \<not> ok \<or> c \<noteq> length bits \<or> 8 * iplen < n then None else ip)"

definition IsGlobalUnicast :: "ip \<Rightarrow> bool" where
  "IsGlobalUnicast ip \<longleftrightarrow>
     (length ip = 4 \<or> length ip = 16) \<and> To4 ip \<noteq> Some [255, 255, 255, 255] \<and>
     To4 ip \<noteq> Some [0, 0, 0, 0] \<and> ip \<noteq> replicate 16 0 \<and> \<not> IsLoopback ip \<and>
     (case To4 ip of
        Some p \<Rightarrow> \<not> (224 \<le> p ! 0 \<and> p ! 0 < 240) \<and> \<not> (p ! 0 = 169 \<and> p ! 1 = 254)
      | None \<Rightarrow> ip ! 0 \<noteq> 255 \<and> \<not> (ip ! 0 = 254 \<and> 128 \<le> ip ! 1 \<and> ip ! 1 < 192))"

definition machine_addresses :: "string list \<Rightarrow> string" where
  "machine_addresses addrs =
     join '','' (concat (map (\<lambda>addr. case ParseCIDR addr of
        None \<Rightarrow> []
      | Some ip \<Rightarrow> if \<not> (IsLoopback ip \<or> IsGlobalUnicast ip) then [] else [IP_String ip]) addrs))"

definition geo_setup :: "geo_fs \<Rightarrow> app_config \<Rightarrow> geoip2 option" where
  "geo_setup fs conf =
     (if 0 < length (GeoIPDirectory fs conf)
      then case GeoIP2_New fs (GeoIPDirectory fs conf) of Inr g \<Rightarrow> Some g | Inl err \<Rightarrow> None
      else None)"

text \<open>\<open>ListenAndServe\<close>: one listener for each protocol.\<close>

definition listeners :: "string list \<Rightarrow> (string \<times> string) list" where
  "listeners hosts = concat (map (\<lambda>h. map (\<lambda>p. (p, h)) [''udp'', ''tcp'']) hosts)"

definition check_config :: "main_flags \<Rightarrow> main_world \<Rightarrow> main_result go" where
  "check_config f w =
     (case configReader (mw_config w (configFileName f)) config_start of
        (Some err, _) \<Rightarrow> Inr (Exit 2)
      | (None, _) \<Rightarrow>
          go_bind (NewMuxManager (mw_ext w None) NilReg (mw_zones w) (mw_listing w (mf_config f)) (mf_config f) () [] [])
            (\<lambda>(_, _, err). Inr (if err \<noteq> None then Exit 2 else Exit 0)))"

text \<open>The provider as the zone reader finds it. The one lookup it makes is that of a location, in \<open>SetLocations\<close>, and it has always called
  \<open>HasLocation\<close> before, which opens the database; what the \<open>Has\<close> methods answer does not depend on what is open.\<close>

definition reader_view :: "geo_fs \<Rightarrow> geoip2 \<Rightarrow> geo_provider" where
  "reader_view fs g = geo_view fs (snd (GeoIP2_HasLocation fs g))"

definition start_server :: "main_flags \<Rightarrow> main_world \<Rightarrow> server_info \<Rightarrow> main_result go" where
  "start_server f w si =
     (let st = snd (configReader (mw_config w (configFileName f)) config_start);
          conf = cs_Config st;
          flaginter = (if mf_interface f = ''*'' then machine_addresses (mw_addrs w) else mf_interface f)
      in go_bind (getInterfaces (mf_port f) flaginter si) (\<lambda>r.
           case r of
             None \<Rightarrow> Inr (Exit 1)
           | Some (hosts, si) \<Rightarrow>
               let geo = geo_setup (mw_geo w) conf;
                   srv = NewServer si;
                   srv = (if 0 < length (QueryLog_Path conf) then SetQueryLogger [] srv else srv)
               in go_bind (NewMuxManager (mw_ext w (map_option (reader_view (mw_geo w)) geo)) server_api (mw_zones w)
                             (mw_listing w (mf_config f)) (mf_config f) srv [] [])
                    (\<lambda>(mm, _, err).
                       Inr (Running \<lparr>pr_config = st,
                         pr_health = (if 0 < length (Health_Directory conf) then Some (Health_Directory conf) else None),
                         pr_geo = geo, pr_manager = mm, pr_loadError = err, pr_listen = listeners hosts,
                         pr_http = (if 0 < length (mf_http f) then Some (mf_http f) else None)\<rparr>))))"

definition geodns_main :: "main_flags \<Rightarrow> main_world \<Rightarrow> main_result go" where
  "geodns_main f w =
     (if mf_version f then Inr (Exit 0)
      else let si = set_identifier (mf_identifier f) (main_init w)
           in if mf_checkconfig f then check_config f w else start_server f w si)"

section \<open>The check\<close>

text \<open>A zone file that the check finds nothing wrong with: it reads, or it cannot be opened, in which case its hash is
  empty like that of a file not yet seen.\<close>

definition passes :: "externals \<Rightarrow> zone_fs \<Rightarrow> string \<Rightarrow> file_info \<Rightarrow> bool" where
  "passes ext fs path f \<longleftrightarrow>
     skip_file f \<or> sha256File ext fs (path_Join path (fi_Name f)) = [] \<or>
     (\<exists>z. ReadZoneFile (ext_fmtFloat ext) (ext_sort ext) (ext_newRR ext) (ext_geo ext)
            (fs_zone fs (path_Join path (fi_Name f))) (NewZone (base_name f)) = Inr z)"

definition named_zones :: "'r mux_manager \<Rightarrow> bool" where
  "named_zones mm \<longleftrightarrow> (\<forall>n \<in> set (keys (mm_zonelist mm)). n \<noteq> [])"

context registration_total
begin

lemma addHandler_total:
  assumes "n \<noteq> []" "named_zones mm"
  shows "\<exists>mm'. addHandler api n z mm = Inr mm' \<and> named_zones mm' \<and> mm_lastRead mm' = mm_lastRead mm \<and> mm_path mm' = mm_path mm"
proof -
  obtain z1 st where s: "SetupMetrics z (map_of (mm_zonelist mm) n) (mm_store mm) = (z1, st)" by force
  obtain r where "api_Add api n (setupHealthTests z1) (mm_reg mm) = Inr r" using add_total [OF assms(1)] by blast
  with assms show ?thesis by (simp add: addHandler_def s named_zones_def)
qed

lemma read_new_fresh:
  assumes "\<not> skip_file f" "named_zones mm" "map_of (mm_lastRead mm) (base_name f) = None"
  shows "\<exists>mm' err'. read_new ext api fs f err mm = Inr (mm', err') \<and> named_zones mm' \<and> mm_path mm' = mm_path mm \<and>
    set (keys (mm_lastRead mm')) = insert (base_name f) (set (keys (mm_lastRead mm))) \<and>
    (err' = None \<longleftrightarrow> err = None \<and> passes ext fs (mm_path mm) f)"
proof -
  let ?fn = "path_Join (mm_path mm) (fi_Name f)"
  let ?read = "ReadZoneFile (ext_fmtFloat ext) (ext_sort ext) (ext_newRR ext) (ext_geo ext) (fs_zone fs ?fn) (NewZone (base_name f))"
  let ?known = "\<lparr>zr_time = fi_ModTime f, zr_hash = []\<rparr>"
  let ?mm1 = "mm\<lparr>mm_lastRead := map_put (base_name f) ?known (mm_lastRead mm)\<rparr>"
  have r: "read_new ext api fs f err mm = (if [] = sha256File ext fs ?fn then Inr (?mm1, err)
      else case ?read of Inl e \<Rightarrow> Inr (?mm1, Some (ZoneError (base_name f) e))
        | Inr z \<Rightarrow> go_bind (addHandler api (base_name f) z (?mm1\<lparr>mm_lastRead :=
            map_put (base_name f) (?known\<lparr>zr_hash := sha256File ext fs ?fn\<rparr>) (mm_lastRead ?mm1)\<rparr>)) (\<lambda>mm. Inr (mm, err)))"
    using assms(3) unfolding read_new_def Let_def by (simp add: map_get_def split: sum.split)
  consider "sha256File ext fs ?fn = []" | e where "sha256File ext fs ?fn \<noteq> []" "?read = Inl e"
    | z where "sha256File ext fs ?fn \<noteq> []" "?read = Inr z" by (cases ?read) auto
  then show ?thesis
  proof cases
    case 3
    let ?mm2 = "?mm1\<lparr>mm_lastRead := map_put (base_name f) (?known\<lparr>zr_hash := sha256File ext fs ?fn\<rparr>) (mm_lastRead ?mm1)\<rparr>"
    have "named_zones ?mm2" using assms(2) by (simp add: named_zones_def)
    from addHandler_total [OF base_name_nonempty [OF assms(1)] this, of z] obtain mm'
      where "addHandler api (base_name f) z ?mm2 = Inr mm'" "named_zones mm'" "mm_lastRead mm' = mm_lastRead ?mm2" "mm_path mm' = mm_path ?mm2" by blast
    with 3 show ?thesis by (simp add: r passes_def)
  qed (use assms in \<open>simp_all add: r passes_def named_zones_def\<close>)
qed

lemma check_entries:
  assumes "listing_ok dir" "named_zones mm" "\<forall>f \<in> set dir. skip_file f \<or> base_name f \<notin> set (keys (mm_lastRead mm))"
  shows "\<exists>mm' seen' err'. go_fold (reload_entry ext api fs) dir (mm, seen, err) = Inr (mm', seen', err') \<and> named_zones mm' \<and>
    (err' = None \<longleftrightarrow> err = None \<and> list_all (passes ext fs (mm_path mm)) dir)"
  using assms
proof (induction dir arbitrary: mm seen err)
  case (Cons f dir)
  show ?case
  proof (cases "skip_file f")
    case True
    then have "passes ext fs (mm_path mm) f" by (simp add: passes_def)
    with True Cons.IH [of mm seen err] Cons.prems show ?thesis by (simp add: reload_entry_def listing_ok_Cons)
  next
    case False
    with Cons.prems have f: "listing_ok dir" "file_of dir (base_name f) = None" by (simp_all add: listing_ok_Cons)
    from False Cons.prems(3) have n: "map_of (mm_lastRead mm) (base_name f) = None" by (simp add: map_of_eq_None_keys)
    from read_new_fresh [OF False Cons.prems(2) n, of ext fs err] obtain mm1 err1 where
      mm1: "read_new ext api fs f err mm = Inr (mm1, err1)" "named_zones mm1" "mm_path mm1 = mm_path mm"
        "set (keys (mm_lastRead mm1)) = insert (base_name f) (set (keys (mm_lastRead mm)))"
        "err1 = None \<longleftrightarrow> err = None \<and> passes ext fs (mm_path mm) f" by blast
    have "\<forall>g \<in> set dir. skip_file g \<or> base_name g \<notin> set (keys (mm_lastRead mm1))"
      using Cons.prems(3) f(2) by (auto simp: mm1(4) find_None_iff)
    from Cons.IH [OF f(1) mm1(2) this, of "base_name f # seen" err1] mm1(1,3,5) n False show ?thesis
      by (auto simp: reload_entry_def)
  qed
qed simp

lemma drop_zones_total:
  "\<forall>e \<in> set es. fst e \<noteq> [] \<Longrightarrow> \<exists>mm'. go_fold (drop_zone api seen) es mm = Inr mm'"
proof (induction es arbitrary: mm)
  case (Cons e es)
  obtain n z where e: "e = (n, z)" by force
  with Cons.prems have "n \<noteq> []" by simp
  then have "\<exists>mm'. drop_zone api seen (n, z) mm = Inr mm'"
    using remove_total [of n "mm_reg mm"] by (auto simp: drop_zone_def removeHandler_def)
  with Cons show ?case by (auto simp: e)
qed simp

lemma start_check:
  assumes "listing_good listing" "setupPgeodnsZone ext api \<lparr>mm_reg = reg, mm_zonelist = [], mm_path = path, mm_lastRead = [], mm_store = []\<rparr> = Inr mm0"
  shows "\<exists>mm dm err. NewMuxManager ext api fs listing path reg [] [] = Inr (mm, dm, err) \<and>
    (err = None \<longleftrightarrow> (case listing of Inl _ \<Rightarrow> False | Inr dir \<Rightarrow> list_all (passes ext fs path) dir))"
proof (cases listing)
  case (Inr dir)
  with assms(1) have dir: "listing_ok dir" by simp
  let ?m = "\<lparr>mm_reg = reg, mm_zonelist = [], mm_path = path, mm_lastRead = [], mm_store = []\<rparr>"
  from assms(2) obtain z where "addHandler api ''pgeodns'' z ?m = Inr mm0"
    by (auto simp: setupPgeodnsZone_def go_bind_Inr Let_def)
  moreover have "named_zones ?m" by (simp add: named_zones_def)
  ultimately have m0: "named_zones mm0" "mm_lastRead mm0 = []" "mm_path mm0 = path"
    using addHandler_total [of "''pgeodns''" ?m z] by auto
  from check_entries [OF dir m0(1), of ext fs "[]" None] m0 obtain mm1 seen err where
    mm1: "go_fold (reload_entry ext api fs) dir (mm0, [], None) = Inr (mm1, seen, err)" "named_zones mm1"
      "err = None \<longleftrightarrow> list_all (passes ext fs path) dir" by (auto simp: keys_def)
  from mm1(2) have "\<forall>e \<in> set (mm_zonelist mm1). fst e \<noteq> []" by (auto simp: named_zones_def keys_def)
  from drop_zones_total [OF this, of seen mm1] obtain mm2 where "go_fold (drop_zone api seen) (mm_zonelist mm1) mm1 = Inr mm2" by blast
  with assms(2) mm1(1,3) show ?thesis
    by (simp add: Inr NewMuxManager_def setupRootZone_def mux_Handle_def Let_def reload_def)
qed (use assms(2) in \<open>simp add: NewMuxManager_def setupRootZone_def mux_Handle_def Let_def reload_def\<close>)

end

section \<open>The running server\<close>

context registration
begin

lemma start_abs:
  assumes "NewMuxManager ext api fs (Inr dir) path reg [] dm = Inr (mm, dm', err)" "handler reg = Map.empty" "listing_ok dir"
  shows "managed ext api reg mm \<and>
    (\<forall>n. n \<noteq> ''pgeodns'' \<longrightarrow> mm_abs mm n = spec_reload ext fs path dir (\<lambda>_. (None, None)) n)"
proof
  show "managed ext api reg mm" using managed.started [OF assms(1)] assms(3) by simp
  let ?m = "\<lparr>mm_reg = reg, mm_zonelist = [], mm_path = path, mm_lastRead = [], mm_store = []\<rparr>"
  from assms(1) obtain m1 where m1: "setupPgeodnsZone ext api ?m = Inr m1" and r: "reload ext api fs (Inr dir) m1 = Inr (mm, err)"
    by (auto simp: NewMuxManager_def go_bind_Inr Let_def)
  from m1 obtain z ls where z: "addSOA (ext_newRR ext) ((NewZone ''pgeodns'')\<lparr>z_Labels := ls\<rparr>) = Inr z"
      "addHandler api ''pgeodns'' z ?m = Inr m1" by (auto simp: setupPgeodnsZone_def go_bind_Inr AddSOA_def Let_def)
  from addSOA_head [OF z(1)] have "fresh_zone ''pgeodns'' z" by (simp add: zone_head_def fresh_zone_def NewZone_def)
  from addHandler_ok [OF start_inv [OF assms(2), of path] name_ok_pgeodns this] z(2) obtain z' where
    m1': "mm_inv handler m1" "mm_path m1 = path" "map_of (mm_zonelist m1) = [''pgeodns'' \<mapsto> z']" "mm_lastRead m1 = []" by auto
  from reload_ok [OF m1'(1) assms(3), of ext fs] r have "mm_abs mm = spec_reload ext fs path dir (mm_abs m1)" using m1'(2) by auto
  moreover have "mm_abs m1 n = (None, None)" if "n \<noteq> ''pgeodns''" for n using that by (simp add: mm_abs_def m1'(3,4))
  ultimately show "\<forall>n. n \<noteq> ''pgeodns'' \<longrightarrow> mm_abs mm n = spec_reload ext fs path dir (\<lambda>_. (None, None)) n"
    by (simp add: spec_reload_def split: option.split)
qed

end





section \<open>Properties\<close>

text \<open>C16. The check of a configuration exits with 0 exactly when the configuration file is there and parses, the zone directory can
  be listed and every zone file in it reads, and with 2 otherwise; it never panics, provided the built-in zone
  \<open>pgeodns\<close> can be set up and there is one file for each zone name. There are two exceptions: a configuration file modified before the zero
  time is not parsed, and a zone file that cannot be opened counts as unchanged and passes.\<close>

theorem check_config_verdict:
  assumes "mf_checkconfig f" "\<not> mf_version f" "listing_good (mw_listing w (mf_config f))"
    and "setupPgeodnsZone (mw_ext w None) NilReg
       \<lparr>mm_reg = (), mm_zonelist = [], mm_path = mf_config f, mm_lastRead = [], mm_store = []\<rparr> = Inr mm0"
  shows "geodns_main f w = Inr (Exit (if
    (case ca_Stat (mw_config w (configFileName f)) of Inl _ \<Rightarrow> False
     | Inr m \<Rightarrow> m \<le> 0 \<or> (\<exists>cfg. ca_Parse (mw_config w (configFileName f)) zero_config = Inr cfg)) \<and>
    (case mw_listing w (mf_config f) of Inl _ \<Rightarrow> False
     | Inr dir \<Rightarrow> list_all (passes (mw_ext w None) (mw_zones w) (mf_config f)) dir) then 0 else 2))"
proof -
  let ?a = "mw_config w (configFileName f)"
  obtain mm dm err where
    start: "NewMuxManager (mw_ext w None) NilReg (mw_zones w) (mw_listing w (mf_config f)) (mf_config f) () [] [] = Inr (mm, dm, err)"
      "err = None \<longleftrightarrow> (case mw_listing w (mf_config f) of Inl _ \<Rightarrow> False
         | Inr dir \<Rightarrow> list_all (passes (mw_ext w None) (mw_zones w) (mf_config f)) dir)"
    using nilreg.start_check [OF assms(3,4), of "mw_zones w"] by blast
  have "fst (configReader ?a config_start) = None \<longleftrightarrow> (case ca_Stat ?a of Inl _ \<Rightarrow> False
     | Inr m \<Rightarrow> m \<le> 0 \<or> (\<exists>cfg. ca_Parse ?a zero_config = Inr cfg))"
    by (auto simp: configReader_def config_start_def Let_def split: sum.splits)
  with start assms(1,2) show ?thesis
    by (cases "configReader ?a config_start") (auto simp: geodns_main_def check_config_def split: option.splits)
qed

definition sample_world :: "zone_file \<Rightarrow> main_world" where
  "sample_world zf =
     \<lparr>mw_config = (\<lambda>_. \<lparr>ca_Stat = Inr 7, ca_Now = 9, ca_Parse = Inr\<rparr>), mw_geo = sample_fs False, mw_ext = (\<lambda>_. sample_ext),
      mw_zones = sample_zones ''v1'' zf, mw_listing = (\<lambda>_. Inr (sample_listing 5)), mw_addrs = [''192.0.2.1/24''],
      mw_gitVersion = [], mw_uuid = ''u'', mw_now = 9\<rparr>"

context registration_total
begin

lemma sample_pgeodns:
  "\<exists>mm. setupPgeodnsZone sample_ext api \<lparr>mm_reg = reg, mm_zonelist = [], mm_path = p, mm_lastRead = [], mm_store = []\<rparr> = Inr mm"
proof -
  let ?m = "\<lparr>mm_reg = reg, mm_zonelist = [], mm_path = p, mm_lastRead = [], mm_store = []\<rparr>"
  have "\<exists>z. setupPgeodnsZone sample_ext api ?m = addHandler api ''pgeodns'' z ?m"
    by (simp add: setupPgeodnsZone_def AddSOA_def addSOA_def sample_ext_def NewZone_def Let_def) blast
  moreover have "named_zones ?m" by (simp add: named_zones_def)
  ultimately show ?thesis using addHandler_total [of "''pgeodns''" ?m] by fastforce
qed

end

lemma sample_passes:
  "list_all (passes sample_ext (sample_zones ''v1'' sample_file) p) (sample_listing 5)"
  "\<not> list_all (passes sample_ext (sample_zones ''v1'' broken_file) p) (sample_listing 5)"
  using sample_reads sample_listing_ok(3,4) [of 5]
  by (simp_all add: passes_def sample_listing_def sample_zones_def sha256File_def) (simp add: sample_ext_def)

theorem check_config_verdict_witness:
  "geodns_main (default_flags\<lparr>mf_checkconfig := True\<rparr>) (sample_world sample_file) = Inr (Exit 0) \<and>
   geodns_main (default_flags\<lparr>mf_checkconfig := True\<rparr>) (sample_world broken_file) = Inr (Exit 2) \<and>
   geodns_main (default_flags\<lparr>mf_checkconfig := True\<rparr>)
     ((sample_world sample_file)\<lparr>mw_config := \<lambda>_. \<lparr>ca_Stat = Inl ''no such file'', ca_Now = 9, ca_Parse = Inr\<rparr>\<rparr>) = Inr (Exit 2) \<and>
   geodns_main (default_flags\<lparr>mf_checkconfig := True\<rparr>) ((sample_world sample_file)\<lparr>mw_listing := \<lambda>_. Inl ''no such directory''\<rparr>) = Inr (Exit 2)"
proof -
  let ?f = "default_flags\<lparr>mf_checkconfig := True\<rparr>"
  obtain mm0 where mm0: "setupPgeodnsZone sample_ext NilReg
      \<lparr>mm_reg = (), mm_zonelist = [], mm_path = mf_config ?f, mm_lastRead = [], mm_store = []\<rparr> = Inr mm0"
    using nilreg.sample_pgeodns by blast
  note verdict = check_config_verdict [of ?f _ mm0]
  have "geodns_main ?f (sample_world zf) = Inr (Exit (if list_all (passes sample_ext (sample_zones ''v1'' zf) (mf_config ?f))
      (sample_listing 5) then 0 else 2))" for zf
    using verdict [of "sample_world zf"] mm0 sample_listing_ok(2) [of 5]
    by (simp add: sample_world_def default_flags_def)
  moreover have "geodns_main ?f ((sample_world sample_file)\<lparr>mw_config := \<lambda>_. \<lparr>ca_Stat = Inl ''no such file'', ca_Now = 9, ca_Parse = Inr\<rparr>\<rparr>) = Inr (Exit 2)"
    "geodns_main ?f ((sample_world sample_file)\<lparr>mw_listing := \<lambda>_. Inl ''no such directory''\<rparr>) = Inr (Exit 2)"
    by (subst verdict; use mm0 sample_listing_ok(2) [of 5] in \<open>simp add: sample_world_def default_flags_def\<close>)+
  ultimately show ?thesis using sample_passes by simp
qed



end
