(* ===== verification/HealthTest.thy ===== *)
theory HealthTest
  imports Targeting
begin

text \<open>
  \<open>health/healthtest/healthtest.go\<close>: a health test polls one address, or one source for many addresses, and the
  runner shares running tests between the labels that use them. Times and durations are nanoseconds. A tester
  is an object the tests point to, so a test holds its address in a store of testers. \<open>run\<close> is the loop of a
  goroutine: \<open>run_step\<close> is one round of its \<open>select\<close>, and the goroutines that poll are counted.
\<close>

section \<open>Data\<close>

record HealthTestParameters =
  frequency :: int
  retryTime :: int
  timeout :: int
  retries :: int
  healthyInitially :: bool
  testName :: string
  global :: bool

text \<open>The testers of \<open>healthtesters.go\<close> with their fields; the time a file was last read is \<open>None\<close> while it is
  the zero time.\<close>

datatype HealthTester =
    TcpHealthTester int
  | NtpHealthTester int
  | ExecHealthTester string
  | FileHealthTester string string "int option"
  | NodepingHealthTester string
  | PingdomHealthTester string string string string "(string \<times> bool) list option"

record health_test =
  parameters :: HealthTestParameters
  ipAddress :: ip
  healthy :: bool
  tester :: nat
  globalMap :: "(string \<times> bool) list"

record runner_entry =
  entry_test :: health_test
  references :: "string list"

type_synonym testers = "nat \<Rightarrow> HealthTester"

text \<open>The runner, with the keys of the tests whose goroutine runs.\<close>

record test_runner =
  entries :: "(string \<times> runner_entry) list"
  running :: "string list"

section \<open>A test\<close>

definition Second :: int where "Second = 1000000000"

definition defaultHealthTestParameters :: HealthTestParameters where
  "defaultHealthTestParameters =
     \<lparr>frequency = 30 * Second, retryTime = 5 * Second, timeout = 5 * Second, retries = 3,
      healthyInitially = False, testName = [], global = False\<rparr>"

definition at_least_second :: "int \<Rightarrow> int" where
  "at_least_second d = (if d < Second then Second else d)"

definition NewTest :: "ip \<Rightarrow> HealthTestParameters \<Rightarrow> nat \<Rightarrow> health_test" where
  "NewTest ip htp t =
     \<lparr>parameters = htp\<lparr>frequency := at_least_second (frequency htp), retryTime := at_least_second (retryTime htp),
                        timeout := at_least_second (timeout htp)\<rparr>,
      ipAddress = ip, healthy = healthyInitially htp, tester = t, globalMap = []\<rparr>"

definition fmtBool :: "bool \<Rightarrow> string" where
  "fmtBool b = (if b then ''true'' else ''false'')"

text \<open>The \<open>%v\<close> of the parameters: the fields are not exported, so durations print as numbers.\<close>

definition fmtParameters :: "HealthTestParameters \<Rightarrow> string" where
  "fmtParameters p =
     ''{'' @ join '' '' [itoa (frequency p), itoa (retryTime p), itoa (timeout p), itoa (retries p),
                       fmtBool (healthyInitially p), testName p, fmtBool (global p)] @ ''}''"

fun tester_String :: "((string \<times> bool) list option \<Rightarrow> string) \<Rightarrow> HealthTester \<Rightarrow> string" where
  "tester_String fmtMap (TcpHealthTester port) = itoa port"
| "tester_String fmtMap (NtpHealthTester maxStratum) = itoa maxStratum"
| "tester_String fmtMap (ExecHealthTester cmd) = cmd"
| "tester_String fmtMap (FileHealthTester path _ _) = path"
| "tester_String fmtMap (NodepingHealthTester token) = token"
| "tester_String fmtMap (PingdomHealthTester username password accountEmail appKey stateMap) =
     join ''/'' [username, password, accountEmail, appKey, fmtMap stateMap]"

definition ht_String :: "((string \<times> bool) list option \<Rightarrow> string) \<Rightarrow> testers \<Rightarrow> health_test \<Rightarrow> string" where
  "ht_String fmtMap ts ht =
     join ''/'' [if global (parameters ht) then [] else IP_String (ipAddress ht), fmtParameters (parameters ht),
               tester_String fmtMap (ts (tester ht))]"

definition ht_copy :: "health_test \<Rightarrow> ip \<Rightarrow> health_test" where
  "ht_copy ht ip = NewTest ip (parameters ht) (tester ht)"

definition setGlobal :: "(string \<times> bool) list \<Rightarrow> health_test \<Rightarrow> health_test" where
  "setGlobal g ht = ht\<lparr>globalMap := g\<rparr>"

definition getGlobal :: "health_test \<Rightarrow> string \<Rightarrow> bool option" where
  "getGlobal ht k = map_of (globalMap ht) k"

definition setHealthy :: "bool \<Rightarrow> health_test \<Rightarrow> health_test" where
  "setHealthy h ht = ht\<lparr>healthy := h\<rparr>"

section \<open>The polling loop\<close>

text \<open>The variables of \<open>run\<close>, the number of \<open>poll\<close> goroutines that have not delivered their result, and
  whether \<open>run\<close> has returned, after which \<open>Stop\<close> closes the channel \<open>poll\<close> sends on.\<close>

record run_state =
  run_test :: health_test
  nextPoll :: int
  pollStart :: "int option"
  failCount :: int
  polls :: nat
  returned :: bool

datatype run_event = Closing | StartPoll int | Health bool

text \<open>\<open>rand.Int63n\<close> panics unless its argument is positive.\<close>

definition rand_Int63n :: "(int \<Rightarrow> int) \<Rightarrow> int \<Rightarrow> int go" where
  "rand_Int63n int63n n = (if n \<le> 0 then Inl IntnArgument else Inr (int63n n))"

definition run_init :: "(int \<Rightarrow> int) \<Rightarrow> int \<Rightarrow> health_test \<Rightarrow> run_state go" where
  "run_init int63n now ht =
     (let p = parameters ht
      in go_bind (rand_Int63n int63n (frequency p)) (\<lambda>randomDelay.
         go_bind (if \<not> healthy ht then rand_Int63n int63n (retryTime p) else Inr randomDelay) (\<lambda>randomDelay.
         Inr \<lparr>run_test = ht, nextPoll = now + randomDelay, pollStart = None, failCount = 0, polls = 0, returned = False\<rparr>)))"

definition health_result :: "bool \<Rightarrow> run_state \<Rightarrow> run_state" where
  "health_result h s =
     (let p = parameters (run_test s);
          start = (case pollStart s of None \<Rightarrow> 0 | Some t \<Rightarrow> t);
          s = s\<lparr>nextPoll := start + frequency p\<rparr>;
          s = (if h then s\<lparr>run_test := setHealthy True (run_test s), failCount := 0\<rparr>
               else let s = s\<lparr>failCount := wrap64 (failCount s + 1)\<rparr>
                    in if retries p \<le> failCount s
                       then s\<lparr>run_test := setHealthy False (run_test s), nextPoll := start + retryTime p\<rparr>
                       else s)
      in s\<lparr>pollStart := None\<rparr>)"

text \<open>A round of the loop. An event that the \<open>select\<close> cannot take in a state is \<open>None\<close>: a request to close and
  the timer are only listened to while no poll runs, the timer fires at \<open>nextPoll\<close> or later, and a result needs
  a poll that sends it.\<close>

fun run_step :: "run_event \<Rightarrow> run_state \<Rightarrow> run_state option" where
  "run_step Closing s = (if returned s \<or> pollStart s \<noteq> None then None else Some (s\<lparr>returned := True\<rparr>))"
| "run_step (StartPoll now) s =
     (if returned s \<or> pollStart s \<noteq> None \<or> now < nextPoll s then None
      else Some (s\<lparr>pollStart := Some now, polls := polls s + 1\<rparr>))"
| "run_step (Health h) s =
     (if returned s \<or> polls s = 0 then None else Some (health_result h (s\<lparr>polls := polls s - 1\<rparr>)))"

fun run_loop :: "run_event list \<Rightarrow> run_state \<Rightarrow> run_state option" where
  "run_loop [] s = Some s"
| "run_loop (e # es) s = (case run_step e s of None \<Rightarrow> None | Some s' \<Rightarrow> run_loop es s')"

section \<open>The runner\<close>

text \<open>\<open>start\<close> and \<open>Stop\<close> of the test of an entry begin and end its goroutine.\<close>

definition ht_start :: "string \<Rightarrow> test_runner \<Rightarrow> test_runner" where
  "ht_start key r = r\<lparr>running := key # running r\<rparr>"

definition ht_Stop :: "string \<Rightarrow> test_runner \<Rightarrow> test_runner" where
  "ht_Stop key r = (if key \<in> set (running r) then r\<lparr>running := remove1 key (running r)\<rparr> else r)"

definition add_ref :: "string \<Rightarrow> string \<Rightarrow> runner_entry \<Rightarrow> test_runner \<Rightarrow> test_runner" where
  "add_ref key ref t r = r\<lparr>entries := map_put key (t\<lparr>references := List.insert ref (references t)\<rparr>) (entries r)\<rparr>"

definition drop_ref :: "string \<Rightarrow> string \<Rightarrow> runner_entry \<Rightarrow> test_runner \<Rightarrow> test_runner" where
  "drop_ref key ref t r =
     (let t = t\<lparr>references := removeAll ref (references t)\<rparr>;
          r = r\<lparr>entries := map_put key t (entries r)\<rparr>
      in if length (references t) = 0
         then let r = ht_Stop key r in r\<lparr>entries := map_del key (entries r)\<rparr>
         else r)"

definition addTest ::
  "((string \<times> bool) list option \<Rightarrow> string) \<Rightarrow> testers \<Rightarrow> health_test \<Rightarrow> string \<Rightarrow> test_runner \<Rightarrow> test_runner" where
  "addTest fmtMap ts ht ref r =
     (let key = ht_String fmtMap ts ht
      in case map_of (entries r) key of
           Some t \<Rightarrow> add_ref key ref t r
         | None \<Rightarrow>
             let t = ht_copy ht (ipAddress ht);
                 t = (if global (parameters t) then t\<lparr>ipAddress := []\<rparr> else t);
                 t = t\<lparr>healthy := healthy ht\<rparr>;
                 r = ht_start key r
             in r\<lparr>entries := map_put key \<lparr>entry_test = t, references = [ref]\<rparr> (entries r)\<rparr>)"

definition removeTest ::
  "((string \<times> bool) list option \<Rightarrow> string) \<Rightarrow> testers \<Rightarrow> health_test \<Rightarrow> string \<Rightarrow> test_runner \<Rightarrow> health_test \<times> test_runner" where
  "removeTest fmtMap ts ht ref r =
     (let key = ht_String fmtMap ts ht
      in case map_of (entries r) key of
           None \<Rightarrow> (ht, r)
         | Some t \<Rightarrow> (ht\<lparr>healthy := healthy (entry_test t)\<rparr>, drop_ref key ref t r))"

definition ref_global :: "string \<Rightarrow> bool \<Rightarrow> string \<times> runner_entry \<Rightarrow> test_runner \<Rightarrow> test_runner" where
  "ref_global ref add kt r =
     (let (key, t) = kt
      in if global (parameters (entry_test t)) then
           if add then add_ref key ref t r else drop_ref key ref t r
         else r)"

definition refAllGlobalHealthChecks :: "string \<Rightarrow> bool \<Rightarrow> test_runner \<Rightarrow> test_runner" where
  "refAllGlobalHealthChecks ref add r = fold (ref_global ref add) (entries r) r"

definition runner_isHealthy ::
  "((string \<times> bool) list option \<Rightarrow> string) \<Rightarrow> testers \<Rightarrow> test_runner \<Rightarrow> health_test \<Rightarrow> bool" where
  "runner_isHealthy fmtMap ts r ht =
     (case map_of (entries r) (ht_String fmtMap ts ht) of
        None \<Rightarrow> healthy ht
      | Some t \<Rightarrow>
          if global (parameters (entry_test t)) then
            (case getGlobal (entry_test t) (IP_String (ipAddress ht)) of Some h \<Rightarrow> h | None \<Rightarrow> healthy ht)
          else healthy (entry_test t))"

section \<open>The polling loop: results and times\<close>

definition results :: "run_event list \<Rightarrow> bool list" where
  "results es = concat (map (\<lambda>e. case e of Health h \<Rightarrow> [h] | _ \<Rightarrow> []) es)"

definition starts :: "run_event list \<Rightarrow> int list" where
  "starts es = concat (map (\<lambda>e. case e of StartPoll t \<Rightarrow> [t] | _ \<Rightarrow> []) es)"

text \<open>The failures since the last success, and the verdict they give.\<close>

definition streak :: "bool list \<Rightarrow> nat" where
  "streak rs = length (takeWhile Not (rev rs))"

definition verdict :: "int \<Rightarrow> bool \<Rightarrow> bool list \<Rightarrow> bool" where
  "verdict n initially rs =
     (if 0 < streak rs \<and> n \<le> int (streak rs) then False else if streak rs < length rs then True else initially)"

fun spaced :: "int \<Rightarrow> int list \<Rightarrow> bool" where
  "spaced d (a # b # ts) = (a + d \<le> b \<and> spaced d (b # ts))"
| "spaced d _ = True"

definition poll_gap :: "HealthTestParameters \<Rightarrow> int" where
  "poll_gap p = min (frequency p) (retryTime p)"

text \<open>What holds between the events so far and the variables of \<open>run\<close>.\<close>

definition run_ok :: "health_test \<Rightarrow> run_event list \<Rightarrow> run_state \<Rightarrow> bool" where
  "run_ok ht es s \<longleftrightarrow>
     run_test s = ht\<lparr>healthy := verdict (retries (parameters ht)) (healthy ht) (results es)\<rparr> \<and>
     failCount s = int (streak (results es)) \<and>
     polls s = (if pollStart s = None then 0 else 1) \<and> (returned s \<longrightarrow> pollStart s = None) \<and>
     spaced (poll_gap (parameters ht)) (starts es) \<and>
     (case pollStart s of
        Some t \<Rightarrow> starts es \<noteq> [] \<and> last (starts es) = t
      | None \<Rightarrow> starts es \<noteq> [] \<longrightarrow> last (starts es) + poll_gap (parameters ht) \<le> nextPoll s)"

lemma results_simps [simp]:
  "results [] = []" "results (es @ [Closing]) = results es" "results (es @ [StartPoll t]) = results es"
  "results (es @ [Health h]) = results es @ [h]"
  by (simp_all add: results_def)

lemma starts_simps [simp]:
  "starts [] = []" "starts (es @ [Closing]) = starts es" "starts (es @ [StartPoll t]) = starts es @ [t]"
  "starts (es @ [Health h]) = starts es"
  by (simp_all add: starts_def)

lemma streak_simps [simp]: "streak [] = 0" "streak (rs @ [h]) = (if h then 0 else streak rs + 1)"
  by (simp_all add: streak_def)

lemma streak_le: "streak rs \<le> length rs"
  by (metis streak_def length_takeWhile_le length_rev)

lemma verdict_snoc: "verdict n i (rs @ [h]) = (if h then True else if n \<le> int (streak rs + 1) then False else verdict n i rs)"
  using streak_le [of rs] by (auto simp: verdict_def)

lemma spaced_snoc [simp]: "spaced d (ts @ [t]) \<longleftrightarrow> spaced d ts \<and> (ts \<noteq> [] \<longrightarrow> last ts + d \<le> t)"
  by (induction d ts rule: spaced.induct) auto

lemma run_loop_snoc: "run_loop (es @ [e]) s = (case run_loop es s of None \<Rightarrow> None | Some s' \<Rightarrow> run_step e s')"
  by (induction es arbitrary: s) (auto split: option.split)

lemma run_init_ok: "run_init int63n now ht = Inr s \<Longrightarrow> run_ok ht [] s"
  by (auto simp: run_ok_def run_init_def Let_def verdict_def go_bind_Inr)

lemma run_step_ok:
  assumes ok: "run_ok ht es s" and step: "run_step e s = Some s'" and len: "int (length (results (es @ [e]))) < 2 ^ 63"
  shows "run_ok ht (es @ [e]) s'"
proof (cases e)
  case (Health h)
  have "int (streak (results es)) + 1 < 2 ^ 63" using len streak_le [of "results es"] by (simp add: Health)
  then have w: "wrap64 (int (streak (results es)) + 1) = int (streak (results es)) + 1" by (intro wrap64_id) (simp add: int64_def)
  show ?thesis
  proof (cases "pollStart s")
    case None
    with ok step Health show ?thesis by (simp add: run_ok_def)
  next
    case (Some t)
    with ok step Health w show ?thesis
      by (auto simp: run_ok_def health_result_def Let_def setHealthy_def verdict_snoc poll_gap_def split: if_splits)
  qed
qed (use assms in \<open>auto simp: run_ok_def split: if_splits option.splits\<close>)

lemma results_mono: "length (results es) \<le> length (results (es @ [e]))"
  by (simp add: results_def)

lemma run_loop_ok:
  "run_init int63n now ht = Inr s0 \<Longrightarrow> run_loop es s0 = Some s \<Longrightarrow> int (length (results es)) < 2 ^ 63 \<Longrightarrow> run_ok ht es s"
proof (induction es arbitrary: s rule: rev_induct)
  case Nil
  then show ?case using run_init_ok by simp
next
  case (snoc e es)
  then obtain s' where "run_loop es s0 = Some s'" "run_step e s' = Some s"
    by (auto simp: run_loop_snoc split: option.splits)
  with snoc results_mono [of es e] show ?case by (intro run_step_ok) auto
qed

text \<open>C21. The loop of a health test, from its start through any sequence of polls: the test is unhealthy exactly after
  \<open>retries\<close> failures in a row, the first success makes it healthy again, and before either it has its initial
  state. Polls never overlap and start at least the shorter of frequency and retry time apart. When the loop
  has returned, so that its channel is closed, no poll is left to send to it; and a request to stop is
  granted as soon as the poll that runs has delivered its result.\<close>

theorem health_test_run:
  assumes "run_init int63n now ht = Inr s0" "run_loop es s0 = Some s" "int (length (results es)) < 2 ^ 63"
  shows "healthy (run_test s) = verdict (retries (parameters ht)) (healthy ht) (results es) \<and>
    spaced (min (frequency (parameters ht)) (retryTime (parameters ht))) (starts es) \<and>
    polls s \<le> 1 \<and> (returned s \<longrightarrow> polls s = 0) \<and>
    (\<not> returned s \<longrightarrow> (\<exists>s'. run_loop ((if polls s = 0 then [] else [Health h]) @ [Closing]) s = Some s' \<and> returned s'))"
  using run_loop_ok [OF assms]
  by (auto simp: run_ok_def poll_gap_def health_result_def Let_def split: option.splits)

definition sample_test :: health_test where
  "sample_test = NewTest [192, 0, 2, 1] defaultHealthTestParameters 0"

theorem health_test_run_witness:
  "\<exists>s0 s. run_init (\<lambda>_. 5) 0 sample_test = Inr s0 \<and>
     run_loop [StartPoll 5, Health True, StartPoll 30000000005, Health False] s0 = Some s \<and>
     healthy (run_test s) \<and> spaced (5 * Second) [5, 30000000005]"
proof -
  let ?es = "[StartPoll 5, Health True, StartPoll 30000000005, Health False]"
  obtain s0 s where s0: "run_init (\<lambda>_. 5) 0 sample_test = Inr s0" and s: "run_loop ?es s0 = Some s"
    by (simp add: run_init_def rand_Int63n_def sample_test_def NewTest_def health_result_def setHealthy_def Let_def
        defaultHealthTestParameters_def at_least_second_def Second_def)
  have "verdict (retries (parameters sample_test)) (healthy sample_test) (results ?es)" by code_simp
  moreover have "starts ?es = [5, 30000000005]"
    "min (frequency (parameters sample_test)) (retryTime (parameters sample_test)) = 5 * Second" by code_simp+
  moreover have "int (length (results ?es)) < 2 ^ 63" by (simp add: results_def)
  ultimately show ?thesis using health_test_run [OF s0 s] s0 s by auto
qed

section \<open>The runner: references\<close>

datatype runner_op = AddTest health_test string | RemoveTest health_test string | RefAllGlobal string bool

fun runner_step :: "((string \<times> bool) list option \<Rightarrow> string) \<Rightarrow> testers \<Rightarrow> runner_op \<Rightarrow> test_runner \<Rightarrow> test_runner" where
  "runner_step fmtMap ts (AddTest ht ref) r = addTest fmtMap ts ht ref r"
| "runner_step fmtMap ts (RemoveTest ht ref) r = snd (removeTest fmtMap ts ht ref r)"
| "runner_step fmtMap ts (RefAllGlobal ref add) r = refAllGlobalHealthChecks ref add r"

text \<open>The specification: for the key of every test in use, whether it is global and who refers to it.\<close>

type_synonym ref_state = "string \<rightharpoonup> bool \<times> string set"

definition without_ref :: "string \<Rightarrow> bool \<times> string set \<Rightarrow> (bool \<times> string set) option" where
  "without_ref ref u = (if snd u - {ref} = {} then None else Some (fst u, snd u - {ref}))"

definition with_ref :: "string \<Rightarrow> bool \<times> string set \<Rightarrow> (bool \<times> string set) option" where
  "with_ref ref u = Some (fst u, insert ref (snd u))"

fun spec_step :: "((string \<times> bool) list option \<Rightarrow> string) \<Rightarrow> testers \<Rightarrow> runner_op \<Rightarrow> ref_state \<Rightarrow> ref_state" where
  "spec_step fmtMap ts (AddTest ht ref) a =
     (let k = ht_String fmtMap ts ht
      in a(k := case a k of None \<Rightarrow> Some (global (parameters ht), {ref}) | Some u \<Rightarrow> with_ref ref u))"
| "spec_step fmtMap ts (RemoveTest ht ref) a =
     (let k = ht_String fmtMap ts ht in a(k := case a k of None \<Rightarrow> None | Some u \<Rightarrow> without_ref ref u))"
| "spec_step fmtMap ts (RefAllGlobal ref add) a =
     (\<lambda>k. case a k of None \<Rightarrow> None
          | Some u \<Rightarrow> if fst u then (if add then with_ref ref u else without_ref ref u) else Some u)"

definition entry_refs :: "runner_entry \<Rightarrow> bool \<times> string set" where
  "entry_refs t = (global (parameters (entry_test t)), set (references t))"

definition refs :: "test_runner \<Rightarrow> ref_state" where
  "refs r k = map_option entry_refs (map_of (entries r) k)"

text \<open>Every entry is in use, and the goroutines are those of the entries, one each.\<close>

definition runner_inv :: "test_runner \<Rightarrow> bool" where
  "runner_inv r \<longleftrightarrow> distinct (keys (entries r)) \<and> distinct (running r) \<and> set (running r) = set (keys (entries r)) \<and>
     (\<forall>k t. map_of (entries r) k = Some t \<longrightarrow> references t \<noteq> [])"

lemma map_of_None_keys: "map_of m k = None \<longleftrightarrow> k \<notin> set (keys m)"
  by (simp add: keys_def map_of_eq_None_iff)

lemma entry_key: "map_of m k = Some t \<Longrightarrow> k \<in> set (keys m)"
  using map_of_None_keys [of m k] by simp

lemma add_ref_ok:
  assumes "runner_inv r" "map_of (entries r) key = Some t"
  shows "runner_inv (add_ref key ref t r) \<and> refs (add_ref key ref t r) = (refs r)(key := with_ref ref (entry_refs t))"
proof
  show "runner_inv (add_ref key ref t r)"
    using assms entry_key [OF assms(2)] by (auto simp: runner_inv_def add_ref_def List.insert_def)
  show "refs (add_ref key ref t r) = (refs r)(key := with_ref ref (entry_refs t))"
    by (rule ext) (simp add: refs_def add_ref_def entry_refs_def with_ref_def)
qed

lemma drop_ref_ok:
  assumes "runner_inv r" "map_of (entries r) key = Some t"
  shows "runner_inv (drop_ref key ref t r) \<and> refs (drop_ref key ref t r) = (refs r)(key := without_ref ref (entry_refs t))"
proof
  have key: "key \<in> set (running r)" using assms(1) entry_key [OF assms(2)] by (simp add: runner_inv_def)
  have none: "removeAll ref xs = [] \<longleftrightarrow> set xs - {ref} = {}" for xs :: "string list"
    by (metis set_removeAll set_empty)
  show "runner_inv (drop_ref key ref t r)"
    using assms key entry_key [OF assms(2)]
    by (auto simp: runner_inv_def drop_ref_def ht_Stop_def Let_def distinct_map_del)
  show "refs (drop_ref key ref t r) = (refs r)(key := without_ref ref (entry_refs t))"
    using key by (intro ext) (simp add: refs_def drop_ref_def ht_Stop_def Let_def entry_refs_def without_ref_def none)
qed

lemma addTest_ok:
  assumes "runner_inv r"
  shows "runner_inv (addTest fmtMap ts ht ref r) \<and>
    refs (addTest fmtMap ts ht ref r) = spec_step fmtMap ts (AddTest ht ref) (refs r)"
proof (cases "map_of (entries r) (ht_String fmtMap ts ht)")
  case (Some t)
  moreover from Some have "refs r (ht_String fmtMap ts ht) = Some (entry_refs t)" by (simp add: refs_def)
  ultimately show ?thesis using add_ref_ok [OF assms Some] by (simp add: addTest_def)
next
  case None
  then have "ht_String fmtMap ts ht \<notin> set (keys (entries r))" by (simp add: map_of_None_keys)
  with assms have "runner_inv (addTest fmtMap ts ht ref r)"
    by (simp add: addTest_def None runner_inv_def ht_start_def Let_def)
  moreover have "refs (addTest fmtMap ts ht ref r) = spec_step fmtMap ts (AddTest ht ref) (refs r)"
    by (rule ext) (simp add: addTest_def None refs_def ht_start_def Let_def entry_refs_def ht_copy_def NewTest_def)
  ultimately show ?thesis ..
qed

lemma removeTest_ok:
  assumes "runner_inv r"
  shows "runner_inv (snd (removeTest fmtMap ts ht ref r)) \<and>
    refs (snd (removeTest fmtMap ts ht ref r)) = spec_step fmtMap ts (RemoveTest ht ref) (refs r)"
proof (cases "map_of (entries r) (ht_String fmtMap ts ht)")
  case (Some t)
  moreover from Some have "refs r (ht_String fmtMap ts ht) = Some (entry_refs t)" by (simp add: refs_def)
  ultimately show ?thesis using drop_ref_ok [OF assms Some] by (simp add: removeTest_def)
next
  case None
  then have "refs r (ht_String fmtMap ts ht) = None" by (simp add: refs_def)
  then show ?thesis using assms None by (auto simp: removeTest_def fun_upd_idem)
qed

lemma ref_global_ok:
  assumes "runner_inv r" "map_of (entries r) k = Some t"
  shows "runner_inv (ref_global ref add (k, t) r) \<and>
    refs (ref_global ref add (k, t) r) = (refs r)(k := spec_step fmtMap ts (RefAllGlobal ref add) (refs r) k)"
proof -
  from assms(2) have k: "refs r k = Some (entry_refs t)" by (simp add: refs_def)
  then have same: "(refs r)(k := Some (entry_refs t)) = refs r" by (rule fun_upd_idem)
  have g: "fst (entry_refs t) = global (parameters (entry_test t))" by (simp add: entry_refs_def)
  show ?thesis
  proof (cases "global (parameters (entry_test t))")
    case True
    with add_ref_ok [OF assms, of ref] drop_ref_ok [OF assms, of ref] show ?thesis
      by (cases add) (simp_all add: ref_global_def k g)
  next
    case False
    with assms(1) same show ?thesis by (simp add: ref_global_def k g)
  qed
qed

lemma ref_global_other: "k' \<noteq> k \<Longrightarrow> map_of (entries (ref_global ref add (k, t) r)) k' = map_of (entries r) k'"
  by (simp add: ref_global_def add_ref_def drop_ref_def ht_Stop_def Let_def)

lemma fold_ref_global:
  assumes "runner_inv r" "distinct (keys es)" "\<forall>(k, t) \<in> set es. map_of (entries r) k = Some t"
  shows "runner_inv (fold (ref_global ref add) es r) \<and> refs (fold (ref_global ref add) es r) =
    (\<lambda>k. if k \<in> set (keys es) then spec_step fmtMap ts (RefAllGlobal ref add) (refs r) k else refs r k)"
  using assms
proof (induction es arbitrary: r)
  case (Cons e es)
  obtain k t where e: "e = (k, t)" by force
  let ?r = "ref_global ref add (k, t) r"
  from Cons.prems e have t: "map_of (entries r) k = Some t" "k \<notin> set (keys es)" "distinct (keys es)" by auto
  note step = ref_global_ok [OF Cons.prems(1) t(1), of ref add fmtMap ts]
  have "\<forall>(k', t') \<in> set es. map_of (entries ?r) k' = Some t'"
  proof clarify
    fix k' t' assume "(k', t') \<in> set es"
    moreover from this t(2) have "k' \<noteq> k" by (auto simp: keys_def rev_image_eqI)
    ultimately show "map_of (entries ?r) k' = Some t'" using Cons.prems(3) ref_global_other by (auto simp: e)
  qed
  with Cons.IH [of ?r] t(3) step
  have "runner_inv (fold (ref_global ref add) es ?r) \<and> refs (fold (ref_global ref add) es ?r) =
    (\<lambda>k. if k \<in> set (keys es) then spec_step fmtMap ts (RefAllGlobal ref add) (refs ?r) k else refs ?r k)" by blast
  then show ?case using step t(2) by (simp add: e fun_eq_iff del: spec_step.simps) simp
qed simp

lemma refAll_ok:
  assumes "runner_inv r"
  shows "runner_inv (refAllGlobalHealthChecks ref add r) \<and>
    refs (refAllGlobalHealthChecks ref add r) = spec_step fmtMap ts (RefAllGlobal ref add) (refs r)"
proof -
  have d: "distinct (keys (entries r))" using assms by (simp add: runner_inv_def)
  then have "\<forall>(k, t) \<in> set (entries r). map_of (entries r) k = Some t" by (auto simp: keys_def)
  note f = fold_ref_global [OF assms d this, of ref add fmtMap ts]
  moreover have "spec_step fmtMap ts (RefAllGlobal ref add) (refs r) k = refs r k" if "k \<notin> set (keys (entries r))" for k
    using that by (simp add: refs_def flip: map_of_None_keys)
  ultimately show ?thesis by (auto simp: refAllGlobalHealthChecks_def fun_eq_iff)
qed

lemma runner_step_ok:
  "runner_inv r \<Longrightarrow> runner_inv (runner_step fmtMap ts op r) \<and>
     refs (runner_step fmtMap ts op r) = spec_step fmtMap ts op (refs r)"
  using addTest_ok removeTest_ok refAll_ok by (cases op) (simp_all del: spec_step.simps)

text \<open>The tests the runner runs: times of at least a second, and no address for a global test.\<close>

definition test_ok :: "health_test \<Rightarrow> bool" where
  "test_ok ht \<longleftrightarrow> Second \<le> frequency (parameters ht) \<and> Second \<le> retryTime (parameters ht) \<and>
     Second \<le> timeout (parameters ht) \<and> (global (parameters ht) \<longrightarrow> ipAddress ht = [])"

definition tests_wf :: "test_runner \<Rightarrow> bool" where
  "tests_wf r \<longleftrightarrow> (\<forall>k t. map_of (entries r) k = Some t \<longrightarrow> test_ok (entry_test t))"

lemma tests_wf_ref:
  assumes "tests_wf r" "test_ok (entry_test t)"
  shows "tests_wf (add_ref key ref t r)" "tests_wf (drop_ref key ref t r)"
  using assms by (auto simp: add_ref_def drop_ref_def ht_Stop_def tests_wf_def Let_def split: if_splits)

lemma tests_wfD: "tests_wf r \<Longrightarrow> map_of (entries r) k = Some t \<Longrightarrow> test_ok (entry_test t)"
  by (simp add: tests_wf_def)

lemma addTest_wf: "tests_wf r \<Longrightarrow> tests_wf (addTest fmtMap ts ht ref r)"
proof (cases "map_of (entries r) (ht_String fmtMap ts ht)")
  case None
  moreover assume "tests_wf r"
  ultimately show ?thesis
    by (simp add: addTest_def ht_start_def Let_def tests_wf_def test_ok_def ht_copy_def NewTest_def at_least_second_def)
qed (simp add: addTest_def tests_wf_ref tests_wfD)

lemma removeTest_wf: "tests_wf r \<Longrightarrow> tests_wf (snd (removeTest fmtMap ts ht ref r))"
  by (cases "map_of (entries r) (ht_String fmtMap ts ht)") (simp_all add: removeTest_def tests_wf_ref tests_wfD)

lemma ref_global_wf: "tests_wf r \<Longrightarrow> test_ok (entry_test t) \<Longrightarrow> tests_wf (ref_global ref add (k, t) r)"
  by (simp add: ref_global_def tests_wf_ref)

lemma refAll_wf:
  assumes "tests_wf r" "distinct (keys (entries r))"
  shows "tests_wf (refAllGlobalHealthChecks ref add r)"
proof -
  have all: "\<forall>(k, t) \<in> set (entries r). test_ok (entry_test t)" using assms by (auto simp: tests_wf_def keys_def)
  have "tests_wf (fold (ref_global ref add) es q)" if "tests_wf q" "\<forall>(k, t) \<in> set es. test_ok (entry_test t)" for es q
    using that by (induction es arbitrary: q) (auto simp: ref_global_wf)
  with all assms(1) show ?thesis by (simp add: refAllGlobalHealthChecks_def)
qed

lemma runner_step_wf: "tests_wf r \<Longrightarrow> runner_inv r \<Longrightarrow> tests_wf (runner_step fmtMap ts op r)"
  by (cases op) (simp_all add: addTest_wf removeTest_wf refAll_wf runner_inv_def)

lemma runner_steps_ok:
  "runner_inv r \<Longrightarrow> tests_wf r \<Longrightarrow> runner_inv (fold (runner_step fmtMap ts) ops r) \<and> tests_wf (fold (runner_step fmtMap ts) ops r) \<and>
     refs (fold (runner_step fmtMap ts) ops r) = fold (spec_step fmtMap ts) ops (refs r)"
  by (induction ops arbitrary: r) (simp_all add: runner_step_ok runner_step_wf)

lemma empty_runner_ok: "runner_inv \<lparr>entries = [], running = []\<rparr>" "tests_wf \<lparr>entries = [], running = []\<rparr>"
  "refs \<lparr>entries = [], running = []\<rparr> = (\<lambda>_. None)"
  by (simp_all add: runner_inv_def tests_wf_def refs_def [abs_def])

text \<open>C20. The runner, through any sequence of its operations, implements reference counting: a test is in the
  runner exactly while someone refers to it, and exactly the tests of the runner have a running goroutine,
  one each. Tests with the same key share one, and only the global ones are touched by
  \<open>refAllGlobalHealthChecks\<close>.\<close>

theorem runner_counts_references:
  "let r = fold (runner_step fmtMap ts) ops \<lparr>entries = [], running = []\<rparr>
   in refs r = fold (spec_step fmtMap ts) ops (\<lambda>_. None) \<and> distinct (running r) \<and>
      set (running r) = set (keys (entries r)) \<and> list_all (\<lambda>(k, t). references t \<noteq> []) (entries r)"
proof -
  note ok = runner_steps_ok [OF empty_runner_ok(1,2), of fmtMap ts ops, unfolded empty_runner_ok(3)]
  then show ?thesis by (auto simp: runner_inv_def Let_def list_all_iff keys_def)
qed

text \<open>C22. Every test in the runner is well formed, whatever tests were added: its times are at least a second, so the
  random delay its goroutine starts with is never drawn from an empty range, which would end the process, and a
  global test has no address. In particular a time too large for 64 bits does no harm.\<close>

theorem runner_tests_typed:
  assumes "map_of (entries (fold (runner_step fmtMap ts) ops \<lparr>entries = [], running = []\<rparr>)) k = Some t"
  shows "test_ok (entry_test t) \<and> (\<exists>s. run_init int63n now (entry_test t) = Inr s)"
proof -
  from assms runner_steps_ok [OF empty_runner_ok(1,2), of fmtMap ts ops] have "test_ok (entry_test t)"
    by (simp add: tests_wf_def)
  then show ?thesis by (auto simp: test_ok_def run_init_def rand_Int63n_def Second_def Let_def)
qed

theorem runner_tests_typed_witness:
  "\<exists>t. map_of (entries (fold (runner_step (\<lambda>_. []) (\<lambda>_. TcpHealthTester 80))
       [AddTest (sample_test\<lparr>parameters := defaultHealthTestParameters\<lparr>frequency := -9\<rparr>\<rparr>) ''z''] \<lparr>entries = [], running = []\<rparr>))
       (ht_String (\<lambda>_. []) (\<lambda>_. TcpHealthTester 80) (sample_test\<lparr>parameters := defaultHealthTestParameters\<lparr>frequency := -9\<rparr>\<rparr>)) = Some t \<and>
     test_ok (entry_test t)"
proof -
  let ?ht = "sample_test\<lparr>parameters := defaultHealthTestParameters\<lparr>frequency := -9\<rparr>\<rparr>"
  let ?r = "fold (runner_step (\<lambda>_. []) (\<lambda>_. TcpHealthTester 80)) [AddTest ?ht ''z''] \<lparr>entries = [], running = []\<rparr>"
  obtain t where "map_of (entries ?r) (ht_String (\<lambda>_. []) (\<lambda>_. TcpHealthTester 80) ?ht) = Some t"
    by (simp add: addTest_def ht_start_def Let_def)
  with runner_tests_typed [OF this] show ?thesis by blast
qed

end
