(* ===== verification/HealthTesters.thy ===== *)
theory HealthTesters
  imports HealthTest TypeUtil
begin

text \<open>
  \<open>health/healthtest/healthtesters.go\<close> and \<open>NewFromMap\<close>: the testers, what one poll of each does, and how a
  test is made from the decoded JSON of a zone. The network, the programs run, the files and the decoding of
  their contents are fields of \<open>test_env\<close>.
\<close>

section \<open>Environment\<close>

record open_file =
  of_ModTime :: "int option"
  of_Bytes :: "string option"

record http_request =
  rq_URL :: string
  rq_Auth :: "(string \<times> string) option"
  rq_Header :: "(string \<times> string) list"

text \<open>\<open>te_Exchange\<close> sends a datagram and gives the bytes read in time; \<open>te_Do\<close> gives the body of a response,
  \<open>None\<close> for a request that failed and \<open>Some None\<close> for a body that cannot be read.\<close>

record test_env =
  te_Dial :: "string \<Rightarrow> int \<Rightarrow> bool"
  te_Exchange :: "string \<Rightarrow> byte list \<Rightarrow> int \<Rightarrow> byte list option"
  te_Run :: "string list \<Rightarrow> bool"
  te_Open :: "string \<Rightarrow> open_file option"
  te_Do :: "http_request \<Rightarrow> string option option"
  te_QueryEscape :: "string \<Rightarrow> string"
  te_sha256 :: "string \<Rightarrow> string"
  te_bool_map :: "string \<Rightarrow> (string \<times> bool) list option"
  te_object :: "string \<Rightarrow> jobject option"
  te_fmtFloat :: "rat \<Rightarrow> string"

text \<open>\<open>strings.Replace(s, "{}", by, -1)\<close>\<close>

fun replace_braces :: "string \<Rightarrow> string \<Rightarrow> string" where
  "replace_braces by [] = []"
| "replace_braces by (c # s) =
     (if c = CHR ''{'' \<and> hasPrefix s ''}'' then by @ replace_braces by (drop 1 s) else c # replace_braces by s)"

section \<open>One poll\<close>

definition tcp_test :: "test_env \<Rightarrow> int \<Rightarrow> health_test \<Rightarrow> bool" where
  "tcp_test e port ht = te_Dial e (joinHostPort (IP_String (ipAddress ht)) (itoa port)) (timeout (parameters ht))"

definition ntp_test :: "test_env \<Rightarrow> int \<Rightarrow> health_test \<Rightarrow> bool" where
  "ntp_test e maxStratum ht =
     (let data = 35 # replicate 47 0
      in case te_Exchange e (joinHostPort (IP_String (ipAddress ht)) ''123'') data (timeout (parameters ht)) of
           None \<Rightarrow> False
         | Some got \<Rightarrow>
             let data = take 48 got @ drop (length got) data;
                 stratum = data ! 1
             in \<not> (stratum = 0 \<or> (of_int maxStratum :: byte) < stratum))"

definition exec_test :: "test_env \<Rightarrow> string \<Rightarrow> health_test \<Rightarrow> bool" where
  "exec_test e cmd ht = te_Run e (split_on (CHR '' '') (replace_braces (IP_String (ipAddress ht)) cmd))"

definition file_test ::
  "test_env \<Rightarrow> string \<Rightarrow> string \<Rightarrow> int option \<Rightarrow> health_test \<Rightarrow> bool \<times> HealthTester \<times> health_test" where
  "file_test e path lastHash lastReadTime ht =
     (let failed = (False, FileHealthTester path lastHash lastReadTime, ht)
      in if length path = 0 then failed
         else case te_Open e path of
           None \<Rightarrow> failed
         | Some f \<Rightarrow>
             (case of_ModTime f of
                None \<Rightarrow> failed
              | Some modTime \<Rightarrow>
                  if lastReadTime = Some modTime then (True, FileHealthTester path lastHash lastReadTime, ht)
                  else case of_Bytes f of
                    None \<Rightarrow> failed
                  | Some bytes \<Rightarrow>
                      let hash = te_sha256 e bytes
                      in if hash = lastHash then (True, FileHealthTester path lastHash (Some modTime), ht)
                         else case te_bool_map e bytes of
                           None \<Rightarrow> (False, FileHealthTester path hash (Some modTime), ht)
                         | Some m \<Rightarrow> (True, FileHealthTester path hash (Some modTime), setGlobal m ht)))"

definition nodeping_item :: "test_env \<Rightarrow> json \<Rightarrow> (string \<times> bool) list \<Rightarrow> (string \<times> bool) list go" where
  "nodeping_item e item state =
     (case item of
        JObj result \<Rightarrow>
          (case map_of result ''label'' of
             None \<Rightarrow> Inr state
           | Some ip \<Rightarrow> go_bind (ToString (te_fmtFloat e) ip) (\<lambda>host. Inr (map_put host False state)))
      | _ \<Rightarrow> Inr state)"

definition nodeping_test :: "test_env \<Rightarrow> string \<Rightarrow> health_test \<Rightarrow> (bool \<times> health_test) go" where
  "nodeping_test e token ht =
     (if length token = 0 then Inr (False, ht)
      else case te_Do e \<lparr>rq_URL = ''https://api.nodeping.com/api/1/results/current?token='' @ te_QueryEscape e token,
                         rq_Auth = None, rq_Header = []\<rparr> of
        None \<Rightarrow> Inr (False, ht)
      | Some None \<Rightarrow> Inr (False, ht)
      | Some (Some bytes) \<Rightarrow>
          (case te_object e bytes of
             None \<Rightarrow> Inr (False, ht)
           | Some m \<Rightarrow>
               go_bind (go_fold (nodeping_item e) (map snd m) []) (\<lambda>state. Inr (True, setGlobal state ht))))"

definition defaultPingdomStateMap :: "(string \<times> bool) list" where
  "defaultPingdomStateMap = [(''up'', True), (''down'', False), (''paused'', False)]"

definition pingdom_check ::
  "test_env \<Rightarrow> (string \<times> bool) list \<Rightarrow> json \<Rightarrow> (string \<times> bool) list \<Rightarrow> (string \<times> bool) list go" where
  "pingdom_check e stateMap checki state =
     (case checki of
        JObj check \<Rightarrow>
          (case (map_of check ''name'', map_of check ''status'') of
             (Some ip, Some status) \<Rightarrow>
               go_bind (ToString (te_fmtFloat e) status) (\<lambda>s.
                 case map_of stateMap s of
                   None \<Rightarrow> Inr state
                 | Some updown \<Rightarrow> go_bind (ToString (te_fmtFloat e) ip) (\<lambda>host. Inr (map_put host updown state)))
           | _ \<Rightarrow> Inr state)
      | _ \<Rightarrow> Inr state)"

definition pingdom_request :: "string \<Rightarrow> string \<Rightarrow> string \<Rightarrow> string \<Rightarrow> http_request" where
  "pingdom_request username password accountEmail appKey =
     \<lparr>rq_URL = ''https://api.pingdom.com/api/2.0/checks'', rq_Auth = Some (username, password),
      rq_Header = (if 0 < length accountEmail then [(''Account-Email'', accountEmail)] else []) @ [(''App-Key'', appKey)]\<rparr>"

definition pingdom_test ::
  "test_env \<Rightarrow> string \<Rightarrow> string \<Rightarrow> string \<Rightarrow> string \<Rightarrow> (string \<times> bool) list option \<Rightarrow> health_test \<Rightarrow> (bool \<times> health_test) go" where
  "pingdom_test e username password accountEmail appKey stateMap ht =
     (if length username = 0 \<or> length password = 0 then Inr (False, ht)
      else
        let stateMap = (case stateMap of None \<Rightarrow> defaultPingdomStateMap | Some m \<Rightarrow> m)
        in case te_Do e (pingdom_request username password accountEmail appKey) of
             None \<Rightarrow> Inr (False, ht)
           | Some None \<Rightarrow> Inr (False, ht)
           | Some (Some bytes) \<Rightarrow>
               (case te_object e bytes of
                  None \<Rightarrow> Inr (False, ht)
                | Some m \<Rightarrow>
                    (case map_of m ''checks'' of
                       Some (JArr checkarray) \<Rightarrow>
                         go_bind (go_fold (pingdom_check e stateMap) checkarray []) (\<lambda>state. Inr (True, setGlobal state ht))
                     | _ \<Rightarrow> Inr (False, ht))))"

fun tester_Test :: "test_env \<Rightarrow> HealthTester \<Rightarrow> health_test \<Rightarrow> (bool \<times> HealthTester \<times> health_test) go" where
  "tester_Test e (TcpHealthTester port) ht = Inr (tcp_test e port ht, TcpHealthTester port, ht)"
| "tester_Test e (NtpHealthTester maxStratum) ht = Inr (ntp_test e maxStratum ht, NtpHealthTester maxStratum, ht)"
| "tester_Test e (ExecHealthTester cmd) ht = Inr (exec_test e cmd ht, ExecHealthTester cmd, ht)"
| "tester_Test e (FileHealthTester path lastHash lastReadTime) ht = Inr (file_test e path lastHash lastReadTime ht)"
| "tester_Test e (NodepingHealthTester token) ht =
     go_bind (nodeping_test e token ht) (\<lambda>(b, ht). Inr (b, NodepingHealthTester token, ht))"
| "tester_Test e (PingdomHealthTester u p a k m) ht =
     go_bind (pingdom_test e u p a k m ht) (\<lambda>(b, ht). Inr (b, PingdomHealthTester u p a k m, ht))"

text \<open>\<open>poll\<close>: one poll of the test, which may change the tester it points to.\<close>

definition ht_poll :: "test_env \<Rightarrow> testers \<Rightarrow> health_test \<Rightarrow> (bool \<times> testers \<times> health_test) go" where
  "ht_poll e ts ht =
     go_bind (tester_Test e (ts (tester ht)) ht) (\<lambda>(result, t, ht'). Inr (result, ts(tester ht := t), ht'))"

section \<open>Making a test\<close>

definition param :: "jobject \<Rightarrow> string \<Rightarrow> 'a \<Rightarrow> (json \<Rightarrow> 'a go) \<Rightarrow> 'a go" where
  "param ps k d conv = (case map_of ps k of None \<Rightarrow> Inr d | Some v \<Rightarrow> conv v)"

type_synonym builder = "jobject \<Rightarrow> HealthTestParameters \<Rightarrow> (HealthTester \<times> HealthTestParameters) go"

definition newTcpHealthTester :: builder where
  "newTcpHealthTester ps htp = go_bind (param ps ''port'' 80 ToInt) (\<lambda>port. Inr (TcpHealthTester port, htp))"

definition newNtpHealthTester :: builder where
  "newNtpHealthTester ps htp = go_bind (param ps ''max_stratum'' 3 ToInt) (\<lambda>s. Inr (NtpHealthTester s, htp))"

definition newExecHealthTester :: "(rat \<Rightarrow> string) \<Rightarrow> builder" where
  "newExecHealthTester fl ps htp =
     go_bind (param ps ''cmd'' (''echo '' @ [CHR 0x27] @ ''%s'' @ [CHR 0x27]) (ToString fl))
       (\<lambda>cmd. Inr (ExecHealthTester cmd, htp))"

definition newFileHealthTester :: "(rat \<Rightarrow> string) \<Rightarrow> builder" where
  "newFileHealthTester fl ps htp =
     go_bind (param ps ''path'' [] (ToString fl))
       (\<lambda>path. Inr (FileHealthTester path [] None, htp\<lparr>global := True\<rparr>))"

definition newNodepingHealthTester :: "(rat \<Rightarrow> string) \<Rightarrow> builder" where
  "newNodepingHealthTester fl ps htp =
     go_bind (param ps ''token'' [] (ToString fl))
       (\<lambda>token. Inr (NodepingHealthTester token, htp\<lparr>healthyInitially := True, global := True\<rparr>))"

definition state_map_entry :: "string \<times> json \<Rightarrow> (string \<times> bool) list \<Rightarrow> (string \<times> bool) list go" where
  "state_map_entry kv m = go_bind (ToBool (snd kv)) (\<lambda>b. Inr (map_put (fst kv) b m))"

definition newPingdomHealthTester :: "(rat \<Rightarrow> string) \<Rightarrow> builder" where
  "newPingdomHealthTester fl ps htp =
     go_bind (param ps ''username'' [] (ToString fl)) (\<lambda>username.
     go_bind (param ps ''password'' [] (ToString fl)) (\<lambda>password.
     go_bind (param ps ''account_email'' [] (ToString fl)) (\<lambda>accountEmail.
     go_bind (param ps ''app_key'' [] (ToString fl)) (\<lambda>appKey.
     go_bind (case map_of ps ''state_map'' of
                Some (JObj vv) \<Rightarrow> go_bind (go_fold state_map_entry vv []) (\<lambda>m. Inr (Some m))
              | _ \<Rightarrow> Inr None) (\<lambda>stateMap.
     Inr (PingdomHealthTester username password accountEmail appKey stateMap, htp\<lparr>global := True\<rparr>))))))"

definition HealthTesterMap :: "(rat \<Rightarrow> string) \<Rightarrow> (string \<times> builder) list" where
  "HealthTesterMap fl =
     [(''tcp'', newTcpHealthTester), (''ntp'', newNtpHealthTester), (''exec'', newExecHealthTester fl),
      (''file'', newFileHealthTester fl), (''nodeping'', newNodepingHealthTester fl),
      (''pingdom'', newPingdomHealthTester fl)]"

definition seconds :: "json \<Rightarrow> int go" where
  "seconds v = go_bind (ToInt v) (\<lambda>n. Inr (wrap64 (n * Second)))"

definition parameter_entry :: "string \<times> json \<Rightarrow> HealthTestParameters \<Rightarrow> HealthTestParameters go" where
  "parameter_entry kv htp =
     (let (k, v) = kv
      in if k = ''frequency'' then go_bind (seconds v) (\<lambda>d. Inr (htp\<lparr>frequency := d\<rparr>))
         else if k = ''retry_time'' then go_bind (seconds v) (\<lambda>d. Inr (htp\<lparr>retryTime := d\<rparr>))
         else if k = ''timeout'' then go_bind (seconds v) (\<lambda>d. Inr (htp\<lparr>retryTime := d\<rparr>))
         else if k = ''retries'' then go_bind (ToInt v) (\<lambda>n. Inr (htp\<lparr>retries := n\<rparr>))
         else if k = ''healthy_initially'' then go_bind (ToBool v) (\<lambda>b. Inr (htp\<lparr>healthyInitially := b\<rparr>))
         else Inr htp)"

text \<open>The test points to a tester of its own, at the address \<open>a\<close>.\<close>

definition NewFromMap ::
  "(rat \<Rightarrow> string) \<Rightarrow> nat \<Rightarrow> jobject \<Rightarrow> testers \<Rightarrow> (string + health_test \<times> testers) go" where
  "NewFromMap fl a i ts =
     go_bind (ToString fl (jget i ''type'')) (\<lambda>t.
       if length t = 0 then Inr (Inl ''type required'')
       else case map_of (HealthTesterMap fl) t of
         None \<Rightarrow> Inr (Inl (''Bad health test type '' @ [CHR 0x27] @ t @ [CHR 0x27]))
       | Some nh \<Rightarrow>
           go_bind (nh i (defaultHealthTestParameters\<lparr>testName := t\<rparr>)) (\<lambda>(h, htp).
           go_bind (go_fold parameter_entry i htp) (\<lambda>htp.
             Inr (Inr (NewTest [] htp a, ts(a := h))))))"

section \<open>A running test\<close>

text \<open>One poll of the goroutine of an entry, whose loop has the state \<open>s\<close>: the round of \<open>select\<close> that starts the poll at the
  time \<open>now\<close>, the poll, and the round that receives its result. The loop works on the test of the entry. \<open>None\<close> when
  the poll is not due.\<close>

definition poll_entry ::
  "test_env \<Rightarrow> string \<Rightarrow> int \<Rightarrow> testers \<times> run_state \<times> test_runner \<Rightarrow> (testers \<times> run_state \<times> test_runner) option go" where
  "poll_entry e key now = (\<lambda>(ts, s, r).
     case map_of (entries r) key of
       None \<Rightarrow> Inl NilDeref
     | Some t \<Rightarrow>
         (case run_step (StartPoll now) (s\<lparr>run_test := entry_test t\<rparr>) of
            None \<Rightarrow> Inr None
          | Some s \<Rightarrow> go_bind (ht_poll e ts (run_test s)) (\<lambda>(result, ts, ht).
              case run_step (Health result) (s\<lparr>run_test := ht\<rparr>) of
                None \<Rightarrow> Inr None
              | Some s \<Rightarrow> Inr (Some (ts, s, r\<lparr>entries := map_put key (t\<lparr>entry_test := run_test s\<rparr>) (entries r)\<rparr>)))))"

fun poll_entries ::
  "test_env \<Rightarrow> string \<Rightarrow> int list \<Rightarrow> testers \<times> run_state \<times> test_runner \<Rightarrow> (testers \<times> run_state \<times> test_runner) option go" where
  "poll_entries e key [] c = Inr (Some c)"
| "poll_entries e key (now # nows) c =
     go_bind (poll_entry e key now c) (\<lambda>p. case p of None \<Rightarrow> Inr None | Some c \<Rightarrow> poll_entries e key nows c)"

text \<open>The goroutine from its start at the time \<open>now\<close>, with polls at the given times.\<close>

definition run_entry ::
  "test_env \<Rightarrow> (int \<Rightarrow> int) \<Rightarrow> string \<Rightarrow> int \<Rightarrow> int list \<Rightarrow> testers \<Rightarrow> test_runner \<Rightarrow> (testers \<times> run_state \<times> test_runner) option go" where
  "run_entry e int63n key now nows ts r =
     (case map_of (entries r) key of
        None \<Rightarrow> Inl NilDeref
      | Some t \<Rightarrow> go_bind (run_init int63n now (entry_test t)) (\<lambda>s. poll_entries e key nows (ts, s, r)))"

section \<open>Lemmas\<close>

lemma NewFromMap_cases:
  assumes "NewFromMap fl a i ts = Inr (Inr (ht, ts'))"
  obtains t nh h htp htp' where "map_of (HealthTesterMap fl) t = Some nh"
    "nh i (defaultHealthTestParameters\<lparr>testName := t\<rparr>) = Inr (h, htp)"
    "go_fold parameter_entry i htp = Inr htp'" "ht = NewTest [] htp' a" "ToString fl (jget i ''type'') = Inr t"
  using assms by (auto simp: NewFromMap_def go_bind_Inr split: if_splits option.splits)

lemma builder_parameters:
  assumes "map_of (HealthTesterMap fl) t = Some nh" "nh i htp = Inr (h, htp')"
  shows "frequency htp' = frequency htp \<and> retryTime htp' = retryTime htp \<and> timeout htp' = timeout htp \<and>
    retries htp' = retries htp \<and> testName htp' = testName htp \<and>
    healthyInitially htp' = (healthyInitially htp \<or> t = ''nodeping'') \<and>
    global htp' = (global htp \<or> t \<in> {''file'', ''nodeping'', ''pingdom''})"
  using assms
  by (auto simp: HealthTesterMap_def newTcpHealthTester_def newNtpHealthTester_def newExecHealthTester_def
      newFileHealthTester_def newNodepingHealthTester_def newPingdomHealthTester_def go_bind_Inr split: if_splits)

text \<open>A field that only the entry with one key sets has the value that entry gives, wherever it stands.\<close>

lemma go_fold_field:
  assumes "go_fold f xs s = Inr t" "distinct (keys xs)"
    and "\<And>k' v s t. k' \<in> set (keys xs) \<Longrightarrow> k' \<noteq> k \<Longrightarrow> f (k', v) s = Inr t \<Longrightarrow> F t = F s"
    and "\<And>v s t. f (k, v) s = Inr t \<Longrightarrow> G v = Inr (F t)"
  shows "case map_of xs k of None \<Rightarrow> F t = F s | Some v \<Rightarrow> G v = Inr (F t)"
  using assms(1-3)
proof (induction xs arbitrary: s)
  case (Cons x xs)
  obtain k' v where x: "x = (k', v)" by force
  from Cons.prems x obtain u where u: "f (k', v) s = Inr u" "go_fold f xs u = Inr t" by (auto simp: go_bind_Inr)
  have IH: "case map_of xs k of None \<Rightarrow> F t = F u | Some v \<Rightarrow> G v = Inr (F t)"
    using Cons.prems by (intro Cons.IH [OF u(2)]) (auto simp: x)
  show ?case
  proof (cases "k' = k")
    case True
    with Cons.prems(2) x have "map_of xs k = None" by (simp add: map_of_None_keys)
    with IH u(1) True assms(4) show ?thesis by (simp add: x)
  next
    case False
    with Cons.prems(3) [of k' v s u] u(1) have "F u = F s" by (simp add: x)
    with IH False show ?thesis by (simp add: x split: option.splits)
  qed
qed simp

text \<open>A field that the entries with several keys set has the value of the last of them.\<close>

lemma go_fold_last:
  assumes "go_fold f xs s = Inr t" and "\<And>k v s t. \<not> P k \<Longrightarrow> f (k, v) s = Inr t \<Longrightarrow> F t = F s"
    and "\<And>k v s t. P k \<Longrightarrow> f (k, v) s = Inr t \<Longrightarrow> G v = Inr (F t)"
  shows "if filter (\<lambda>x. P (fst x)) xs = [] then F t = F s else G (snd (List.last (filter (\<lambda>x. P (fst x)) xs))) = Inr (F t)"
  using assms(1)
proof (induction xs arbitrary: s)
  case (Cons x xs)
  obtain k v where x: "x = (k, v)" by force
  from Cons.prems x obtain u where u: "f (k, v) s = Inr u" "go_fold f xs u = Inr t" by (auto simp: go_bind_Inr)
  note IH = Cons.IH [OF u(2)]
  show ?case
  proof (cases "P k")
    case True
    with assms(3) [OF True u(1)] IH show ?thesis by (simp add: x split: if_splits)
  next
    case False
    with assms(2) [OF False u(1)] IH show ?thesis by (simp add: x split: if_splits)
  qed
qed simp

lemma parameter_entry_fields:
  "parameter_entry (k, v) p = Inr p' \<Longrightarrow> timeout p' = timeout p \<and> testName p' = testName p \<and> global p' = global p \<and>
     (k \<noteq> ''frequency'' \<longrightarrow> frequency p' = frequency p) \<and> (k \<noteq> ''retries'' \<longrightarrow> retries p' = retries p) \<and>
     (k \<noteq> ''healthy_initially'' \<longrightarrow> healthyInitially p' = healthyInitially p) \<and>
     (\<not> (k = ''timeout'' \<or> k = ''retry_time'') \<longrightarrow> retryTime p' = retryTime p)"
  by (auto simp: parameter_entry_def go_bind_Inr split: if_splits)

lemma parameter_entry_own:
  "parameter_entry (''frequency'', v) p = Inr p' \<Longrightarrow> seconds v = Inr (frequency p')"
  "parameter_entry (''retries'', v) p = Inr p' \<Longrightarrow> ToInt v = Inr (retries p')"
  "parameter_entry (''healthy_initially'', v) p = Inr p' \<Longrightarrow> ToBool v = Inr (healthyInitially p')"
  "k = ''timeout'' \<or> k = ''retry_time'' \<Longrightarrow> parameter_entry (k, v) p = Inr p' \<Longrightarrow> seconds v = Inr (retryTime p')"
  by (auto simp: parameter_entry_def go_bind_Inr)

text \<open>What the entries of the JSON object make of the parameters.\<close>

lemma entries_parameters:
  assumes f: "go_fold parameter_entry i p = Inr p'" and d: "distinct (keys i)"
  shows "timeout p' = timeout p \<and> testName p' = testName p \<and> global p' = global p"
    and "case map_of i ''frequency'' of None \<Rightarrow> frequency p' = frequency p | Some v \<Rightarrow> seconds v = Inr (frequency p')"
    and "case map_of i ''retries'' of None \<Rightarrow> retries p' = retries p | Some v \<Rightarrow> ToInt v = Inr (retries p')"
    and "case map_of i ''healthy_initially'' of None \<Rightarrow> healthyInitially p' = healthyInitially p | Some v \<Rightarrow> ToBool v = Inr (healthyInitially p')"
    and "if filter (\<lambda>x. fst x = ''timeout'' \<or> fst x = ''retry_time'') i = [] then retryTime p' = retryTime p
      else seconds (snd (List.last (filter (\<lambda>x. fst x = ''timeout'' \<or> fst x = ''retry_time'') i))) = Inr (retryTime p')"
proof -
  show "timeout p' = timeout p \<and> testName p' = testName p \<and> global p' = global p"
  proof (rule go_fold_invariant [OF f, of "\<lambda>q. timeout q = timeout p \<and> testName q = testName p \<and> global q = global p"])
    fix x s t assume "timeout s = timeout p \<and> testName s = testName p \<and> global s = global p" "parameter_entry x s = Inr t"
    then show "timeout t = timeout p \<and> testName t = testName p \<and> global t = global p"
      using parameter_entry_fields [of "fst x" "snd x" s t] by simp
  qed simp
  note F = parameter_entry_fields and O = parameter_entry_own
  show "case map_of i ''frequency'' of None \<Rightarrow> frequency p' = frequency p | Some v \<Rightarrow> seconds v = Inr (frequency p')"
    by (rule go_fold_field [OF f d]) (use F in blast, use O(1) in blast)
  show "case map_of i ''retries'' of None \<Rightarrow> retries p' = retries p | Some v \<Rightarrow> ToInt v = Inr (retries p')"
    by (rule go_fold_field [OF f d]) (use F in blast, use O(2) in blast)
  show "case map_of i ''healthy_initially'' of None \<Rightarrow> healthyInitially p' = healthyInitially p | Some v \<Rightarrow> ToBool v = Inr (healthyInitially p')"
    by (rule go_fold_field [OF f d]) (use F in blast, use O(3) in blast)
  show "if filter (\<lambda>x. fst x = ''timeout'' \<or> fst x = ''retry_time'') i = [] then retryTime p' = retryTime p
      else seconds (snd (List.last (filter (\<lambda>x. fst x = ''timeout'' \<or> fst x = ''retry_time'') i))) = Inr (retryTime p')"
    by (rule go_fold_last [OF f, of "\<lambda>k. k = ''timeout'' \<or> k = ''retry_time''"]) (use F in blast, use O(4) in blast)
qed

lemma Test_keeps_String: "tester_Test e t ht = Inr (b, t', ht') \<Longrightarrow> tester_String fmtMap t' = tester_String fmtMap t"
  by (cases t) (auto simp: file_test_def Let_def go_bind_Inr split: if_splits option.splits)

lemma poll_keeps_keys: "ht_poll e ts ht = Inr (b, ts', ht') \<Longrightarrow> ht_String fmtMap ts' x = ht_String fmtMap ts x"
  using Test_keeps_String by (auto simp: ht_poll_def go_bind_Inr ht_String_def split: prod.splits)

lemma NewFromMap_no_type: "map_of i ''type'' = None \<Longrightarrow> NewFromMap fl a i ts = Inl (Panic ''Cant convert value'')"
  by (simp add: NewFromMap_def jget_def map_get_def)

lemma NewTest_params:
  "frequency (parameters (NewTest ip p a)) = at_least_second (frequency p)"
  "retryTime (parameters (NewTest ip p a)) = at_least_second (retryTime p)"
  "timeout (parameters (NewTest ip p a)) = at_least_second (timeout p)"
  "retries (parameters (NewTest ip p a)) = retries p" "global (parameters (NewTest ip p a)) = global p"
  "tester (NewTest ip p a) = a" "globalMap (NewTest ip p a) = []" "testName (parameters (NewTest ip p a)) = testName p"
  "healthyInitially (parameters (NewTest ip p a)) = healthyInitially p" "healthy (NewTest ip p a) = healthyInitially p"
  by (simp_all add: NewTest_def)

lemma defaults:
  "frequency defaultHealthTestParameters = 30 * Second" "retryTime defaultHealthTestParameters = 5 * Second"
  "timeout defaultHealthTestParameters = 5 * Second" "retries defaultHealthTestParameters = 3"
  "\<not> healthyInitially defaultHealthTestParameters" "\<not> global defaultHealthTestParameters"
  "at_least_second (30 * Second) = 30 * Second" "at_least_second (5 * Second) = 5 * Second"
  by (simp_all add: defaultHealthTestParameters_def at_least_second_def Second_def)

text \<open>The entry of a global test that is added, polled and removed.\<close>

definition fresh_entry :: "health_test \<Rightarrow> string \<Rightarrow> runner_entry" where
  "fresh_entry ht ref = \<lparr>entry_test = (NewTest [] (parameters ht) (tester ht))\<lparr>healthy := healthy ht\<rparr>, references = [ref]\<rparr>"

lemma addTest_new:
  assumes "map_of (entries r) (ht_String fmtMap ts ht) = None" "global (parameters ht)"
  shows "map_of (entries (addTest fmtMap ts ht ref r)) (ht_String fmtMap ts ht) = Some (fresh_entry ht ref)"
  using assms by (simp add: addTest_def ht_start_def ht_copy_def NewTest_def fresh_entry_def Let_def)

lemma poll_entry_success:
  assumes "map_of (entries r) key = Some t" "ht_poll e ts (entry_test t) = Inr (True, ts', h)"
    and "poll_entry e key now (ts, s, r) = Inr (Some (ts1, s1, r1))"
  shows "ts1 = ts' \<and> map_of (entries r1) key = Some (t\<lparr>entry_test := h\<lparr>healthy := True\<rparr>\<rparr>)"
  using assms by (auto simp: poll_entry_def health_result_def setHealthy_def Let_def split: if_splits)

text \<open>While a file is not written again, the polls of its test succeed and change nothing but the state of health.\<close>

lemma polls_unchanged:
  assumes "te_Open e path = Some \<lparr>of_ModTime = Some m, of_Bytes = b\<rparr>" "path \<noteq> []"
    and "ts (tester (entry_test t)) = FileHealthTester path hash (Some m)" "map_of (entries r) key = Some t"
    and "poll_entries e key nows (ts, s, r) = Inr (Some (ts1, s1, r1))"
  shows "ts1 = ts \<and> map_of (entries r1) key =
    Some (t\<lparr>entry_test := (entry_test t)\<lparr>healthy := healthy (entry_test t) \<or> nows \<noteq> []\<rparr>\<rparr>)"
  using assms(3-5)
proof (induction nows arbitrary: s r t)
  case (Cons now nows)
  from Cons.prems(3) obtain ts2 s2 r2 where p: "poll_entry e key now (ts, s, r) = Inr (Some (ts2, s2, r2))"
    "poll_entries e key nows (ts2, s2, r2) = Inr (Some (ts1, s1, r1))" by (auto simp: go_bind_Inr split: option.splits)
  let ?t = "t\<lparr>entry_test := (entry_test t)\<lparr>healthy := True\<rparr>\<rparr>"
  have "ht_poll e ts (entry_test t) = Inr (True, ts, entry_test t)"
    using assms(1,2) Cons.prems(1) by (simp add: ht_poll_def file_test_def Let_def fun_upd_idem)
  from poll_entry_success [OF Cons.prems(2) this p(1)] have e: "ts2 = ts" "map_of (entries r2) key = Some ?t" by simp_all
  have "ts (tester (entry_test ?t)) = FileHealthTester path hash (Some m)" using Cons.prems(1) by simp
  from Cons.IH [OF this e(2) p(2) [unfolded e(1)]] show ?case by simp
qed simp

lemma removeTest_last:
  assumes "map_of (entries r) (ht_String fmtMap ts ht) = Some t" "references t = [ref]"
  shows "\<exists>r'. removeTest fmtMap ts ht ref r = (ht\<lparr>healthy := healthy (entry_test t)\<rparr>, r') \<and>
    map_of (entries r') (ht_String fmtMap ts ht) = None"
  using assms by (simp add: removeTest_def drop_ref_def ht_Stop_def Let_def)

lemma isHealthy_global:
  assumes "map_of (entries r) (ht_String fmtMap ts ht) = Some t" "global (parameters (entry_test t))"
  shows "runner_isHealthy fmtMap ts r ht =
    (case map_of (globalMap (entry_test t)) (IP_String (ipAddress ht)) of Some h \<Rightarrow> h | None \<Rightarrow> healthy ht)"
  using assms by (simp add: runner_isHealthy_def getGlobal_def)

section \<open>Properties\<close>

text \<open>C23. The parameters of a test made from JSON, whatever the order of the entries: the frequency and the number of
  retries are those given, durations in seconds reduced to 64 bits and at least one second, or the defaults. The timeout is always
  the default of five seconds, because the entry for it sets the retry time: the retry time is the one given by \<open>retry_time\<close> or
  by \<open>timeout\<close>, and if both are given by the one that the loop visits last. The test is healthy at first as
  \<open>healthy_initially\<close> says, and otherwise only if it is a nodeping test; it is global exactly if its type is file, nodeping or pingdom.\<close>

theorem test_parameters_from_map:
  assumes "NewFromMap fl a i ts = Inr (Inr (ht, ts'))" "distinct (keys i)"
  shows "timeout (parameters ht) = 5 * Second \<and>
    (case map_of i ''frequency'' of None \<Rightarrow> frequency (parameters ht) = 30 * Second
     | Some v \<Rightarrow> \<exists>n. ToInt v = Inr n \<and> frequency (parameters ht) = max Second (wrap64 (n * Second))) \<and>
    (case map_of i ''retries'' of None \<Rightarrow> retries (parameters ht) = 3 | Some v \<Rightarrow> ToInt v = Inr (retries (parameters ht))) \<and>
    (let given = filter (\<lambda>x. fst x = ''timeout'' \<or> fst x = ''retry_time'') i
     in if given = [] then retryTime (parameters ht) = 5 * Second
        else \<exists>n. ToInt (snd (List.last given)) = Inr n \<and> retryTime (parameters ht) = max Second (wrap64 (n * Second))) \<and>
    ToString fl (jget i ''type'') = Inr (testName (parameters ht)) \<and>
    (case map_of i ''healthy_initially'' of None \<Rightarrow> healthy ht = (testName (parameters ht) = ''nodeping'')
     | Some v \<Rightarrow> ToBool v = Inr (healthy ht)) \<and>
    (global (parameters ht) \<longleftrightarrow> testName (parameters ht) \<in> {''file'', ''nodeping'', ''pingdom''})"
proof (rule NewFromMap_cases [OF assms(1)])
  fix t nh h htp htp'
  assume nh: "map_of (HealthTesterMap fl) t = Some nh" "nh i (defaultHealthTestParameters\<lparr>testName := t\<rparr>) = Inr (h, htp)"
    and f: "go_fold parameter_entry i htp = Inr htp'" and ht: "ht = NewTest [] htp' a" and t: "ToString fl (jget i ''type'') = Inr t"
  note htp = builder_parameters [OF nh] and E = entries_parameters [OF f assms(2)]
  have sec: "\<exists>n. ToInt v = Inr n \<and> at_least_second d = max Second (wrap64 (n * Second))" if "seconds v = Inr d" for v d
    using that by (auto simp: seconds_def go_bind_Inr at_least_second_def max_def)
  note P = ht NewTest_params defaults
  have tn: "testName (parameters ht) = t" using E(1) htp by (simp add: P)
  have "timeout (parameters ht) = 5 * Second"
    "global (parameters ht) \<longleftrightarrow> t \<in> {''file'', ''nodeping'', ''pingdom''}" using E(1) htp by (simp_all add: P)
  moreover have "case map_of i ''frequency'' of None \<Rightarrow> frequency (parameters ht) = 30 * Second
     | Some v \<Rightarrow> \<exists>n. ToInt v = Inr n \<and> frequency (parameters ht) = max Second (wrap64 (n * Second))"
    using E(2) htp sec by (simp add: P split: option.splits)
  moreover have "case map_of i ''retries'' of None \<Rightarrow> retries (parameters ht) = 3 | Some v \<Rightarrow> ToInt v = Inr (retries (parameters ht))"
    using E(3) htp by (simp add: P split: option.splits)
  moreover have "case map_of i ''healthy_initially'' of None \<Rightarrow> healthy ht = (t = ''nodeping'') | Some v \<Rightarrow> ToBool v = Inr (healthy ht)"
    using E(4) htp by (simp add: P split: option.splits)
  moreover have "let given = filter (\<lambda>x. fst x = ''timeout'' \<or> fst x = ''retry_time'') i
     in if given = [] then retryTime (parameters ht) = 5 * Second
        else \<exists>n. ToInt (snd (List.last given)) = Inr n \<and> retryTime (parameters ht) = max Second (wrap64 (n * Second))"
    using E(5) htp sec by (simp add: P Let_def split: if_splits)
  ultimately show ?thesis unfolding tn using t by blast
qed

theorem test_parameters_from_map_witness:
  "case NewFromMap (\<lambda>_. []) 7 [(''type'', JStr ''tcp''), (''retry_time'', JNum 7), (''timeout'', JNum 20), (''healthy_initially'', JBool True),
      (''frequency'', JNum 60)] (\<lambda>_. TcpHealthTester 0) of
     Inr (Inr (ht, ts)) \<Rightarrow> timeout (parameters ht) = 5 * Second \<and> frequency (parameters ht) = 60 * Second \<and>
       retryTime (parameters ht) = 20 * Second \<and> healthy ht \<and> \<not> global (parameters ht)
   | _ \<Rightarrow> False"
proof -
  let ?i = "[(''type'', JStr ''tcp''), (''retry_time'', JNum 7), (''timeout'', JNum 20), (''healthy_initially'', JBool True),
    (''frequency'', JNum 60)]"
  have n: "ToInt (JNum 20) = Inr 20" "ToInt (JNum 60) = Inr 60" "ToInt (JNum 7) = Inr 7" "ToBool (JBool True) = Inr True" by code_simp+
  have w: "max Second (wrap64 (20 * Second)) = 20 * Second" "max Second (wrap64 (60 * Second)) = 60 * Second" by code_simp+
  obtain ht ts where *: "NewFromMap (\<lambda>_. []) 7 ?i (\<lambda>_. TcpHealthTester 0) = Inr (Inr (ht, ts))"
    using n by (simp add: NewFromMap_def jget_def map_get_def HealthTesterMap_def newTcpHealthTester_def param_def
        parameter_entry_def seconds_def)
  have "distinct (keys ?i)" by code_simp
  from test_parameters_from_map [OF * this] show ?thesis unfolding * using n w by (auto simp: jget_def map_get_def)
qed

text \<open>C24. A test that reads a file of results does not survive being stopped and started again. While it runs, the file
  decides: after the first poll an address has the state the file gives. When the test is removed its state is kept as
  healthy, since reading the file was a success. When it is added again, its tester still has the modification time of
  the file while the results are gone: as long as the file is not written again every poll succeeds without reading it, and the
  address counts as healthy, also if the file says it is not.\<close>

theorem file_test_restart_forgets:
  assumes "te_Open e path = Some \<lparr>of_ModTime = Some m, of_Bytes = Some bytes\<rparr>" "te_bool_map e bytes = Some states"
    and "path \<noteq> []" "te_sha256 e bytes \<noteq> []" "ts (tester ht) = FileHealthTester path [] None"
    and "global (parameters ht)" "map_of (entries r) (ht_String fmtMap ts ht) = None"
    and "run_entry e int63n (ht_String fmtMap ts ht) t1 (p # ps) ts (addTest fmtMap ts ht ref r) = Inr (Some (ts1, s1, r1))"
    and "removeTest fmtMap ts1 ht ref r1 = (ht', r2)"
    and "run_entry e int63n (ht_String fmtMap ts ht) t2 qs ts1 (addTest fmtMap ts1 ht' ref r2) = Inr (Some (ts3, s3, r3))"
  shows "runner_isHealthy fmtMap ts1 r1 ht = (case map_of states (IP_String (ipAddress ht)) of Some h \<Rightarrow> h | None \<Rightarrow> healthy ht) \<and>
    ht' = ht\<lparr>healthy := True\<rparr> \<and> runner_isHealthy fmtMap ts3 r3 ht'"
proof -
  let ?k = "ht_String fmtMap ts ht"
  let ?ts = "ts(tester ht := FileHealthTester path (te_sha256 e bytes) (Some m))"
  let ?t = "entry_test (fresh_entry ht ref)"
  have t: "tester ?t = tester ht" "global (parameters ?t)" "globalMap ?t = []"
    using assms(6) by (simp_all add: fresh_entry_def NewTest_params)
  note new = addTest_new [OF assms(7,6), of ref]
  from assms(8) obtain s0 ts2 s2 r0 where p: "poll_entry e ?k p (ts, s0, addTest fmtMap ts ht ref r) = Inr (Some (ts2, s2, r0))"
    "poll_entries e ?k ps (ts2, s2, r0) = Inr (Some (ts1, s1, r1))"
    by (auto simp: run_entry_def new go_bind_Inr split: option.splits)
  have "ht_poll e ts ?t = Inr (True, ?ts, setGlobal states ?t)"
    using assms(1-5) t by (simp add: ht_poll_def file_test_def Let_def)
  from poll_entry_success [OF new this p(1)] have first: "ts2 = ?ts"
    "map_of (entries r0) ?k = Some ((fresh_entry ht ref)\<lparr>entry_test := (setGlobal states ?t)\<lparr>healthy := True\<rparr>\<rparr>)" by simp_all
  have r1: "ts1 = ?ts" "map_of (entries r1) ?k = Some ((fresh_entry ht ref)\<lparr>entry_test := (setGlobal states ?t)\<lparr>healthy := True\<rparr>\<rparr>)"
    using polls_unchanged [OF assms(1,3) _ first(2) p(2) [unfolded first(1)]] t by (simp_all add: setGlobal_def)
  have k: "ht_String fmtMap ts1 ht = ?k" "ht_String fmtMap ts1 (ht\<lparr>healthy := b\<rparr>) = ?k" for b
    using assms(5) by (simp_all add: ht_String_def r1(1))
  have "runner_isHealthy fmtMap ts1 r1 ht = (case map_of states (IP_String (ipAddress ht)) of Some h \<Rightarrow> h | None \<Rightarrow> healthy ht)"
    using isHealthy_global [of r1 fmtMap ts1 ht] r1(2) t(2) by (simp add: k setGlobal_def)
  moreover have ht': "ht' = ht\<lparr>healthy := True\<rparr>" and r2: "map_of (entries r2) ?k = None"
    using removeTest_last [of r1 fmtMap ts1 ht _ ref] r1(2) assms(9) by (auto simp: k fresh_entry_def)
  moreover have "runner_isHealthy fmtMap ts3 r3 ht'"
  proof -
    have again: "map_of (entries (addTest fmtMap ts1 ht' ref r2)) ?k = Some (fresh_entry ht' ref)"
      using addTest_new [of r2 fmtMap ts1 ht' ref] r2 assms(6) by (simp add: ht' k)
    with assms(10) obtain s0 where "poll_entries e ?k qs (ts1, s0, addTest fmtMap ts1 ht' ref r2) = Inr (Some (ts3, s3, r3))"
      by (auto simp: run_entry_def go_bind_Inr)
    from polls_unchanged [OF assms(1,3) _ again this] have "ts3 = ts1" "\<exists>b. map_of (entries r3) ?k =
        Some ((fresh_entry ht' ref)\<lparr>entry_test := (entry_test (fresh_entry ht' ref))\<lparr>healthy := b\<rparr>\<rparr>)"
      by (auto simp: r1(1) ht' fresh_entry_def NewTest_params)
    then show ?thesis using isHealthy_global [of r3 fmtMap ts1 ht'] assms(6) by (auto simp: ht' k fresh_entry_def NewTest_params)
  qed
  ultimately show ?thesis by blast
qed

definition sample_env_file :: test_env where
  "sample_env_file =
     \<lparr>te_Dial = (\<lambda>_ _. False), te_Exchange = (\<lambda>_ _ _. None), te_Run = (\<lambda>_. False),
      te_Open = (\<lambda>_. Some \<lparr>of_ModTime = Some 7, of_Bytes = Some ''{}''\<rparr>), te_Do = (\<lambda>_. None),
      te_QueryEscape = (\<lambda>s. s), te_sha256 = (\<lambda>_. ''44''), te_bool_map = (\<lambda>_. Some [(''192.0.2.1'', False)]),
      te_object = (\<lambda>_. None), te_fmtFloat = (\<lambda>_. [])\<rparr>"

definition sample_file_test :: health_test where
  "sample_file_test = NewTest [192, 0, 2, 1] (defaultHealthTestParameters\<lparr>global := True\<rparr>) 0"

text \<open>The goroutine of an entry does poll as soon as it is due.\<close>

lemma run_entry_due:
  assumes "map_of (entries r) key = Some t" "ht_poll e ts (entry_test t) = Inr (True, ts', h)"
    and "0 < frequency (parameters (entry_test t))" "0 < retryTime (parameters (entry_test t))"
  shows "\<exists>s1 r1. run_entry e (\<lambda>_. 0) key now [now] ts r = Inr (Some (ts', s1, r1)) \<and>
    map_of (entries r1) key = Some (t\<lparr>entry_test := h\<lparr>healthy := True\<rparr>\<rparr>)"
  using assms by (simp add: run_entry_def run_init_def rand_Int63n_def poll_entry_def health_result_def setHealthy_def Let_def)

theorem file_test_restart_forgets_witness:
  "\<exists>ts1 s1 r1 ht' r2 ts3 s3 r3.
     run_entry sample_env_file (\<lambda>_. 0) (ht_String (\<lambda>_. []) (\<lambda>_. FileHealthTester ''f'' [] None) sample_file_test) 0 [0]
       (\<lambda>_. FileHealthTester ''f'' [] None)
       (addTest (\<lambda>_. []) (\<lambda>_. FileHealthTester ''f'' [] None) sample_file_test ''z'' \<lparr>entries = [], running = []\<rparr>) = Inr (Some (ts1, s1, r1)) \<and>
     \<not> runner_isHealthy (\<lambda>_. []) ts1 r1 sample_file_test \<and>
     removeTest (\<lambda>_. []) ts1 sample_file_test ''z'' r1 = (ht', r2) \<and>
     run_entry sample_env_file (\<lambda>_. 0) (ht_String (\<lambda>_. []) (\<lambda>_. FileHealthTester ''f'' [] None) sample_file_test) 60 [60]
       ts1 (addTest (\<lambda>_. []) ts1 ht' ''z'' r2) = Inr (Some (ts3, s3, r3)) \<and>
     runner_isHealthy (\<lambda>_. []) ts3 r3 ht'"
proof -
  let ?ts = "\<lambda>_. FileHealthTester ''f'' [] None" and ?f = "\<lambda>_. []" and ?ht = sample_file_test
  let ?ts1 = "?ts(tester ?ht := FileHealthTester ''f'' ''44'' (Some 7))"
  let ?k = "ht_String ?f ?ts ?ht" and ?r = "\<lparr>entries = [], running = []\<rparr>" and ?m = "[(''192.0.2.1'', False)]"
  have env: "te_Open sample_env_file ''f'' = Some \<lparr>of_ModTime = Some 7, of_Bytes = Some ''{}''\<rparr>"
    "te_bool_map sample_env_file ''{}'' = Some ?m" "te_sha256 sample_env_file ''{}'' = ''44''"
    by (simp_all add: sample_env_file_def)
  have t: "global (parameters ?ht)" "IP_String (ipAddress ?ht) = ''192.0.2.1''" by code_simp+
  have fresh: "tester (entry_test (fresh_entry h ''z'')) = tester h" "0 < frequency (parameters (entry_test (fresh_entry h ''z'')))"
    "0 < retryTime (parameters (entry_test (fresh_entry h ''z'')))" for h
    by (simp_all add: fresh_entry_def NewTest_params at_least_second_def Second_def)
  have k: "ht_String ?f ?ts1 (?ht\<lparr>healthy := b\<rparr>) = ?k" "ht_String ?f ?ts1 ?ht = ?k" for b by (simp_all add: ht_String_def)
  have "ht_poll sample_env_file ?ts (entry_test (fresh_entry ?ht ''z'')) = Inr (True, ?ts1, setGlobal ?m (entry_test (fresh_entry ?ht ''z'')))"
    by (simp add: ht_poll_def file_test_def Let_def env fresh)
  from run_entry_due [OF addTest_new [of ?r ?f ?ts ?ht "''z''", OF _ t(1)] this fresh(2,3), where now = 0] obtain s1 r1 where
    1: "run_entry sample_env_file (\<lambda>_. 0) ?k 0 [0] ?ts (addTest ?f ?ts ?ht ''z'' ?r) = Inr (Some (?ts1, s1, r1))"
      "map_of (entries r1) ?k = Some ((fresh_entry ?ht ''z'')\<lparr>entry_test := (setGlobal ?m (entry_test (fresh_entry ?ht ''z'')))\<lparr>healthy := True\<rparr>\<rparr>)"
    by auto
  from removeTest_last [of r1 ?f ?ts1 ?ht _ "''z''"] 1(2) obtain r2 where
    2: "removeTest ?f ?ts1 ?ht ''z'' r1 = (?ht\<lparr>healthy := True\<rparr>, r2)" "map_of (entries r2) ?k = None"
    by (auto simp: k fresh_entry_def)
  let ?ht' = "?ht\<lparr>healthy := True\<rparr>"
  have "ht_poll sample_env_file ?ts1 (entry_test (fresh_entry ?ht' ''z'')) = Inr (True, ?ts1, entry_test (fresh_entry ?ht' ''z''))"
    by (simp add: ht_poll_def file_test_def Let_def env fresh)
  from run_entry_due [OF addTest_new [of r2 ?f ?ts1 ?ht' "''z''", unfolded k(1), OF 2(2)] this fresh(2,3), where now = 60] t(1) obtain s3 r3 where
    3: "run_entry sample_env_file (\<lambda>_. 0) ?k 60 [60] ?ts1 (addTest ?f ?ts1 ?ht' ''z'' r2) = Inr (Some (?ts1, s3, r3))" by auto
  note file_test_restart_forgets [OF env(1,2) _ _ _ t(1) _ 1(1) 2(1) 3]
  with t(2) env(3) have "\<not> runner_isHealthy ?f ?ts1 r1 ?ht" "runner_isHealthy ?f ?ts1 r3 ?ht'" by simp_all
  with 1(1) 2(1) 3 show ?thesis by blast
qed

end
