(* ===== verification/LogStats.thy ===== *)
theory LogStats
  imports Server Countries
begin

text \<open>
  \<open>querylog/querylog.go\<close> and the command \<open>geodns-logs\<close>: the file logger the server writes its entries with, and
  the program that reads such a file back and counts the queries. \<open>json.Marshal\<close> and \<open>json.Unmarshal\<close> of an
  entry, the rotating file of the vendored library and the table \<open>dns.TypeToString\<close> are parameters.
  \<open>Unmarshal\<close> writes into the entry it is given, so it takes the old one. The statistics and the Prometheus
  counter are the state; \<open>processFile\<close> and its goroutine are a step relation on the states of both.
\<close>

section \<open>The file logger\<close>

record file_logger =
  fl_Filename :: string
  fl_MaxSize :: int
  fl_MaxBackups :: int
  fl_lines :: "string list"

definition NewFileLogger :: "string \<Rightarrow> int \<Rightarrow> int \<Rightarrow> file_logger" where
  "NewFileLogger filename maxsize keep =
     \<lparr>fl_Filename = filename, fl_MaxSize = maxsize, fl_MaxBackups = keep, fl_lines = []\<rparr>"

text \<open>A write ends in a newline; the file is the list of its lines. \<open>write\<close> is the write of the vendored
  logger: it fails or appends the line.\<close>

definition FileLogger_Write ::
  "(query_entry \<Rightarrow> string + string) \<Rightarrow> (file_logger \<Rightarrow> string \<Rightarrow> string option) \<Rightarrow> query_entry \<Rightarrow> file_logger \<Rightarrow>
   string option \<times> file_logger" where
  "FileLogger_Write marshal write e l =
     (case marshal e of
        Inl err \<Rightarrow> (Some err, l)
      | Inr js \<Rightarrow>
          (case write l (js @ [CHR 0x0A]) of
             Some err \<Rightarrow> (Some err, l)
           | None \<Rightarrow> (None, l\<lparr>fl_lines := fl_lines l @ [js]\<rparr>)))"

section \<open>Labels of the statistics\<close>

definition extraValidLabels :: "string list" where
  "extraValidLabels = [''uk'', ''_status'', ''_country'', ''www'', ''nag-test'']"

definition validCC :: "string \<Rightarrow> bool" where
  "validCC label \<longleftrightarrow>
     List.member (keys CountryContinent) label \<or> List.member (keys ContinentCountries) label \<or>
     List.member (keys RegionGroupRegions) label \<or> List.member (keys RegionGroups) label \<or>
     List.member extraValidLabels label"

text \<open>\<open>strings.ContainsAny(v, "01234")\<close>\<close>

definition contains_01234 :: "string \<Rightarrow> bool" where
  "contains_01234 v = list_ex (\<lambda>c. List.member ''01234'' c) v"

definition getPoolCC :: "string \<Rightarrow> string \<times> bool" where
  "getPoolCC label =
     (let l = SplitDomainName label
      in if length l = 0 then ([], True)
         else case find validCC l of
           Some cc \<Rightarrow> (cc, True)
         | None \<Rightarrow>
             if length (l ! 0) = 1 \<and> contains_01234 (l ! 0) \<and> length l = 1 then ([], True) else ([], False))"

definition vendorName :: "string \<Rightarrow> string go" where
  "vendorName n =
     (let idx = indexOf n ''.pool.ntp.org.''
      in if idx \<le> 0 then Inr []
         else let l = SplitDomainName (take (nat idx) n)
              in if l = [] then Inl IndexOutOfRange
                 else let v = last l
                      in if length v = 1 \<and> contains_01234 v then Inr []
                         else if length v = 2 then Inr ''_country''
                         else if List.member [''asia'', ''north-america'', ''europe'', ''south-america'', ''oceania'', ''africa''] v
                           then Inr ''_continent''
                         else Inr v)"

section \<open>Statistics\<close>

record statsEntry =
  st_Time :: int
  st_Origin :: string
  st_Name :: string
  st_Vendor :: string
  st_Label :: string
  st_Qtype :: string
  st_PoolCC :: string
  st_Count :: int

record log_stats =
  ls_Count :: int
  ls_Map :: "(string \<times> statsEntry) list"

type_synonym log_counter = "(string list \<times> nat) list"

definition NewStats :: log_stats where
  "NewStats = \<lparr>ls_Count = 0, ls_Map = []\<rparr>"

definition Stats_Key :: "query_entry \<Rightarrow> string" where
  "Stats_Key e = join '' '' [qe_Origin e, qe_Name e, qe_LabelName e, utoa (unat (qe_Qtype e))]"

definition is_pool :: "query_entry \<Rightarrow> bool" where
  "is_pool e \<longleftrightarrow> qe_Origin e = ''pool.ntp.org'' \<or> hasSuffix (qe_Origin e) ''ntppool.org''"

definition user_cc :: "query_entry \<Rightarrow> string" where
  "user_cc e = (case find (\<lambda>cc. length cc = 2) (qe_Targets e) of Some cc \<Rightarrow> cc | None \<Rightarrow> [])"

definition Stats_Add ::
  "(uint16 \<Rightarrow> string) \<Rightarrow> query_entry \<Rightarrow> log_stats \<times> log_counter \<Rightarrow> (log_stats \<times> log_counter) go" where
  "Stats_Add typeToString e sq =
     (let (stats, queries) = sq
      in if 0 < qe_Rcode e then Inr sq
         else if qe_Answers e = 0 then Inr sq
         else
           go_bind (if is_pool e then go_bind (vendorName (qe_Name e)) (\<lambda>v. Inr (v, fst (getPoolCC (qe_LabelName e))))
                    else Inr ([], []))
             (\<lambda>(vendor, poolCC).
               let stats = stats\<lparr>ls_Count := wrap64 (ls_Count stats + 1)\<rparr>;
                   qtypeString = typeToString (qe_Qtype e);
                   ls = [qe_Origin e, vendor, user_cc e, poolCC, qtypeString];
                   queries = map_put ls (map_get queries ls 0 + 1) queries;
                   key = Stats_Key e
               in case map_of (ls_Map stats) key of
                    Some s \<Rightarrow>
                      Inr (stats\<lparr>ls_Map := map_put key (s\<lparr>st_Count := wrap64 (st_Count s + 1)\<rparr>) (ls_Map stats)\<rparr>, queries)
                  | None \<Rightarrow>
                      Inr (stats\<lparr>ls_Map := map_put key
                                 \<lparr>st_Time = qe_Time e, st_Origin = qe_Origin e, st_Name = qe_Name e, st_Vendor = vendor,
                                  st_Label = qe_LabelName e, st_Qtype = qtypeString, st_PoolCC = poolCC, st_Count = 1\<rparr>
                                 (ls_Map stats)\<rparr>, queries)))"

section \<open>Reading a log\<close>

type_synonym unmarshal = "string \<Rightarrow> query_entry \<Rightarrow> string + query_entry"

definition zero_entry :: query_entry where
  "zero_entry =
     \<lparr>qe_Time = 0, qe_Origin = [], qe_Name = [], qe_Qtype = 0, qe_Rcode = 0, qe_Answers = 0, qe_Targets = [],
      qe_LabelName = [], qe_RemoteAddr = [], qe_ClientAddr = [], qe_HasECS = False\<rparr>"

fun process_lines ::
  "unmarshal \<Rightarrow> (uint16 \<Rightarrow> string) \<Rightarrow> string list \<Rightarrow> query_entry \<Rightarrow> log_stats \<times> log_counter \<Rightarrow>
   (string option \<times> log_stats \<times> log_counter) go" where
  "process_lines unm tts [] e sq = Inr (None, sq)"
| "process_lines unm tts (line # lines) e sq =
     (case unm line e of
        Inl err \<Rightarrow> Inr (Some err, sq)
      | Inr e \<Rightarrow>
          let e = e\<lparr>qe_Name := toLower (qe_Name e)\<rparr>
          in go_bind (Stats_Add tts e sq) (\<lambda>sq. process_lines unm tts lines e sq))"

definition processChan ::
  "unmarshal \<Rightarrow> (uint16 \<Rightarrow> string) \<Rightarrow> string list \<Rightarrow> log_counter \<Rightarrow> (string option \<times> log_stats \<times> log_counter) go" where
  "processChan unm tts lines queries = process_lines unm tts lines zero_entry (NewStats, queries)"

text \<open>\<open>processFile\<close> and the goroutine \<open>processChan\<close> it starts: two processes that meet on an unbuffered channel and on a
  wait group. The sender is in its scan loop with the lines left to send, in \<open>wg.Wait\<close>, or has returned. The
  receiver waits at the channel, handles a line, has returned, or has panicked, which ends the process.\<close>

datatype file_sender = Sending "string list" | Waiting | Returned "string option"

datatype file_receiver =
    Receiving query_entry "log_stats \<times> log_counter"
  | Handling string query_entry "log_stats \<times> log_counter"
  | Stopped "string option" "log_stats \<times> log_counter"
  | Panicked go_panic

record file_run =
  fr_sender :: file_sender
  fr_receiver :: file_receiver
  fr_closed :: bool
  fr_wg :: int

text \<open>\<open>processChan\<close>'s handling of one line, after \<open>range in\<close> has received it.\<close>

definition handle_line ::
  "unmarshal \<Rightarrow> (uint16 \<Rightarrow> string) \<Rightarrow> string \<Rightarrow> query_entry \<Rightarrow> log_stats \<times> log_counter \<Rightarrow> file_receiver" where
  "handle_line unm tts line e sq =
     (case unm line e of
        Inl err \<Rightarrow> Stopped (Some err) sq
      | Inr e \<Rightarrow>
          let e = e\<lparr>qe_Name := toLower (qe_Name e)\<rparr>
          in case Stats_Add tts e sq of Inl p \<Rightarrow> Panicked p | Inr sq \<Rightarrow> Receiving e sq)"

text \<open>The start: nothing runs if the file cannot be opened, else \<open>wg.Add(1)\<close> and \<open>go processChan(in, &wg)\<close>.\<close>

definition file_start :: "string + string list \<Rightarrow> log_counter \<Rightarrow> file_run" where
  "file_start opened queries =
     (case opened of
        Inl err \<Rightarrow> \<lparr>fr_sender = Returned (Some err), fr_receiver = Stopped None (NewStats, queries), fr_closed = False, fr_wg = 0\<rparr>
      | Inr lines \<Rightarrow>
          \<lparr>fr_sender = Sending lines, fr_receiver = Receiving zero_entry (NewStats, queries), fr_closed = False, fr_wg = 1\<rparr>)"

text \<open>One step of either: \<open>in <- line\<close> meets the receiver at the channel; the receiver handles a line; the sender closes the
  channel; the receiver finds the channel closed, calls \<open>Done\<close> and returns; \<open>Wait\<close> returns when the counter is zero.\<close>

inductive file_step :: "unmarshal \<Rightarrow> (uint16 \<Rightarrow> string) \<Rightarrow> file_run \<Rightarrow> file_run \<Rightarrow> bool" for unm tts where
  send: "fr_sender c = Sending (line # lines) \<Longrightarrow> fr_receiver c = Receiving e sq \<Longrightarrow>
    file_step unm tts c (c\<lparr>fr_sender := Sending lines, fr_receiver := Handling line e sq\<rparr>)"
| handle: "fr_receiver c = Handling line e sq \<Longrightarrow>
    file_step unm tts c (c\<lparr>fr_receiver := handle_line unm tts line e sq\<rparr>)"
| close: "fr_sender c = Sending [] \<Longrightarrow> \<forall>p. fr_receiver c \<noteq> Panicked p \<Longrightarrow>
    file_step unm tts c (c\<lparr>fr_sender := Waiting, fr_closed := True\<rparr>)"
| drain: "fr_closed c \<Longrightarrow> fr_receiver c = Receiving e sq \<Longrightarrow>
    file_step unm tts c (c\<lparr>fr_receiver := Stopped None sq, fr_wg := fr_wg c - 1\<rparr>)"
| return: "fr_sender c = Waiting \<Longrightarrow> fr_wg c = 0 \<Longrightarrow> \<forall>p. fr_receiver c \<noteq> Panicked p \<Longrightarrow>
    file_step unm tts c (c\<lparr>fr_sender := Returned None\<rparr>)"

definition file_stuck :: "unmarshal \<Rightarrow> (uint16 \<Rightarrow> string) \<Rightarrow> file_run \<Rightarrow> bool" where
  "file_stuck unm tts c \<longleftrightarrow> (\<nexists>c'. file_step unm tts c c')"

text \<open>The identifier of the server, from the flag or else the host name; \<open>None\<close> is the exit with code 2.\<close>

definition logs_serverID :: "string \<Rightarrow> string option \<Rightarrow> string option" where
  "logs_serverID identifier hostname =
     (let serverID = (if 0 < length identifier then split_on (CHR '','') identifier ! 0 else [])
      in if length serverID = 0 then hostname else Some serverID)"

text \<open>\<open>main\<close> up to a moment: \<open>lines\<close> are those the file has had so far, sent on a channel that is never closed. The result is
  the exit code, or the counters once \<open>processChan\<close> has handled what it will handle of these lines.\<close>

definition logs_main ::
  "unmarshal \<Rightarrow> (uint16 \<Rightarrow> string) \<Rightarrow> string \<Rightarrow> string option \<Rightarrow> string list \<Rightarrow> (string \<Rightarrow> string list) \<Rightarrow>
   (int + log_counter) go" where
  "logs_main unm tts identifier hostname args tail_lines =
     (if logs_serverID identifier hostname = None then Inr (Inl 2)
      else if length args < 1 then Inr (Inl 2)
      else go_bind (processChan unm tts (tail_lines (args ! 0)) []) (\<lambda>(_, _, queries). Inr (Inr queries)))"

section \<open>Lemmas\<close>

text \<open>What the lines decode to, up to the first that does not.\<close>

fun decoded :: "unmarshal \<Rightarrow> query_entry \<Rightarrow> string list \<Rightarrow> query_entry list" where
  "decoded unm e [] = []"
| "decoded unm e (line # lines) =
     (case unm line e of
        Inl _ \<Rightarrow> []
      | Inr e \<Rightarrow> let e = e\<lparr>qe_Name := toLower (qe_Name e)\<rparr> in e # decoded unm e lines)"

fun decode_error :: "unmarshal \<Rightarrow> query_entry \<Rightarrow> string list \<Rightarrow> string option" where
  "decode_error unm e [] = None"
| "decode_error unm e (line # lines) =
     (case unm line e of
        Inl err \<Rightarrow> Some err
      | Inr e \<Rightarrow> decode_error unm (e\<lparr>qe_Name := toLower (qe_Name e)\<rparr>) lines)"

definition counted :: "query_entry \<Rightarrow> bool" where
  "counted e \<longleftrightarrow> qe_Rcode e \<le> 0 \<and> qe_Answers e \<noteq> 0"

definition countable :: "query_entry \<Rightarrow> bool" where
  "countable e \<longleftrightarrow> (counted e \<and> is_pool e \<longrightarrow> \<not> hasPrefix (qe_Name e) ''..pool.ntp.org.'')"

definition counter_labels :: "(uint16 \<Rightarrow> string) \<Rightarrow> query_entry \<Rightarrow> string list" where
  "counter_labels tts e =
     [qe_Origin e, if is_pool e then (case vendorName (qe_Name e) of Inr v \<Rightarrow> v | Inl _ \<Rightarrow> []) else [], user_cc e,
      if is_pool e then fst (getPoolCC (qe_LabelName e)) else [], tts (qe_Qtype e)]"

definition tally_by :: "('a \<Rightarrow> 'b) \<Rightarrow> 'a list \<Rightarrow> 'b \<Rightarrow> nat" where
  "tally_by f xs y = length (filter (\<lambda>x. f x = y) xs)"

text \<open>The statistics say how often each key was counted, the counter how often its labels were.\<close>

definition stats_of :: "(uint16 \<Rightarrow> string) \<Rightarrow> query_entry list \<Rightarrow> log_stats \<times> log_counter \<Rightarrow> bool" where
  "stats_of tts es sq \<longleftrightarrow>
     ls_Count (fst sq) = int (length es) \<and>
     (\<forall>k. map_option st_Count (map_of (ls_Map (fst sq)) k) =
          (if tally_by Stats_Key es k = 0 then None else Some (int (tally_by Stats_Key es k)))) \<and>
     (\<forall>ls. map_get (snd sq) ls 0 = tally_by (counter_labels tts) es ls)"

lemma tally_simps [simp]:
  "tally_by f [] y = 0" "tally_by f (xs @ [x]) y = tally_by f xs y + (if f x = y then 1 else 0)"
  by (simp_all add: tally_by_def)

lemma tally_le: "tally_by f xs y \<le> length xs"
  by (simp add: tally_by_def)

lemma SplitDomainName_Nil_iff: "SplitDomainName s = [] \<longleftrightarrow> s = [] \<or> s = ''.''"
proof (cases "s = [] \<or> s = ''.''")
  case True
  moreover have "SplitDomainName [] = []" "SplitDomainName ''.'' = []" by code_simp+
  ultimately show ?thesis by blast
qed (use SplitDomainName_labels labels_of_nonempty in metis)

lemma indexOf_zero_iff: "sub \<noteq> [] \<Longrightarrow> indexOf m sub = 0 \<longleftrightarrow> hasPrefix m sub"
  by (cases m) (auto simp: hasPrefix_def Let_def)

lemma vendor_prefix_dot:
  "0 < indexOf n ''.pool.ntp.org.'' \<and> take (nat (indexOf n ''.pool.ntp.org.'')) n = ''.'' \<longleftrightarrow> hasPrefix n ''..pool.ntp.org.''"
proof (cases n)
  case (Cons c m)
  let ?sub = "''.pool.ntp.org.''"
  have z: "indexOf m ?sub = 0 \<longleftrightarrow> hasPrefix m ?sub" by (rule indexOf_zero_iff) simp
  have two: "m \<noteq> []" if "0 < indexOf m ?sub" using that by (cases m) auto
  have one: "take (nat (indexOf m ?sub + 1)) n = ''.'' \<longleftrightarrow> c = CHR ''.'' \<and> indexOf m ?sub = 0" if "0 \<le> indexOf m ?sub"
    using that two by (cases m) (auto simp: Cons nat_add_distrib take_Cons split: nat.splits)
  have pre: "hasPrefix n ''..pool.ntp.org.'' \<longleftrightarrow> c = CHR ''.'' \<and> hasPrefix m ?sub" by (simp add: Cons hasPrefix_def)
  have no: "\<not> hasPrefix n ?sub" if "hasPrefix m ?sub" using that by (auto simp: Cons hasPrefix_def) (cases m; simp)
  show ?thesis
  proof (cases "hasPrefix m ?sub")
    case True
    with z no one show ?thesis by (simp add: Cons pre [unfolded Cons])
  next
    case False
    with z one show ?thesis by (auto simp: Cons pre [unfolded Cons] Let_def split: if_splits)
  qed
qed (simp add: hasPrefix_def)

lemma vendorName_ok_iff: "go_ok (vendorName n) \<longleftrightarrow> \<not> hasPrefix n ''..pool.ntp.org.''"
proof -
  let ?i = "indexOf n ''.pool.ntp.org.''"
  have "n \<noteq> []" if "0 < ?i" using that by (cases n) auto
  then have "SplitDomainName (take (nat ?i) n) = [] \<longleftrightarrow> take (nat ?i) n = ''.''" if "0 < ?i"
    using that by (auto simp: SplitDomainName_Nil_iff)
  then show ?thesis unfolding vendor_prefix_dot [symmetric] vendorName_def Let_def by (auto simp del: indexOf.simps)
qed

lemma Stats_Add_skips: "\<not> counted e \<Longrightarrow> Stats_Add tts e sq = Inr sq"
  by (auto simp: Stats_Add_def counted_def split: prod.split)

lemma vendorName_panic: "vendorName n = Inl p \<Longrightarrow> p = IndexOutOfRange"
  by (auto simp: vendorName_def Let_def split: if_splits)

lemma Stats_Add_panics: "\<not> countable e \<Longrightarrow> Stats_Add tts e sq = Inl IndexOutOfRange"
proof -
  assume e: "\<not> countable e"
  then have "\<not> go_ok (vendorName (qe_Name e))" by (simp add: countable_def vendorName_ok_iff)
  then have "vendorName (qe_Name e) = Inl IndexOutOfRange"
    using vendorName_panic by (cases "vendorName (qe_Name e)") auto
  with e show ?thesis by (cases sq) (auto simp: Stats_Add_def countable_def counted_def)
qed

text \<open>The result of counting an entry, with the vendor and country already found.\<close>

lemma Stats_Add_counts:
  assumes "counted e" "countable e"
  shows "\<exists>s'. Stats_Add tts e (s, q) = Inr (s', map_put (counter_labels tts e) (map_get q (counter_labels tts e) 0 + 1) q) \<and>
    ls_Count s' = wrap64 (ls_Count s + 1) \<and>
    (\<forall>k. map_option st_Count (map_of (ls_Map s') k) =
      (if k = Stats_Key e then Some (case map_of (ls_Map s) k of None \<Rightarrow> 1 | Some t \<Rightarrow> wrap64 (st_Count t + 1))
       else map_option st_Count (map_of (ls_Map s) k)))"
proof -
  have "\<exists>v. vendorName (qe_Name e) = Inr v" if "is_pool e"
    using assms that vendorName_ok_iff [of "qe_Name e"] by (auto simp: countable_def go_ok_iff)
  then have "\<exists>vendor poolCC. (if is_pool e then go_bind (vendorName (qe_Name e)) (\<lambda>v. Inr (v, fst (getPoolCC (qe_LabelName e))))
      else Inr ([], [])) = Inr (vendor, poolCC) \<and>
      counter_labels tts e = [qe_Origin e, vendor, user_cc e, poolCC, tts (qe_Qtype e)]"
    by (auto simp: counter_labels_def)
  then obtain vendor poolCC where v: "(if is_pool e then go_bind (vendorName (qe_Name e)) (\<lambda>v. Inr (v, fst (getPoolCC (qe_LabelName e))))
      else Inr ([], [])) = Inr (vendor, poolCC)"
    and l: "counter_labels tts e = [qe_Origin e, vendor, user_cc e, poolCC, tts (qe_Qtype e)]" by blast
  show ?thesis
    using assms(1) unfolding Stats_Add_def v l counted_def
    by (cases "map_of (ls_Map s) (Stats_Key e)") (simp_all add: Let_def)
qed

lemma stats_of_step:
  assumes "stats_of tts es (s, q)" "counted e" "countable e" "int (length es) + 1 < 2 ^ 63"
  shows "\<exists>sq'. Stats_Add tts e (s, q) = Inr sq' \<and> stats_of tts (es @ [e]) sq'"
proof -
  from Stats_Add_counts [OF assms(2,3), of tts s q] obtain s' where
    s': "Stats_Add tts e (s, q) = Inr (s', map_put (counter_labels tts e) (map_get q (counter_labels tts e) 0 + 1) q)"
    "ls_Count s' = wrap64 (ls_Count s + 1)"
    "\<And>k. map_option st_Count (map_of (ls_Map s') k) =
      (if k = Stats_Key e then Some (case map_of (ls_Map s) k of None \<Rightarrow> 1 | Some t \<Rightarrow> wrap64 (st_Count t + 1))
       else map_option st_Count (map_of (ls_Map s) k))" by blast
  have w: "wrap64 (int n + 1) = int n + 1" if "n \<le> length es" for n
    using that assms(4) by (intro wrap64_id) (simp add: int64_def)
  have old: "map_option st_Count (map_of (ls_Map s) k) =
      (if tally_by Stats_Key es k = 0 then None else Some (int (tally_by Stats_Key es k)))" for k
    using assms(1) by (simp add: stats_of_def)
  have "map_option st_Count (map_of (ls_Map s') k) =
      (if tally_by Stats_Key (es @ [e]) k = 0 then None else Some (int (tally_by Stats_Key (es @ [e]) k)))" for k
    using old [of k] s'(3) [of k] w [OF tally_le] by (cases "map_of (ls_Map s) k") (auto split: if_splits)
  moreover have "ls_Count s' = int (length (es @ [e]))" using assms(1) s'(2) w by (simp add: stats_of_def)
  moreover have "map_get (map_put (counter_labels tts e) (map_get q (counter_labels tts e) 0 + 1) q) ls 0 =
      tally_by (counter_labels tts) (es @ [e]) ls" for ls
    using assms(1) by (simp add: stats_of_def map_get_def)
  ultimately show ?thesis using s'(1) by (auto simp: stats_of_def)
qed

lemma process_lines_ok:
  assumes "stats_of tts es sq" "int (length es + length lines) < 2 ^ 63"
  shows "if list_all countable (decoded unm e lines)
     then \<exists>sq'. process_lines unm tts lines e sq = Inr (decode_error unm e lines, sq') \<and>
        stats_of tts (es @ filter counted (decoded unm e lines)) sq'
     else process_lines unm tts lines e sq = Inl IndexOutOfRange"
  using assms
proof (induction lines arbitrary: e es sq)
  case (Cons line lines)
  show ?case
  proof (cases "unm line e")
    case (Inr e0)
    let ?e = "e0\<lparr>qe_Name := toLower (qe_Name e0)\<rparr>"
    consider "\<not> countable ?e" | "countable ?e" "\<not> counted ?e" | "countable ?e" "counted ?e" by blast
    then show ?thesis
    proof cases
      case 1
      then show ?thesis by (simp add: Inr Let_def Stats_Add_panics)
    next
      case 2
      with Cons.IH [of es sq ?e] Cons.prems show ?thesis
        by (simp add: Inr Let_def Stats_Add_skips del: split_paired_Ex split: if_split_asm)
    next
      case 3
      obtain s q where sq: "sq = (s, q)" by force
      from stats_of_step [OF Cons.prems(1) [unfolded sq] 3(2,1)] Cons.prems(2) obtain sq'
        where "Stats_Add tts ?e sq = Inr sq'" "stats_of tts (es @ [?e]) sq'" by (auto simp: sq)
      with Cons.IH [of "es @ [?e]" sq' ?e] Cons.prems(2) 3 show ?thesis
        by (simp add: Inr Let_def del: split_paired_Ex split: if_split_asm)
    qed
  qed (use Cons.prems in simp)
qed simp

lemma stats_of_start: "stats_of tts [] (NewStats, [])"
  by (simp add: stats_of_def NewStats_def map_get_def)

lemma decode_error_None: "decode_error unm e lines = None \<longleftrightarrow> length (decoded unm e lines) = length lines"
proof (induction lines arbitrary: e)
  case (Cons line lines)
  then show ?case by (cases "unm line e") (simp_all add: Let_def)
qed simp

lemma decoded_logged:
  assumes "\<And>x old. x \<in> set es \<Longrightarrow> unm (js x) old = Inr x"
  shows "decoded unm e (map js es) = map (\<lambda>x. x\<lparr>qe_Name := toLower (qe_Name x)\<rparr>) es"
  using assms by (induction es arbitrary: e) (simp_all add: Let_def)

definition log_all :: "(query_entry \<Rightarrow> string + string) \<Rightarrow> query_entry list \<Rightarrow> file_logger \<Rightarrow> file_logger" where
  "log_all marshal es l = fold (\<lambda>e l. snd (FileLogger_Write marshal (\<lambda>_ _. None) e l)) es l"

lemma log_all_lines:
  assumes "\<And>x. x \<in> set es \<Longrightarrow> marshal x = Inr (js x)"
  shows "fl_lines (log_all marshal es l) = fl_lines l @ map js es"
  using assms by (induction es arbitrary: l) (auto simp: log_all_def FileLogger_Write_def)

section \<open>Runs of processFile\<close>

text \<open>What is left to process gives, in every state of a run, what the whole file gives.\<close>

definition pending :: "file_sender \<Rightarrow> string list" where
  "pending s = (case s of Sending lines \<Rightarrow> lines | _ \<Rightarrow> [])"

definition run_outcome ::
  "unmarshal \<Rightarrow> (uint16 \<Rightarrow> string) \<Rightarrow> file_run \<Rightarrow> (string option \<times> log_stats \<times> log_counter) go" where
  "run_outcome unm tts c =
     (case fr_receiver c of
        Receiving e sq \<Rightarrow> process_lines unm tts (pending (fr_sender c)) e sq
      | Handling line e sq \<Rightarrow> process_lines unm tts (line # pending (fr_sender c)) e sq
      | Stopped err sq \<Rightarrow> Inr (err, sq)
      | Panicked p \<Rightarrow> Inl p)"

definition file_inv :: "file_run \<Rightarrow> bool" where
  "file_inv c \<longleftrightarrow>
     fr_closed c = (\<forall>lines. fr_sender c \<noteq> Sending lines) \<and>
     fr_wg c = (case fr_receiver c of Stopped None _ \<Rightarrow> 0 | _ \<Rightarrow> 1) \<and>
     (\<forall>sq. fr_receiver c = Stopped None sq \<longrightarrow> fr_closed c) \<and>
     (\<forall>r. fr_sender c = Returned r \<longrightarrow> r = None \<and> (\<exists>sq. fr_receiver c = Stopped None sq))"

lemma handle_line_outcome:
  "run_outcome unm tts (c\<lparr>fr_receiver := handle_line unm tts line e sq\<rparr>) =
     process_lines unm tts (line # pending (fr_sender c)) e sq"
  by (auto simp: run_outcome_def handle_line_def Let_def split: sum.splits)

lemma handle_line_not: "handle_line unm tts line e sq \<noteq> Stopped None sq'"
  by (simp add: handle_line_def Let_def split: sum.split)

lemma file_step_inv:
  assumes "file_step unm tts c c'" "file_inv c"
  shows "file_inv c' \<and> run_outcome unm tts c' = run_outcome unm tts c"
  using assms
proof (cases rule: file_step.cases)
  case (handle line e sq)
  have wg: "(case handle_line unm tts line e sq of Stopped None _ \<Rightarrow> 0 | _ \<Rightarrow> 1) = (1 :: int)"
    by (simp add: handle_line_def Let_def split: sum.split)
  have "run_outcome unm tts c = process_lines unm tts (line # pending (fr_sender c)) e sq"
    by (simp only: run_outcome_def handle(2) file_receiver.case)
  moreover have "file_inv c'" using assms(2) handle wg by (auto simp: file_inv_def handle_line_not)
  ultimately show ?thesis by (simp only: handle(1) handle_line_outcome)
next
  case (send line lines e sq)
  with assms(2) show ?thesis by (simp add: file_inv_def run_outcome_def pending_def del: process_lines.simps)
next
  case close
  with assms(2) have "pending (fr_sender c') = pending (fr_sender c)" "fr_receiver c' = fr_receiver c" by (simp_all add: pending_def)
  then have "run_outcome unm tts c' = run_outcome unm tts c" by (simp only: run_outcome_def)
  moreover have "file_inv c'" using close assms(2) by (auto simp: file_inv_def split: file_receiver.splits option.splits)
  ultimately show ?thesis by blast
next
  case (drain e sq)
  with assms(2) have "pending (fr_sender c) = []" by (auto simp: file_inv_def pending_def split: file_sender.split)
  with drain have "run_outcome unm tts c' = run_outcome unm tts c" by (simp add: run_outcome_def)
  moreover have "file_inv c'" using drain assms(2) by (auto simp: file_inv_def)
  ultimately show ?thesis by blast
next
  case return
  then have "pending (fr_sender c') = pending (fr_sender c)" "fr_receiver c' = fr_receiver c" by (simp_all add: pending_def)
  then have "run_outcome unm tts c' = run_outcome unm tts c" by (simp only: run_outcome_def)
  moreover have "file_inv c'" using return assms(2) by (auto simp: file_inv_def split: file_receiver.splits option.splits)
  ultimately show ?thesis by blast
qed

lemma file_start_inv:
  "file_inv (file_start (Inr lines) q)" "run_outcome unm tts (file_start (Inr lines) q) = processChan unm tts lines q"
  by (simp_all add: file_inv_def run_outcome_def file_start_def pending_def processChan_def)

lemma file_run_inv:
  assumes "(file_step unm tts)\<^sup>*\<^sup>* (file_start (Inr lines) q) c"
  shows "file_inv c \<and> run_outcome unm tts c = processChan unm tts lines q"
  using assms by (induction rule: rtranclp_induct) (auto simp: file_start_inv dest: file_step_inv)

text \<open>Every run ends.\<close>

definition file_measure :: "file_run \<Rightarrow> nat" where
  "file_measure c =
     (case fr_sender c of Sending lines \<Rightarrow> 3 * length lines + 2 | Waiting \<Rightarrow> 1 | Returned _ \<Rightarrow> 0) +
     (case fr_receiver c of Handling _ _ _ \<Rightarrow> 2 | Receiving _ _ \<Rightarrow> 1 | _ \<Rightarrow> 0)"

lemma file_step_less: "file_step unm tts c c' \<Longrightarrow> file_measure c' < file_measure c"
  by (induction rule: file_step.induct)
    (auto simp: file_measure_def handle_line_def Let_def split: sum.splits file_receiver.splits)

lemma file_step_wf: "wfP ((file_step unm tts)\<inverse>\<inverse>)"
  by (rule wfp_if_convertible_to_nat [of _ file_measure]) (simp add: file_step_less)

lemma file_run_ends: "\<exists>c'. (file_step unm tts)\<^sup>*\<^sup>* c c' \<and> file_stuck unm tts c'"
proof (induction "file_measure c" arbitrary: c rule: less_induct)
  case less
  show ?case
  proof (cases "file_stuck unm tts c")
    case False
    then obtain d where d: "file_step unm tts c d" by (auto simp: file_stuck_def)
    from less [OF file_step_less [OF d]] obtain c' where "(file_step unm tts)\<^sup>*\<^sup>* d c'" "file_stuck unm tts c'" by blast
    with d show ?thesis by (meson converse_rtranclp_into_rtranclp)
  qed blast
qed

text \<open>Where a run can stop: returned, panicked, or with the sender blocked because the receiver has gone.\<close>

lemma file_stuck_cases:
  assumes "file_stuck unm tts c" "file_inv c"
  shows "(\<exists>p. fr_receiver c = Panicked p) \<or> (\<exists>sq. fr_receiver c = Stopped None sq \<and> fr_sender c = Returned None) \<or>
    (\<exists>err sq. fr_receiver c = Stopped (Some err) sq \<and> (fr_sender c = Waiting \<or> (\<exists>l ls. fr_sender c = Sending (l # ls))))"
proof -
  have no: "\<not> file_step unm tts c d" for d using assms(1) by (simp add: file_stuck_def)
  have cl: "fr_closed c" if "\<And>lines. fr_sender c \<noteq> Sending lines" using assms(2) that by (simp add: file_inv_def)
  show ?thesis
  proof (cases "fr_receiver c")
    case (Receiving e sq)
    then have "\<not> fr_closed c" using no file_step.drain by blast
    with cl obtain lines where s: "fr_sender c = Sending lines" by blast
    with no file_step.send [OF _ Receiving] have "lines = []" by (cases lines) blast+
    with s no file_step.close [of c unm tts] Receiving show ?thesis by simp
  next
    case (Handling line e sq)
    with no file_step.handle show ?thesis by blast
  next
    case (Stopped err sq)
    have close: "lines \<noteq> []" if "fr_sender c = Sending lines" for lines
      using that no file_step.close [of c unm tts] Stopped by auto
    show ?thesis
    proof (cases err)
      case None
      with assms(2) Stopped have inv: "fr_closed c" "fr_wg c = 0" by (auto simp: file_inv_def)
      then have "fr_sender c \<noteq> Waiting" using no file_step.return [of c unm tts] Stopped by auto
      with inv(1) assms(2) None Stopped show ?thesis by (cases "fr_sender c") (auto simp: file_inv_def)
    next
      case (Some e)
      then have "fr_sender c \<noteq> Returned r" for r using assms(2) Stopped by (auto simp: file_inv_def)
      with close Some Stopped show ?thesis by (cases "fr_sender c") (auto simp: neq_Nil_conv)
    qed
  qed simp
qed

section \<open>Properties\<close>

text \<open>C25. The counting of a query log. The entries the server wrote are the entries counted, each with its name
  in lower case: those with an error code or no answers are skipped, of the others the statistics hold, for
  every key, how many there were, and the exported counter how many had each combination of zone, vendor,
  country, pool label and type. The program panics exactly when one of them is of the pool zone and its name
  begins with an empty label.\<close>

theorem log_counts_queries:
  assumes "\<And>x. x \<in> set es \<Longrightarrow> marshal x = Inr (js x)" "\<And>x old. x \<in> set es \<Longrightarrow> unm (js x) old = Inr x"
    and "int (length es) < 2 ^ 63"
  defines "seen \<equiv> filter counted (map (\<lambda>x. x\<lparr>qe_Name := toLower (qe_Name x)\<rparr>) es)"
  shows "if \<exists>e \<in> set seen. is_pool e \<and> hasPrefix (qe_Name e) ''..pool.ntp.org.''
    then processChan unm tts (fl_lines (log_all marshal es (NewFileLogger f m b))) [] = Inl IndexOutOfRange
    else \<exists>s q. processChan unm tts (fl_lines (log_all marshal es (NewFileLogger f m b))) [] = Inr (None, s, q) \<and>
      ls_Count s = int (length seen) \<and>
      (\<forall>k. map_option st_Count (map_of (ls_Map s) k) =
         (if tally_by Stats_Key seen k = 0 then None else Some (int (tally_by Stats_Key seen k)))) \<and>
      (\<forall>ls. map_get q ls 0 = tally_by (counter_labels tts) seen ls)"
proof -
  let ?es = "map (\<lambda>x. x\<lparr>qe_Name := toLower (qe_Name x)\<rparr>) es"
  have lines: "fl_lines (log_all marshal es (NewFileLogger f m b)) = map js es"
    using log_all_lines [OF assms(1)] by (simp add: NewFileLogger_def)
  have dec: "decoded unm zero_entry (map js es) = ?es" using decoded_logged [OF assms(2)] .
  then have none: "decode_error unm zero_entry (map js es) = None" by (simp add: decode_error_None)
  have all: "list_all countable ?es \<longleftrightarrow> \<not> (\<exists>e \<in> set seen. is_pool e \<and> hasPrefix (qe_Name e) ''..pool.ntp.org.'')"
    by (auto simp: seen_def list_all_iff countable_def)
  have run: "if list_all countable ?es then \<exists>sq. process_lines unm tts (map js es) zero_entry (NewStats, []) = Inr (None, sq) \<and>
      stats_of tts seen sq else process_lines unm tts (map js es) zero_entry (NewStats, []) = Inl IndexOutOfRange"
    using process_lines_ok [OF stats_of_start, of "map js es" unm zero_entry tts] assms(3)
    unfolding dec none by (simp add: seen_def del: split_paired_Ex split: if_split_asm)
  show ?thesis
  proof (cases "list_all countable ?es")
    case True
    with run obtain s q where "process_lines unm tts (map js es) zero_entry (NewStats, []) = Inr (None, s, q)"
      "stats_of tts seen (s, q)" by (metis prod.collapse)
    with True all show ?thesis unfolding lines processChan_def by (simp add: stats_of_def)
  next
    case False
    with run all show ?thesis unfolding lines processChan_def by simp
  qed
qed

definition sample_logged :: query_entry where
  "sample_logged = zero_entry\<lparr>qe_Origin := ''pool.ntp.org'', qe_Name := ''0.DE.pool.ntp.org.'', qe_Qtype := 1, qe_Answers := 4,
     qe_LabelName := ''0.de'', qe_Targets := [''as64500'', ''de'', ''europe'']\<rparr>"

theorem log_counts_queries_witness:
  "\<exists>s q. processChan (\<lambda>_ _. Inr sample_logged) (\<lambda>_. ''A'')
       (fl_lines (log_all (\<lambda>_. Inr ''{}'') [sample_logged, sample_logged\<lparr>qe_Answers := 4\<rparr>] (NewFileLogger ''f'' 1 1))) [] = Inr (None, s, q) \<and>
     map_get q [''pool.ntp.org'', ''_country'', ''de'', ''de'', ''A''] 0 = 2"
proof -
  have same: "sample_logged\<lparr>qe_Answers := 4\<rparr> = sample_logged" by (simp add: sample_logged_def)
  let ?e = "sample_logged\<lparr>qe_Name := toLower (qe_Name sample_logged)\<rparr>"
  have e: "counted ?e" "\<not> hasPrefix (qe_Name ?e) ''..pool.ntp.org.''"
    "counter_labels (\<lambda>_. ''A'') ?e = [''pool.ntp.org'', ''_country'', ''de'', ''de'', ''A'']" by code_simp+
  from log_counts_queries [of "[sample_logged, sample_logged]" "\<lambda>_. Inr ''{}''" "\<lambda>_. ''{}''" "\<lambda>_ _. Inr sample_logged"
      "\<lambda>_. ''A''" "''f''" 1 1] e
  show ?thesis by (auto simp: same tally_by_def)
qed

lemma process_lines_stops:
  "decode_error unm e lines = Some err \<Longrightarrow> process_lines unm tts (lines @ later) e sq = process_lines unm tts lines e sq"
proof (induction lines arbitrary: e sq)
  case (Cons line lines)
  then show ?case by (cases "unm line e") (auto simp: Let_def intro: go_bind_cong)
qed simp

text \<open>C26. A line of the log that cannot be decoded blocks the reader of the file for ever. Every run of \<open>processFile\<close> and the
  goroutine it starts ends, and where it ends depends on the lines alone, not on how the two interleave: in a panic if
  one of the entries decoded cannot be counted; otherwise the counters hold the entries before the first bad line, and
  \<open>processFile\<close> has returned exactly if there is none. With a bad line it is blocked: sending the next line, which no one
  receives, or waiting for a \<open>Done\<close> that no one calls. The command \<open>geodns-logs\<close> does not count a line after a bad one either.\<close>

theorem bad_line_ends_counting:
  fixes unm :: unmarshal and lines :: "string list"
  assumes "int (length lines) < 2 ^ 63"
  defines "es \<equiv> decoded unm zero_entry lines"
  shows "wfP ((file_step unm tts)\<inverse>\<inverse>) \<and>
    (\<forall>c. (file_step unm tts)\<^sup>*\<^sup>* (file_start (Inr lines) []) c \<and> file_stuck unm tts c \<longrightarrow>
      (if \<not> list_all countable es then fr_receiver c = Panicked IndexOutOfRange
       else \<exists>stats q. fr_receiver c = Stopped (decode_error unm zero_entry lines) (stats, q) \<and>
         (\<forall>ls. map_get q ls 0 = tally_by (counter_labels tts) (filter counted es) ls) \<and>
         (if decode_error unm zero_entry lines = None then fr_sender c = Returned None
          else fr_sender c = Waiting \<or> (\<exists>l ls. fr_sender c = Sending (l # ls))))) \<and>
    (decode_error unm zero_entry lines \<noteq> None \<longrightarrow>
      logs_main unm tts identifier hostname args (\<lambda>_. lines @ later) = logs_main unm tts identifier hostname args (\<lambda>_. lines))"
proof (intro conjI allI impI)
  show "wfP ((file_step unm tts)\<inverse>\<inverse>)" by (rule file_step_wf)
next
  fix c assume c: "(file_step unm tts)\<^sup>*\<^sup>* (file_start (Inr lines) []) c \<and> file_stuck unm tts c"
  then have inv: "file_inv c" "run_outcome unm tts c = processChan unm tts lines []" using file_run_inv by blast+
  have run: "if list_all countable es then \<exists>sq. processChan unm tts lines [] = Inr (decode_error unm zero_entry lines, sq) \<and>
      stats_of tts (filter counted es) sq else processChan unm tts lines [] = Inl IndexOutOfRange"
  proof -
    have "int (length ([] :: query_entry list) + length lines) < 2 ^ 63" using assms(1) by simp
    from process_lines_ok [OF stats_of_start [of tts] this, of unm zero_entry, unfolded append_Nil] show ?thesis
      unfolding processChan_def es_def .
  qed
  from file_stuck_cases [OF conjunct2 [OF c] inv(1)] run inv(2)
  show "if \<not> list_all countable es then fr_receiver c = Panicked IndexOutOfRange
       else \<exists>stats q. fr_receiver c = Stopped (decode_error unm zero_entry lines) (stats, q) \<and>
         (\<forall>ls. map_get q ls 0 = tally_by (counter_labels tts) (filter counted es) ls) \<and>
         (if decode_error unm zero_entry lines = None then fr_sender c = Returned None
          else fr_sender c = Waiting \<or> (\<exists>l ls. fr_sender c = Sending (l # ls)))"
    by (auto simp: run_outcome_def stats_of_def split: if_splits)
next
  assume "decode_error unm zero_entry lines \<noteq> None"
  then show "logs_main unm tts identifier hostname args (\<lambda>_. lines @ later) = logs_main unm tts identifier hostname args (\<lambda>_. lines)"
    using process_lines_stops by (auto simp: logs_main_def processChan_def)
qed

theorem bad_line_ends_counting_witness:
  "\<exists>c stats q. (file_step (\<lambda>l _. if l = ''bad'' then Inl ''e'' else Inr sample_logged) (\<lambda>_. ''A''))\<^sup>*\<^sup>*
       (file_start (Inr [''ok'', ''bad'', ''ok'']) []) c \<and> (\<exists>l ls. fr_sender c = Waiting \<or> fr_sender c = Sending (l # ls)) \<and>
     fr_receiver c = Stopped (Some ''e'') (stats, q) \<and> map_get q [''pool.ntp.org'', ''_country'', ''de'', ''de'', ''A''] 0 = 1"
proof -
  let ?unm = "\<lambda>l _. if l = ''bad'' then Inl ''e'' else Inr sample_logged" and ?lines = "[''ok'', ''bad'', ''ok'']"
  let ?e = "sample_logged\<lparr>qe_Name := toLower (qe_Name sample_logged)\<rparr>"
  have e: "counted ?e" "countable ?e" "counter_labels (\<lambda>_. ''A'') ?e = [''pool.ntp.org'', ''_country'', ''de'', ''de'', ''A'']"
    by code_simp+
  have d: "decoded ?unm zero_entry ?lines = [?e]" "decode_error ?unm zero_entry ?lines = Some ''e''" by (simp_all add: Let_def)
  obtain c where c: "(file_step ?unm (\<lambda>_. ''A''))\<^sup>*\<^sup>* (file_start (Inr ?lines) []) c" "file_stuck ?unm (\<lambda>_. ''A'') c"
    using file_run_ends by blast
  have "int (length ?lines) < 2 ^ 63" by simp
  note t = bad_line_ends_counting [OF this, of ?unm "\<lambda>_. ''A''"]
  from conjunct1 [OF conjunct2 [OF t], rule_format, OF conjI [OF c]] e
  show ?thesis using c(1) unfolding d by (auto simp: tally_by_def)
qed

end
