(* ===== verification/DayDuration.thy ===== *)
theory DayDuration
  imports GoStrings "HOL-Library.Word"
begin

text \<open>
  \<open>dayduration.go\<close>: a duration in days, hours, minutes and seconds, written from the back into a buffer of 32
  bytes. A state of the routine is the buffer and the index \<open>w\<close>; a write below index 0 panics. The property
  compares the routine with the text it is meant to give.
\<close>

section \<open>The routine\<close>

type_synonym dd_buf = "string \<times> nat"

text \<open>\<open>w--; buf[w] = c\<close>\<close>

definition put_char :: "char \<Rightarrow> dd_buf \<Rightarrow> dd_buf go" where
  "put_char c b = (case b of (buf, w) \<Rightarrow> if w = 0 then Inl IndexOutOfRange else Inr (buf[w - 1 := c], w - 1))"

fun fmt_loop :: "nat \<Rightarrow> dd_buf \<Rightarrow> dd_buf go" where
  "fmt_loop v b = (if v = 0 then Inr b else go_bind (put_char (digit_char (v mod 10)) b) (fmt_loop (v div 10)))"

declare fmt_loop.simps [simp del]

text \<open>\<open>w = fmtInt(buf[:w], v)\<close>\<close>

definition fmtInt :: "nat \<Rightarrow> dd_buf \<Rightarrow> dd_buf go" where
  "fmtInt v b = (if v = 0 then put_char (CHR ''0'') b else fmt_loop v b)"

text \<open>A separator, a unit and the number before it.\<close>

definition put_unit :: "char \<Rightarrow> nat \<Rightarrow> dd_buf \<Rightarrow> dd_buf go" where
  "put_unit c v b = go_bind (put_char (CHR '' '') b) (\<lambda>b. go_bind (put_char c b) (fmtInt v))"

definition DayString :: "int \<Rightarrow> string go" where
  "DayString ns =
     (let b = (replicate 32 (CHR 0x00), 32);
          u = (word_of_int ns :: 64 word);
          neg = ns < 0;
          u = (if neg then - u else u)
      in go_bind
           (if u < 1000000000 then go_bind (put_char (CHR ''s'') b) (put_char (CHR ''0''))
            else
              go_bind (put_char (CHR ''s'') b) (\<lambda>b.
              let u = u div 1000000000
              in go_bind (fmtInt (unat (u mod 60)) b) (\<lambda>b.
                 let u = u div 60
                 in if 0 < u then
                      go_bind (put_unit (CHR ''m'') (unat (u mod 60)) b) (\<lambda>b.
                      let u = u div 60
                      in go_bind (if 0 < u then put_unit (CHR ''h'') (unat (u mod 24)) b else Inr b) (\<lambda>b.
                         let u = (if 0 < u then u div 24 else u)
                         in if 0 < u then put_unit (CHR ''d'') (unat u) b else Inr b))
                    else Inr b)))
           (\<lambda>b. go_bind (if neg then put_char (CHR ''-'') b else Inr b) (\<lambda>(buf, w). Inr (drop w buf))))"

section \<open>The text\<close>

definition day_text :: "int \<Rightarrow> string" where
  "day_text ns =
     (let s = nat \<bar>ns\<bar> div 1000000000; mi = s div 60; h = mi div 60; d = h div 24
      in (if ns < 0 then ''-'' else []) @ (if 0 < d then utoa d @ ''d '' else []) @
         (if 0 < h then utoa (h mod 24) @ ''h '' else []) @ (if 0 < mi then utoa (mi mod 60) @ ''m '' else []) @
         utoa (s mod 60) @ ''s'')"

section \<open>Lemmas\<close>

text \<open>A buffer whose written part is \<open>t\<close>.\<close>

definition holds :: "string \<Rightarrow> dd_buf \<Rightarrow> bool" where
  "holds t b \<longleftrightarrow> length (fst b) = 32 \<and> snd b + length t = 32 \<and> drop (snd b) (fst b) = t"

lemma put_char_holds: "holds t b \<Longrightarrow> length t < 32 \<Longrightarrow> \<exists>b'. put_char c b = Inr b' \<and> holds (c # t) b'"
  by (cases b) (auto simp: holds_def put_char_def drop_update_swap Cons_nth_drop_Suc [symmetric])

lemma fmt_loop_holds:
  "holds t b \<Longrightarrow> 0 < v \<Longrightarrow> length (utoa v) + length t \<le> 32 \<Longrightarrow> \<exists>b'. fmt_loop v b = Inr b' \<and> holds (utoa v @ t) b'"
proof (induction v arbitrary: t b rule: less_induct)
  case (less v)
  have u: "utoa v = (if v < 10 then [] else utoa (v div 10)) @ [digit_char (v mod 10)]"
    by (subst utoa.simps) simp
  from less.prems(3) u have "length t < 32" by (simp split: if_splits)
  from put_char_holds [OF less.prems(1) this] obtain b1
    where b1: "put_char (digit_char (v mod 10)) b = Inr b1" "holds (digit_char (v mod 10) # t) b1" by blast
  show ?case
  proof (cases "v < 10")
    case True
    with b1 u less.prems(2) show ?thesis by (simp add: fmt_loop.simps [of v] fmt_loop.simps [of 0])
  next
    case False
    then have "0 < v div 10" by (simp add: div_greater_zero_iff)
    with False less.IH [of "v div 10", OF _ b1(2)] less.prems u obtain b'
      where "fmt_loop (v div 10) b1 = Inr b'" "holds (utoa (v div 10) @ digit_char (v mod 10) # t) b'" by auto
    with False b1(1) u show ?thesis by (simp add: fmt_loop.simps [of v])
  qed
qed

lemma utoa_0: "utoa 0 = ''0''"
  by code_simp

lemma fmtInt_holds:
  "holds t b \<Longrightarrow> length (utoa v) + length t \<le> 32 \<Longrightarrow> \<exists>b'. fmtInt v b = Inr b' \<and> holds (utoa v @ t) b'"
  using put_char_holds [of t b "CHR ''0''"] fmt_loop_holds [of t b v] by (cases "v = 0") (auto simp: fmtInt_def utoa_0)

lemma put_unit_holds:
  assumes "holds t b" "length (utoa v) + length t \<le> 30"
  shows "\<exists>b'. put_unit c v b = Inr b' \<and> holds (utoa v @ [c, CHR '' ''] @ t) b'"
proof -
  from put_char_holds [OF assms(1), of "CHR '' ''"] assms(2) obtain b1
    where b1: "put_char (CHR '' '') b = Inr b1" "holds (CHR '' '' # t) b1" by auto
  from put_char_holds [OF b1(2), of c] assms(2) obtain b2 where b2: "put_char c b1 = Inr b2" "holds (c # CHR '' '' # t) b2" by auto
  from fmtInt_holds [OF b2(2), of v] assms(2) b1 b2 show ?thesis by (auto simp: put_unit_def)
qed

lemma length_utoa: "v < 10 ^ Suc k \<Longrightarrow> length (utoa v) \<le> Suc k"
proof (induction k arbitrary: v)
  case 0
  then show ?case by (simp add: utoa.simps [of v])
next
  case (Suc k)
  then have "v div 10 < 10 ^ Suc k" by (simp add: less_mult_imp_div_less)
  with Suc.IH [of "v div 10"] show ?case by (cases "v < 10") (simp_all add: utoa.simps [of v])
qed

lemma length_utoa_small: "v < 100 \<Longrightarrow> length (utoa v) \<le> 2"
  using length_utoa [of v 1] by simp

lemma magnitude:
  assumes "int64 ns"
  shows "unat (if ns < 0 then - word_of_int ns else word_of_int ns :: 64 word) = nat \<bar>ns\<bar>"
proof -
  have "(if ns < 0 then - word_of_int ns else word_of_int ns :: 64 word) = word_of_int \<bar>ns\<bar>" by simp
  also have "unat \<dots> = nat \<bar>ns\<bar>"
  proof -
    have "take_bit 64 \<bar>ns\<bar> = \<bar>ns\<bar>" using assms by (intro take_bit_int_eq_self) (auto simp: int64_def)
    then show ?thesis by (simp add: unat_eq_nat_uint uint_word_of_int_eq)
  qed
  finally show ?thesis .
qed

text \<open>The part between the seconds and the sign, on natural numbers.\<close>

definition upper_units :: "nat \<Rightarrow> dd_buf \<Rightarrow> dd_buf go" where
  "upper_units mi b =
     (if 0 < mi then
        go_bind (put_unit (CHR ''m'') (mi mod 60) b) (\<lambda>b.
        let h = mi div 60
        in go_bind (if 0 < h then put_unit (CHR ''h'') (h mod 24) b else Inr b) (\<lambda>b.
           let d = (if 0 < h then h div 24 else h)
           in if 0 < d then put_unit (CHR ''d'') d b else Inr b))
      else Inr b)"

definition upper_text :: "nat \<Rightarrow> string" where
  "upper_text mi =
     (let h = mi div 60; d = h div 24
      in (if 0 < d then utoa d @ ''d '' else []) @ (if 0 < h then utoa (h mod 24) @ ''h '' else []) @
         (if 0 < mi then utoa (mi mod 60) @ ''m '' else []))"

lemma upper_units_holds:
  assumes "holds t b" "length t \<le> 3" "mi < 160000000"
  shows "\<exists>b'. upper_units mi b = Inr b' \<and> holds (upper_text mi @ t) b' \<and> length (upper_text mi) \<le> 16"
proof -
  have lm: "length (utoa (mi mod 60)) \<le> 2" and lh: "length (utoa (mi div 60 mod 24)) \<le> 2"
    by (simp_all add: length_utoa_small)
  have ld: "length (utoa (mi div 60 div 24)) \<le> 6"
  proof -
    have "mi div (60 * 24) < 1000000" using assms(3) by (intro less_mult_imp_div_less) simp
    then have "mi div 60 div 24 < 10 ^ Suc 5" by (simp add: div_mult2_eq)
    then show ?thesis using length_utoa by fastforce
  qed
  from put_unit_holds [OF assms(1), of "mi mod 60" "CHR ''m''"] lm assms(2) obtain b1
    where b1: "put_unit (CHR ''m'') (mi mod 60) b = Inr b1" "holds (utoa (mi mod 60) @ ''m '' @ t) b1" by auto
  from put_unit_holds [OF b1(2), of "mi div 60 mod 24" "CHR ''h''"] lm lh assms(2) obtain b2
    where b2: "put_unit (CHR ''h'') (mi div 60 mod 24) b1 = Inr b2"
      "holds (utoa (mi div 60 mod 24) @ ''h '' @ utoa (mi mod 60) @ ''m '' @ t) b2" by auto
  from put_unit_holds [OF b2(2), of "mi div 60 div 24" "CHR ''d''"] lm lh ld assms(2) obtain b3
    where b3: "put_unit (CHR ''d'') (mi div 60 div 24) b2 = Inr b3"
      "holds (utoa (mi div 60 div 24) @ ''d '' @ utoa (mi div 60 mod 24) @ ''h '' @ utoa (mi mod 60) @ ''m '' @ t) b3" by auto
  consider "mi = 0" | "0 < mi" "mi div 60 = 0" | "0 < mi" "0 < mi div 60" "mi div 60 div 24 = 0" | "0 < mi" "0 < mi div 60" "0 < mi div 60 div 24"
    by blast
  then show ?thesis
    using assms(1) b1 b2 b3 lm lh ld by cases (simp_all add: upper_units_def upper_text_def Let_def)
qed

lemma DayString_nat:
  assumes "int64 ns"
  shows "DayString ns =
    (let b = (replicate 32 (CHR 0x00), 32); s = nat \<bar>ns\<bar> div 1000000000
     in go_bind
          (if nat \<bar>ns\<bar> < 1000000000 then go_bind (put_char (CHR ''s'') b) (put_char (CHR ''0''))
           else go_bind (put_char (CHR ''s'') b) (\<lambda>b. go_bind (fmtInt (s mod 60) b) (upper_units (s div 60))))
          (\<lambda>b. go_bind (if ns < 0 then put_char (CHR ''-'') b else Inr b) (\<lambda>(buf, w). Inr (drop w buf))))"
proof -
  define u where "u = (if ns < 0 then - word_of_int ns else word_of_int ns :: 64 word)"
  have U: "unat u = nat \<bar>ns\<bar>" unfolding u_def by (rule magnitude [OF assms])
  have lt: "u < 1000000000 \<longleftrightarrow> nat \<bar>ns\<bar> < 1000000000" by (simp add: word_less_nat_alt U)
  have pos: "0 < x \<longleftrightarrow> 0 < unat x" for x :: "64 word" by (simp add: word_less_nat_alt)
  have w: "unat (x div 60) = unat x div 60" "unat (x mod 60) = unat x mod 60" "unat (x div 24) = unat x div 24"
    "unat (x mod 24) = unat x mod 24" "unat (x div 1000000000) = unat x div 1000000000" for x :: "64 word"
    by (simp_all add: unat_div unat_mod)
  have if_unat: "unat (if P then x else y) = (if P then unat x else unat y)" for P and x y :: "64 word" by simp
  show ?thesis
    unfolding DayString_def Let_def u_def [symmetric] unfolding lt upper_units_def Let_def pos w if_unat unfolding U by (rule refl)
qed

text \<open>The text without its sign.\<close>

definition unsigned_text :: "nat \<Rightarrow> string" where
  "unsigned_text n = (let s = n div 1000000000 in upper_text (s div 60) @ utoa (s mod 60) @ ''s'')"

lemma unsigned_holds:
  fixes b :: dd_buf
  assumes "n \<le> 2 ^ 63" "holds [] b"
  defines "s \<equiv> n div 1000000000"
  shows "\<exists>b'. (if n < 1000000000 then go_bind (put_char (CHR ''s'') b) (put_char (CHR ''0''))
      else go_bind (put_char (CHR ''s'') b) (\<lambda>b. go_bind (fmtInt (s mod 60) b) (upper_units (s div 60)))) = Inr b' \<and>
    holds (unsigned_text n) b' \<and> length (unsigned_text n) < 32"
proof -
  from put_char_holds [OF assms(2), of "CHR ''s''"] obtain b1 where b1: "put_char (CHR ''s'') b = Inr b1" "holds ''s'' b1" by auto
  have ls: "length (utoa (s mod 60)) \<le> 2" by (rule length_utoa_small) simp
  from fmtInt_holds [OF b1(2), of "s mod 60"] ls obtain b2
    where b2: "fmtInt (s mod 60) b1 = Inr b2" "holds (utoa (s mod 60) @ ''s'') b2" by auto
  have "n div (1000000000 * 60) < 160000000" using assms(1) by (intro less_mult_imp_div_less) simp
  then have "s div 60 < 160000000" by (simp add: s_def div_mult2_eq)
  from upper_units_holds [OF b2(2) _ this] ls obtain b3 where b3: "upper_units (s div 60) b2 = Inr b3"
    "holds (upper_text (s div 60) @ utoa (s mod 60) @ ''s'') b3" "length (upper_text (s div 60)) \<le> 16" by auto
  from put_char_holds [OF b1(2), of "CHR ''0''"] obtain b0 where b0: "put_char (CHR ''0'') b1 = Inr b0" "holds ''0s'' b0" by auto
  show ?thesis
  proof (cases "n < 1000000000")
    case True
    with b0 b1(1) show ?thesis by (simp add: unsigned_text_def upper_text_def utoa_0)
  next
    case False
    with b1(1) b2(1) b3 ls show ?thesis by (simp add: unsigned_text_def s_def Let_def)
  qed
qed

section \<open>Properties\<close>

text \<open>C27. For every duration an \<open>int64\<close> holds, the least one included, \<open>DayString\<close> stays within its buffer of 32
  bytes and gives the days, hours, minutes and seconds of the duration, without leading units that are zero
  and with a sign.\<close>

theorem day_string_text:
  assumes "int64 ns"
  shows "DayString ns = Inr (day_text ns)"
proof -
  let ?t = "unsigned_text (nat \<bar>ns\<bar>)"
  have whole: "day_text ns = (if ns < 0 then ''-'' else []) @ ?t"
    by (simp add: day_text_def unsigned_text_def upper_text_def Let_def)
  have out: "(case b of (buf, w) \<Rightarrow> Inr (drop w buf)) = (Inr x :: string go)" if "holds x b" for x b
    using that by (cases b) (simp add: holds_def)
  have le: "nat \<bar>ns\<bar> \<le> 2 ^ 63" using assms by (auto simp: int64_def nat_le_iff)
  have "holds [] (replicate 32 (CHR 0x00), 32)" by (simp add: holds_def)
  note part = unsigned_holds [OF le this]
  obtain b where b: "holds ?t b" "length ?t < 32" and run: "DayString ns =
      go_bind (if ns < 0 then put_char (CHR ''-'') b else Inr b) (\<lambda>(buf, w). Inr (drop w buf))"
    unfolding DayString_nat [OF assms] Let_def by (rule exE [OF part]) (auto simp only: go_bind_simps)
  from put_char_holds [OF b, of "CHR ''-''"] obtain b' where b': "put_char (CHR ''-'') b = Inr b'" "holds (CHR ''-'' # ?t) b'" by blast
  show ?thesis using out [OF b(1)] out [OF b'(2)] b'(1) by (simp add: run whole)
qed

theorem day_string_text_witness: "DayString (-9223372036854775808) = Inr ''-106751d 23h 47m 16s''"
proof -
  have "int64 (-9223372036854775808)" by (simp add: int64_def)
  moreover have "day_text (-9223372036854775808) = ''-106751d 23h 47m 16s''"
    by (simp add: day_text_def utoa.simps digit_char_def char_of_def bit_numeral_rec bit_Suc_0_iff)
  ultimately show ?thesis using day_string_text by simp
qed

end
