(* ===== verification/AppLog.thy ===== *)
theory AppLog
  imports Prelude
begin

text \<open>
  \<open>applog/log.go\<close>: the optional log file, its rotation and its end. An open file is a number; the state has the
  files open for the log, the one the standard logger writes to (\<open>None\<close> is the standard error), and the lines
  written to each. \<open>log.Fatalf\<close> is \<open>None\<close>. The monitor is a goroutine: a round of its loop is either the request of
  \<open>FileClose\<close> or a look at the file every five seconds.
\<close>

section \<open>Operations\<close>

record logToFile =
  lf_fn :: string
  lf_file :: "nat option"

record app_log =
  al_Enabled :: bool
  al_ltf :: "logToFile option"
  al_output :: "nat option"
  al_open :: "nat list"
  al_lines :: "(nat option \<times> string) list"

definition newlogToFile :: "string \<Rightarrow> logToFile" where
  "newlogToFile fn = \<lparr>lf_fn = fn, lf_file = None\<rparr>"

text \<open>\<open>log.Printf\<close> of the standard logger.\<close>

definition log_line :: "string \<Rightarrow> app_log \<Rightarrow> app_log" where
  "log_line s l = l\<lparr>al_lines := al_lines l @ [(al_output l, s)]\<rparr>"

definition applog_Printf :: "string \<Rightarrow> app_log \<Rightarrow> app_log" where
  "applog_Printf s l = (if al_Enabled l then log_line s l else l)"

definition close_file :: "nat \<Rightarrow> app_log \<Rightarrow> app_log" where
  "close_file h l = l\<lparr>al_open := removeAll h (al_open l)\<rparr>"

text \<open>The result of \<open>os.OpenFile\<close> is an error or a new number.\<close>

definition FileOpen :: "string \<Rightarrow> (string + nat) \<Rightarrow> app_log \<Rightarrow> app_log option" where
  "FileOpen fn opened l =
     (case opened of
        Inl err \<Rightarrow> None
      | Inr h \<Rightarrow>
          Some (log_line ''Opening log file''
            (l\<lparr>al_ltf := Some ((newlogToFile fn)\<lparr>lf_file := Some h\<rparr>), al_open := h # al_open l, al_output := Some h\<rparr>)))"

text \<open>\<open>stat\<close> is the size of the file, \<open>None\<close> when there is none.\<close>

definition monitor_look :: "nat option \<Rightarrow> (string + nat) \<Rightarrow> app_log \<Rightarrow> app_log" where
  "monitor_look stat opened l =
     (case al_ltf l of
        None \<Rightarrow> l
      | Some ltf \<Rightarrow>
          if stat = None \<or> stat = Some 0 then
            case opened of
              Inl err \<Rightarrow> log_line (''Could not open new log file: '' @ err) l
            | Inr h \<Rightarrow>
                let l = log_line ''Rotating log file'' (l\<lparr>al_output := Some h, al_open := h # al_open l\<rparr>);
                    l = (case lf_file ltf of Some old \<Rightarrow> close_file old l | None \<Rightarrow> l)
                in l\<lparr>al_ltf := Some (ltf\<lparr>lf_file := Some h\<rparr>)\<rparr>
          else l)"

definition monitor_close :: "app_log \<Rightarrow> app_log" where
  "monitor_close l =
     (case al_ltf l of
        Some ltf \<Rightarrow>
          (case lf_file ltf of
             Some h \<Rightarrow> (close_file h (l\<lparr>al_output := None\<rparr>))\<lparr>al_ltf := Some (ltf\<lparr>lf_file := None\<rparr>)\<rparr>
           | None \<Rightarrow> l)
      | None \<Rightarrow> l)"

definition FileClose :: "app_log \<Rightarrow> app_log" where
  "FileClose l =
     (if al_ltf l \<noteq> None then (monitor_close (log_line ''Closing log file'' l))\<lparr>al_ltf := None\<rparr> else l)"

section \<open>The life of the log\<close>

text \<open>The main program opens the file once; then it prints, the monitor looks, and in the end the file is closed.\<close>

inductive log_reach :: "app_log \<Rightarrow> bool" where
  log_start: "log_reach \<lparr>al_Enabled = e, al_ltf = None, al_output = None, al_open = [], al_lines = []\<rparr>"
| log_open: "log_reach l \<Longrightarrow> al_ltf l = None \<Longrightarrow> FileOpen fn (Inr h) l = Some l' \<Longrightarrow> log_reach l'"
| log_print: "log_reach l \<Longrightarrow> log_reach (applog_Printf s l)"
| log_look: "log_reach l \<Longrightarrow> (\<And>h. opened = Inr h \<Longrightarrow> h \<notin> set (al_open l)) \<Longrightarrow> log_reach (monitor_look stat opened l)"
| log_close: "log_reach l \<Longrightarrow> log_reach (FileClose l)"

text \<open>The log goes to the one file that is open for it, or to the standard error when there is none.\<close>

definition log_ok :: "app_log \<Rightarrow> bool" where
  "log_ok l \<longleftrightarrow> (case al_ltf l of
      None \<Rightarrow> al_output l = None \<and> al_open l = []
    | Some ltf \<Rightarrow> \<exists>h. lf_file ltf = Some h \<and> al_output l = Some h \<and> al_open l = [h])"

lemma log_line_simps [simp]:
  "al_ltf (log_line s l) = al_ltf l" "al_output (log_line s l) = al_output l" "al_open (log_line s l) = al_open l"
  by (simp_all add: log_line_def)

lemma log_ok_line [simp]: "log_ok (log_line s l) = log_ok l"
  by (simp add: log_ok_def split: option.split)

lemma log_reach_ok: "log_reach l \<Longrightarrow> log_ok l"
proof (induction rule: log_reach.induct)
  case (log_open l fn h l')
  then show ?case by (auto simp: FileOpen_def log_ok_def)
next
  case (log_print l s)
  then show ?case by (simp add: applog_Printf_def)
next
  case (log_look l opened stat)
  then show ?case
    by (cases opened) (auto simp: monitor_look_def log_ok_def close_file_def Let_def split: option.splits)
next
  case (log_close l)
  then show ?case by (auto simp: FileClose_def monitor_close_def log_ok_def close_file_def split: option.splits)
qed (simp add: log_ok_def)

end
