(* ===== verification/Spec2Isabelle.thy ===== *)
theory Spec2Isabelle
  imports ZoneAnswers Startup HealthTesters LogStats DayDuration AppLog
begin

text \<open>
  GeoDNS (\<open>src/\<close>) is an authoritative DNS server that answers a question from the labels of a zone that
  fit the location of the client.

  \<^bold>\<open>The program and how its parts interact.\<close> A zone manager (\<open>zones/muxmanager.go\<close>) watches a directory of
  JSON files. It reads each new or changed file into a zone (\<open>zones/reader.go\<close>, \<open>zones/zone.go\<close>), sets up its
  statistics rings (\<open>zones/zone_stats.go\<close>) and its health tests, and registers it with the server
  (\<open>server/server.go\<close>), whose multiplexer is that of the vendored library \<open>miekg/dns\<close>. A query goes
  through the multiplexer to the handler of a zone (\<open>server/serve.go\<close>): the handler cuts the label out of the
  question, counts it, computes the targets of the client (\<open>targeting/\<close>), searches the labels of the zone
  for them (\<open>FindLabels\<close>), picks records (\<open>zones/picker.go\<close>, asking the registry of \<open>health/\<close> for their
  status), and writes a reply. The location of a client comes from MaxMind databases (\<open>targeting/geoip2\<close>). The main
  program (\<open>geodns.go\<close>) reads the configuration (\<open>config.go\<close>), finds the addresses to listen on (\<open>util.go\<close>), and starts
  the server, the manager and an HTTP monitor (\<open>http.go\<close>). The server logs queries (\<open>querylog/\<close>), and the
  command \<open>geodns-logs\<close> counts them. \<open>health/healthtest\<close> is a runner of active health tests that no other package calls.

  \<^bold>\<open>Theories.\<close>
  \<^item> \<open>Prelude\<close>: Go panics as a sum type (\<open>go\<close>, \<open>go_bind\<close>, \<open>go_fold\<close>, \<open>go_map\<close>), Go maps as association lists,
    64-bit wrap-around, and the lemmas on them that all proofs share.
  \<^item> \<open>GoStrings\<close>, \<open>NetIP\<close>, \<open>GoSort\<close>: what the program uses of the packages \<open>strings\<close>, \<open>strconv\<close>, \<open>path\<close>, \<open>net\<close>
    and \<open>sort\<close>. \<open>sort.Sort\<close> is any function with the laws of the locale \<open>go_sort\<close>; insertion sort interprets it.
  \<^item> \<open>DnsNames\<close>, \<open>DnsMsg\<close>: names, records, messages and the multiplexer of \<open>miekg/dns\<close>, and that its offset-based
    scanners compute the list of labels of a name.
  \<^item> \<open>TypeUtil\<close> (\<open>typeutil/typeutil.go\<close>), \<open>Countries\<close> (\<open>countries/\<close>).
  \<^item> \<open>ZoneStats\<close> (\<open>zones/zone_stats.go\<close>): the ring holds the last labels added, the top list neither loses nor
    invents counts, a closed ring panics.
  \<^item> \<open>Targeting\<close> (\<open>targeting/targeting.go\<close>, \<open>targeting/geo/geo.go\<close>): options and their text form are inverse to
    each other, the order of the targets, the address that is overwritten.
  \<^item> \<open>Health\<close> (\<open>health/status.go\<close>, \<open>status_file.go\<close>, \<open>health.go\<close>): the loop of reloads keeps the registry in step with the directory.
  \<^item> \<open>Zone\<close> (\<open>zones/zone.go\<close>) with \<open>ZoneLookup\<close>: the search for labels returns exactly when no cycle of aliases is
    reachable; it is sound, complete, and equal to a reference definition when there are no aliases.
  \<^item> \<open>Picker\<close> (\<open>zones/picker.go\<close>): the records picked, the closest servers, the frequencies of the weighted choice.
  \<^item> \<open>Reader\<close> (\<open>zones/reader.go\<close>) with \<open>ReaderInv\<close> (zones that were read are well formed) and \<open>ReaderOptions\<close> (their
    options, their identity, the record that rejects a zone).
  \<^item> \<open>MuxManager\<close> (\<open>zones/muxmanager.go\<close>): the manager over the registration interface (locales \<open>registration_total\<close>
    and \<open>registration\<close>), its invariant, the specification of a reload, the states \<open>managed\<close> after whole reloads and the
    states \<open>moment\<close> between the steps of one, among them that of a zone with closed rings and its handler still registered.
  \<^item> \<open>Server\<close> (\<open>server/server.go\<close>): the server as an implementation of the interface (interpretation \<open>srv\<close>) and the
    properties of the manager on it.
  \<^item> \<open>Serve\<close> (\<open>server/serve.go\<close>) with \<open>ServeSafe\<close>: the handler and the proof that it answers.
  \<^item> \<open>ZoneAnswers\<close>: a zone that reads can be served, which joins the reader to the handler.
  \<^item> \<open>GeoIP\<close> (\<open>targeting/geoip2/geoip2.go\<close>): the provider that opens its databases on first use answers what they answer;
    what happens to location targeting with and without a city database.
  \<^item> \<open>Config\<close> (\<open>config.go\<close>), \<open>Interfaces\<close> (\<open>util.go\<close>), \<open>HttpMonitor\<close> (\<open>http.go\<close>), \<open>AppLog\<close> (\<open>applog/log.go\<close>),
    \<open>DayDuration\<close> (\<open>dayduration.go\<close>): the configuration in use is the last good one; which addresses are listened on; the
    monitor is behind its password; the log goes to one open file; the buffer routine equals its text.
  \<^item> \<open>Startup\<close> (\<open>geodns.go\<close>): the main program serves the zone files that read; the verdict of \<open>-checkconfig\<close>. What the
    manager leaves alone of its server is the locale \<open>registration_frame\<close> (interpretation \<open>frame\<close>).
  \<^item> \<open>HealthTest\<close>, \<open>HealthTesters\<close> (\<open>health/healthtest/\<close>): the polling loop as a step function over events, the runner as a
    refinement of reference counting, the six testers, their construction from JSON, and the goroutine of a test that polls them.
  \<^item> \<open>LogStats\<close> (\<open>querylog/querylog.go\<close>, \<open>geodns-logs/\<close>): what the server logged is what is counted; \<open>processFile\<close> and the
    goroutine that counts are a step relation \<open>file_step\<close> over their channel and wait group, with every interleaving and where it ends.
  \<^item> This theory: the properties of the server as a whole, which rest on all of the above.

  \<^bold>\<open>State.\<close> Structs are records with the fields of the source under a prefix (\<open>z_Labels\<close> for \<open>Zone.Labels\<close>). Zones are
  values, since nothing changes a zone once it is registered; the statistics rings, which a reloaded zone shares with
  the zone it replaces and which are closed when a zone is removed, live in a store that zones point into. A record
  slot of a label may be nil only while a zone is read, so the type of the slots is a parameter of a label.

  \<^bold>\<open>Errors.\<close> A panic is \<open>Inl\<close> of \<open>go_panic\<close>, an error value is a value. \<open>ReadZoneFile\<close> recovers panics; the query handler
  does not, so there a panic ends the process. A result \<open>None\<close> of \<open>Picker\<close> and of the handler is a call that does
  not return.

  \<^bold>\<open>Bounds and fuel.\<close> \<open>FindLabels\<close> recurses along aliases as deep as the zone says, so it takes the depth of the
  stack; theorems say that some depth is enough, and that every larger one gives the same result, or that no depth
  is. \<open>choose_loop\<close> in \<open>Picker\<close> is a partial function, and is shown to return when distances are at most
  \<open>MAX_DISTANCE\<close>. Every other loop is total. Integers wrap at 64 bits where weights are added; record types, TTLs
  and bytes are words; coordinates are rationals.

  \<^bold>\<open>Parameters.\<close> Decoding of JSON text, the zone-file parser \<open>dns.NewRR\<close>, the text of floating-point numbers, SHA-256,
  the angle between two points, random numbers, the clock, the host name, the file system, the readers of the GeoIP
  databases, the parser of the configuration, the events of \<open>fsnotify\<close>, and for health tests the network, the programs
  run and the services asked. The geo provider is a parameter of targeting and of the handler; \<open>geo_view\<close> in \<open>GeoIP\<close> is the
  one the program uses, in the state its databases are in. The hypotheses are \<open>go_sort\<close>, \<open>geo_total\<close> (a provider does not panic; \<open>geo_view_total\<close> shows it of this one once its
  databases are open), \<open>registry_total\<close> (a health lookup does not panic; \<open>DirectoryReader_total\<close> shows it
  while no status file has a null status), the bound on distances,
  and for the query log that decoding an encoded entry gives it back.

  \<^bold>\<open>Not modelled.\<close> Sockets; goroutines other than through the order of their steps (\<open>managed\<close>, \<open>moment\<close>, \<open>run_step\<close>,
  \<open>log_reach\<close>, \<open>file_step\<close>, \<open>watch_step\<close>); the mutexes, so a call is one step, other than a reload and \<open>processFile\<close>: the handler
  of a query does not interleave with a step of the manager; log messages; metrics other than the query
  counters; of \<open>geodns.go\<close> the profiling flags, \<open>-cpus\<close>, \<open>-log\<close>, \<open>-logfile\<close> and the wait for a signal; \<open>Summarize\<close> of
  \<open>geodns-logs\<close>, which only prints; \<open>templates_devel.go\<close>, which is a build flag; vendored libraries other than what is
  named above.
\<close>

section \<open>The server as a whole\<close>

text \<open>C1. Between any two steps of the life of the manager, a query that the server routes to one of the registered zones is
  answered, except a query of type ANY (it can panic), a query of type A in a zone that parses addresses from names
  (its reply is not authoritative), and a query for the zone whose rings the manager has just closed in order to remove it.
  The zone must be servable and the geo provider must not panic. Then with enough stack the handler returns without a panic, writes exactly one reply (followed by a server failure if it cannot be written), and the reply is
  authoritative, to the question, and has answers, the SOA record, or a name error with the SOA record.\<close>

theorem server_answers:
  assumes "moment ext server_api (NewServer si) ph mm" and "sv_mux (ss_srv st) = sv_mux (mm_reg mm)" and "ss_store st = mm_store mm"
    and "Question req = q # qs" and "mux_match (sv_mux (ss_srv st)) (Qname q) (Qtype q) = Some z"
    and "zone_servable env z" and "geo_total (se_geo env)" and "Qtype q \<noteq> TypeANY" and "\<not> (Qtype q = TypeA \<and> z_ParseIP z)"
    and "closing ph \<noteq> Some (z_Origin z)"
  shows "\<exists>d. \<forall>stack \<ge> d. \<exists>st' m. ServeDNS (env\<lparr>se_stack := stack\<rparr>) w req st = Some (Inr st') \<and>
    replied w req st st' m \<and> reply_ok z req q m"
  using ServeDNS_ok [OF assms, of w] by blast

text \<open>C2. For the queries of C1, with the same exceptions, the question is cut at the zone: it is the labels \<open>pre\<close> followed by the
  name of the zone. A name the zone has no label for, under any target, gets a name error unless it is one of the debug
  names such as \<open>_status\<close>; a name with a label gets a success, and every record of the answer is a record of the zone renamed
  to the question.\<close>

theorem server_names:
  assumes "moment ext server_api (NewServer si) ph mm" and "sv_mux (ss_srv st) = sv_mux (mm_reg mm)" and "ss_store st = mm_store mm"
    and "Question req = q # qs" and "mux_match (sv_mux (ss_srv st)) (Qname q) (Qtype q) = Some z"
    and "zone_servable env z" and "geo_total (se_geo env)" and "Qtype q \<noteq> TypeANY" and "\<not> (Qtype q = TypeA \<and> z_ParseIP z)"
    and "closing ph \<noteq> Some (z_Origin z)"
  shows "\<exists>pre d. toLower (Qname q) = dots pre @ Fqdn (z_Origin z) \<and>
    (\<forall>stack \<ge> d. \<exists>st' m. ServeDNS (env\<lparr>se_stack := stack\<rparr>) w req st = Some (Inr st') \<and> replied w req st st' m \<and>
      ((\<forall>g. map_of (z_Labels z) (target_name (join ''.'' pre) g) = None) \<longrightarrow> \<not> debug_name (join ''.'' pre) \<longrightarrow>
         Rcode m = RcodeNameError) \<and>
      (map_of (z_Labels z) (join ''.'' pre) \<noteq> None \<longrightarrow>
         Rcode m = RcodeSuccess \<and> set (Answer m) \<subseteq> (\<lambda>r. set_name (Qname q) (rec_RR r)) ` zone_records z))"
  using ServeDNS_ok [OF assms, of w, unfolded code_ok_def] by blast

lemma sample_geo_total: "geo_total (se_geo sample_env)"
  by (simp add: geo_total_def sample_env_def sample_provider_def)

theorem server_answers_witness:
  "\<exists>mm z d. managed sample_ext server_api (NewServer sample_info) mm \<and> map_of (Zones mm) ''example.com'' = Some z \<and>
     (\<forall>stack \<ge> d. \<exists>st' m. ServeDNS (sample_env\<lparr>se_stack := stack\<rparr>) sample_writer (sample_query ''example.com.'' TypeNS)
       (sample_state (mm_reg mm) (mm_store mm)) = Some (Inr st') \<and> ss_written st' = [m] \<and> Response m \<and> Authoritative m)"
proof (rule plain_served)
  fix mm z assume s: "managed sample_ext server_api (NewServer sample_info) mm" "map_of (Zones mm) ''example.com'' = Some z"
    "zone_servable sample_env z" "\<And>t. t \<noteq> TypeDS \<Longrightarrow> mux_match (sv_mux (mm_reg mm)) ''example.com.'' t = Some z"
  have "\<exists>d. \<forall>stack \<ge> d. \<exists>st' m. ServeDNS (sample_env\<lparr>se_stack := stack\<rparr>) sample_writer (sample_query ''example.com.'' TypeNS)
      (sample_state (mm_reg mm) (mm_store mm)) = Some (Inr st') \<and>
    replied sample_writer (sample_query ''example.com.'' TypeNS) (sample_state (mm_reg mm) (mm_store mm)) st' m \<and>
    reply_ok z (sample_query ''example.com.'' TypeNS) \<lparr>Qname = ''example.com.'', Qtype = TypeNS, Qclass = ClassINET\<rparr> m"
    by (rule server_answers [OF managed_moment [OF s(1)]])
      (simp_all add: closing_def sample_state_def sample_query_def s(3,4) sample_geo_total rrtype_defs)
  with s(1,2) show ?thesis
    by (auto simp: replied_def reply_ok_def sample_writer_def sample_state_def) blast
qed

theorem server_names_witness:
  "\<exists>mm z d. managed sample_ext server_api (NewServer sample_info) mm \<and> map_of (Zones mm) ''example.com'' = Some z \<and>
     (\<forall>stack \<ge> d. \<exists>st' m. ServeDNS (sample_env\<lparr>se_stack := stack\<rparr>) sample_writer (sample_query ''example.com.'' TypeNS)
       (sample_state (mm_reg mm) (mm_store mm)) = Some (Inr st') \<and> ss_written st' = [m] \<and> Rcode m = RcodeSuccess)"
proof (rule plain_served)
  fix mm z assume s: "managed sample_ext server_api (NewServer sample_info) mm" "map_of (Zones mm) ''example.com'' = Some z"
    "zone_servable sample_env z" "map_of (z_Labels z) [] \<noteq> None" "z_Origin z = ''example.com''"
    "\<And>t. t \<noteq> TypeDS \<Longrightarrow> mux_match (sv_mux (mm_reg mm)) ''example.com.'' t = Some z"
  let ?q = "\<lparr>Qname = ''example.com.'', Qtype = TypeNS, Qclass = ClassINET\<rparr>"
  let ?st = "sample_state (mm_reg mm) (mm_store mm)"
  have "\<exists>pre d. toLower (Qname ?q) = dots pre @ Fqdn (z_Origin z) \<and>
    (\<forall>stack \<ge> d. \<exists>st' m. ServeDNS (sample_env\<lparr>se_stack := stack\<rparr>) sample_writer (sample_query ''example.com.'' TypeNS) ?st = Some (Inr st') \<and>
      replied sample_writer (sample_query ''example.com.'' TypeNS) ?st st' m \<and>
      ((\<forall>g. map_of (z_Labels z) (target_name (join ''.'' pre) g) = None) \<longrightarrow> \<not> debug_name (join ''.'' pre) \<longrightarrow> Rcode m = RcodeNameError) \<and>
      (map_of (z_Labels z) (join ''.'' pre) \<noteq> None \<longrightarrow>
         Rcode m = RcodeSuccess \<and> set (Answer m) \<subseteq> (\<lambda>r. set_name (Qname ?q) (rec_RR r)) ` zone_records z))"
    by (rule server_names [OF managed_moment [OF s(1)]])
      (simp_all add: closing_def sample_state_def sample_query_def s(3,6) sample_geo_total rrtype_defs)
  then obtain pre d where pre: "toLower ''example.com.'' = dots pre @ Fqdn ''example.com''"
    and d: "\<forall>stack \<ge> d. \<exists>st' m. ServeDNS (sample_env\<lparr>se_stack := stack\<rparr>) sample_writer (sample_query ''example.com.'' TypeNS) ?st = Some (Inr st') \<and>
      replied sample_writer (sample_query ''example.com.'' TypeNS) ?st st' m \<and> (map_of (z_Labels z) (join ''.'' pre) \<noteq> None \<longrightarrow> Rcode m = RcodeSuccess)"
    unfolding s(5) question.simps by blast
  have "toLower ''example.com.'' = ''example.com.''" "Fqdn ''example.com'' = ''example.com.''" by code_simp+
  with pre have "pre = []" by (cases pre) (simp_all add: dots_def)
  with d s(4) have "\<forall>stack \<ge> d. \<exists>st' m. ServeDNS (sample_env\<lparr>se_stack := stack\<rparr>) sample_writer (sample_query ''example.com.'' TypeNS) ?st = Some (Inr st') \<and>
      ss_written st' = [m] \<and> Rcode m = RcodeSuccess"
    by (simp add: replied_def sample_writer_def) (simp add: sample_state_def, blast)
  with s(1,2) show ?thesis by blast
qed

section \<open>From a zone file to answers\<close>

text \<open>C3. A zone file that is new or changed and reads without an error is served after the next reload, and from then on
  every query that the multiplexer gives its zone is answered as above, except again queries of type ANY and queries of type A
  in a zone that parses addresses from names. What the reader does not check is assumed of the
  zone: hosts and weights are not negative and their sum is below \<open>2 ^ 63 - 1\<close>, an alias is not an empty list, and there is no
  cycle of aliases. No status file has a null status (a lookup would panic), and angles are at most \<open>MAX_DISTANCE\<close>.\<close>

theorem zone_file_answered:
  assumes "managed ext server_api (NewServer si) mm" and "listing_ok dir" and "f \<in> set dir" and "\<not> skip_file f"
    and "case map_of (mm_lastRead mm) (base_name f) of None \<Rightarrow> True | Some r \<Rightarrow> zr_time r < fi_ModTime f"
    and "(case map_of (mm_lastRead mm) (base_name f) of None \<Rightarrow> [] | Some r \<Rightarrow> zr_hash r) \<noteq>
      sha256File ext fs (path_Join (mm_path mm) (fi_Name f))"
    and "ReadZoneFile (ext_fmtFloat ext) (ext_sort ext) (ext_newRR ext) (ext_geo ext)
      (fs_zone fs (path_Join (mm_path mm) (fi_Name f))) (NewZone (base_name f)) = Inr z"
    and "go_sort records_less (ext_sort ext)" and "file_ok (fs_zone fs (path_Join (mm_path mm) (fi_Name f)))"
    and "zone_limits z" and "\<forall>ts s. \<not> reaches_cycle (alias_edges z ts) s"
    and "registry_total (se_health env)" and "\<forall>a b. \<bar>se_angle env a b\<bar> \<le> MAX_DISTANCE" and "geo_total (se_geo env)"
  shows "\<exists>mm' err z'. reload ext server_api fs (Inr dir) mm = Inr (mm', err) \<and>
    map_of (sv_mux (mm_reg mm')) (Fqdn (base_name f)) = Some z' \<and>
    (\<forall>w req q qs st. sv_mux (ss_srv st) = sv_mux (mm_reg mm') \<and> ss_store st = mm_store mm' \<and> Question req = q # qs \<and>
       mux_match (sv_mux (ss_srv st)) (Qname q) (Qtype q) = Some z' \<and> Qtype q \<noteq> TypeANY \<and> \<not> (Qtype q = TypeA \<and> z_ParseIP z) \<longrightarrow>
       (\<exists>d. \<forall>stack \<ge> d. \<exists>st' m. ServeDNS (env\<lparr>se_stack := stack\<rparr>) w req st = Some (Inr st') \<and>
          replied w req st st' m \<and> reply_ok z' req q m))"
proof -
  from reload_new_zone [OF assms(1-7)] obtain mm' err z' where r: "reload ext server_api fs (Inr dir) mm = Inr (mm', err)"
    and m: "managed ext server_api (NewServer si) mm'" and z': "map_of (sv_mux (mm_reg mm')) (Fqdn (base_name f)) = Some z'"
    "unmetered z' = setupHealthTests z" by blast
  from ReadZoneFile_ok [OF assms(7-9)] obtain soa where "zone_ok z" "SoaRR z = Inr soa" by blast
  from read_zone_servable [OF this assms(10-13) z'(2)] have s: "zone_servable env z'" .
  have p: "z_ParseIP z' = z_ParseIP z"
    using arg_cong [OF z'(2), of z_ParseIP] by (simp add: unmetered_def setupHealthTests_def)
  have idle: "closing Idle \<noteq> Some (z_Origin z')" by (simp add: closing_def)
  have "\<exists>d. \<forall>stack \<ge> d. \<exists>st' m. ServeDNS (env\<lparr>se_stack := stack\<rparr>) w req st = Some (Inr st') \<and>
      replied w req st st' m \<and> reply_ok z' req q m"
    if "sv_mux (ss_srv st) = sv_mux (mm_reg mm')" "ss_store st = mm_store mm'" "Question req = q # qs"
      "mux_match (sv_mux (ss_srv st)) (Qname q) (Qtype q) = Some z'" "Qtype q \<noteq> TypeANY" "\<not> (Qtype q = TypeA \<and> z_ParseIP z)"
    for w req q qs st
    using ServeDNS_ok [OF managed_moment [OF m] that(1-4) s assms(14) that(5) that(6) [folded p] idle, of w] by blast
  with r z'(1) show ?thesis by blast
qed

lemma plain_file_read:
  "\<exists>z. ReadZoneFile (ext_fmtFloat sample_ext) (ext_sort sample_ext) (ext_newRR sample_ext) (ext_geo sample_ext)
     plain_file (NewZone ''example.com'') = Inr z \<and> zone_limits z \<and> \<not> z_ParseIP z \<and>
     list_all (\<lambda>(k, l). map_of (lb_Records l) TypeMF = None) (z_Labels z)"
proof -
  let ?read = "ReadZoneFile (ext_fmtFloat sample_ext) (ext_sort sample_ext) (ext_newRR sample_ext) (ext_geo sample_ext)
     plain_file (NewZone ''example.com'')"
  have "(case ?read of Inl _ \<Rightarrow> False | Inr z \<Rightarrow> zone_limits z \<and> \<not> z_ParseIP z \<and>
     list_all (\<lambda>(k, l). map_of (lb_Records l) TypeMF = None) (z_Labels z))" by code_simp
  then show ?thesis by (cases ?read) auto
qed

theorem zone_file_answered_witness:
  "\<exists>mm mm' err z'. managed sample_ext server_api (NewServer sample_info) mm \<and>
     reload sample_ext server_api (sample_zones ''v2'' plain_file) (Inr (sample_listing 6)) mm = Inr (mm', err) \<and>
     map_of (sv_mux (mm_reg mm')) ''example.com.'' = Some z' \<and>
     (\<exists>d. \<forall>stack \<ge> d. \<exists>st' m. ServeDNS (sample_env\<lparr>se_stack := stack\<rparr>) sample_writer (sample_query ''example.com.'' TypeNS)
       (sample_state (mm_reg mm') (mm_store mm')) = Some (Inr st') \<and> ss_written st' = [m] \<and> Authoritative m)"
proof (rule sample_served)
  fix mm z0 assume mm: "managed sample_ext server_api (NewServer sample_info) mm"
    "map_of (mm_lastRead mm) ''example.com'' = Some \<lparr>zr_time = 5, zr_hash = ''xv1''\<rparr>"
  from plain_file_read obtain z where z: "ReadZoneFile (ext_fmtFloat sample_ext) (ext_sort sample_ext) (ext_newRR sample_ext)
     (ext_geo sample_ext) plain_file (NewZone ''example.com'') = Inr z" "zone_limits z" "\<not> z_ParseIP z"
     "list_all (\<lambda>(k, l). map_of (lb_Records l) TypeMF = None) (z_Labels z)" by blast
  let ?req = "sample_query ''example.com.'' TypeNS" and ?q = "\<lparr>Qname = ''example.com.'', Qtype = TypeNS, Qclass = ClassINET\<rparr>"
  have F: "Fqdn ''example.com'' = ''example.com.''" by code_simp
  have b: "base_name (sample_listing 6 ! 0) = ''example.com''" by (simp add: sample_listing_ok(4))
  have "\<exists>mm' err z'. reload sample_ext server_api (sample_zones ''v2'' plain_file) (Inr (sample_listing 6)) mm = Inr (mm', err) \<and>
    map_of (sv_mux (mm_reg mm')) (Fqdn (base_name (sample_listing 6 ! 0))) = Some z' \<and>
    (\<forall>w req q qs st. sv_mux (ss_srv st) = sv_mux (mm_reg mm') \<and> ss_store st = mm_store mm' \<and> Question req = q # qs \<and>
       mux_match (sv_mux (ss_srv st)) (Qname q) (Qtype q) = Some z' \<and> Qtype q \<noteq> TypeANY \<and> \<not> (Qtype q = TypeA \<and> z_ParseIP z) \<longrightarrow>
       (\<exists>d. \<forall>stack \<ge> d. \<exists>st' m. ServeDNS (sample_env\<lparr>se_stack := stack\<rparr>) w req st = Some (Inr st') \<and>
          replied w req st st' m \<and> reply_ok z' req q m))"
    using no_alias_cycle [OF z(4)]
    by (intro zone_file_answered [OF mm(1) sample_listing_ok(2)])
      (simp_all add: sample_listing_ok mm(2) z(1,2) sample_zones_def sha256File_def sample_geo_total,
       simp_all add: sample_listing_def sample_ext_def weight_sort_ok sample_env_def MAX_DISTANCE_def
         registry_total_def GetStatus_def file_ok_def plain_file_def data_ok_def Let_def)
  then obtain mm' err z' where r: "reload sample_ext server_api (sample_zones ''v2'' plain_file) (Inr (sample_listing 6)) mm = Inr (mm', err)"
    and m: "map_of (sv_mux (mm_reg mm')) ''example.com.'' = Some z'"
    and a: "\<And>w req q qs st. sv_mux (ss_srv st) = sv_mux (mm_reg mm') \<and> ss_store st = mm_store mm' \<and> Question req = q # qs \<and>
       mux_match (sv_mux (ss_srv st)) (Qname q) (Qtype q) = Some z' \<and> Qtype q \<noteq> TypeANY \<and> \<not> (Qtype q = TypeA \<and> z_ParseIP z) \<Longrightarrow>
       (\<exists>d. \<forall>stack \<ge> d. \<exists>st' m. ServeDNS (sample_env\<lparr>se_stack := stack\<rparr>) w req st = Some (Inr st') \<and>
          replied w req st st' m \<and> reply_ok z' req q m)" unfolding b F by blast
  from m have "mux_match (sv_mux (mm_reg mm')) ''example.com.'' TypeNS = Some z'"
    by (simp add: mux_match_def match_loop.simps [of _ _ _ 0] toLower_def lower_char_def rrtype_defs)
  then have "\<exists>d. \<forall>stack \<ge> d. \<exists>st' m. ServeDNS (sample_env\<lparr>se_stack := stack\<rparr>) sample_writer ?req
      (sample_state (mm_reg mm') (mm_store mm')) = Some (Inr st') \<and>
    replied sample_writer ?req (sample_state (mm_reg mm') (mm_store mm')) st' m \<and> reply_ok z' ?req ?q m"
    by (intro a) (simp add: sample_state_def sample_query_def rrtype_defs)
  with mm(1) r m show ?thesis
    by (auto simp: replied_def reply_ok_def sample_writer_def sample_state_def) blast
qed

end
